(* ===== verification/Sstp_Prelude.thy ===== *)
theory Sstp_Prelude
  imports "HOL-Library.Word" "HOL-Library.Monad_Syntax"
begin

text \<open>
  The vocabulary every component shares: the machine integers of the Rust code, its
  big-endian conversions, and its checked accesses to slices.

  A Rust operation that can panic (an index, a slice, \<open>copy_from_slice\<close>, \<open>expect\<close>,
  \<open>unwrap\<close>) is a function into \<open>'a option\<close> whose \<open>None\<close> means that the thread
  panics; a function of the code that contains such an operation returns such a value
  too, and a theorem that the code does not panic says that the value is \<open>Some\<close>. Where
  the Rust function itself returns an \<open>Option\<close> or a \<open>Result\<close>, that value sits below
  the outer \<open>Some\<close>. Rust's \<open>usize\<close> lengths are \<open>nat\<close>: no buffer of this program
  comes near \<open>2 ^ 63\<close> bytes. \<open>as u16\<close> and \<open>as u8\<close> truncate, as
  \<open>of_nat\<close> into a word does.
\<close>

unbundle bit_operations_syntax

section \<open>Types and collections\<close>

type_synonym u8 = "8 word"
type_synonym u16 = "16 word"
type_synonym u32 = "32 word"
type_synonym bytes = "u8 list"

named_theorems checked \<open>accesses that succeed under their bounds\<close>
named_theorems wire \<open>lengths of encoded data\<close>

section \<open>Checked access to slices\<close>

definition idx :: "'a list \<Rightarrow> nat \<Rightarrow> 'a option" where
  \<comment> \<open>\<open>xs[i]\<close>\<close>
  "idx xs i = (if i < length xs then Some (xs ! i) else None)"

definition subslice :: "'a list \<Rightarrow> nat \<Rightarrow> nat \<Rightarrow> 'a list option" where
  \<comment> \<open>\<open>xs[a..b]\<close>\<close>
  "subslice xs a b = (if a \<le> b \<and> b \<le> length xs then Some (take (b - a) (drop a xs)) else None)"

definition copy_into :: "'a list \<Rightarrow> nat \<Rightarrow> nat \<Rightarrow> 'a list \<Rightarrow> 'a list option" where
  \<comment> \<open>\<open>xs[a..b].copy_from_slice(src)\<close>\<close>
  "copy_into xs a b src =
     (if a \<le> b \<and> b \<le> length xs \<and> length src = b - a
      then Some (take a xs @ src @ drop b xs) else None)"

lemma idx_ok [simp, checked]: "i < length xs \<Longrightarrow> idx xs i = Some (xs ! i)"
  by (simp add: idx_def)

lemma idx_None [simp]: "length xs \<le> i \<Longrightarrow> idx xs i = None"
  by (simp add: idx_def)

lemma idx_eq_Some: "idx xs i = Some x \<longleftrightarrow> i < length xs \<and> xs ! i = x"
  by (auto simp: idx_def)

lemma idx_Cons [simp]:
  "idx (x # xs) 0 = Some x"
  "idx (x # xs) (Suc i) = idx xs i"
  "idx (x # xs) (numeral k) = idx xs (pred_numeral k)"
  by (auto simp: idx_def numeral_eq_Suc)

lemma idx_append [simp]: "idx (xs @ ys) (length xs + i) = idx ys i"
  by (simp add: idx_def)

lemma subslice_ok [simp, checked]:
  "a \<le> b \<Longrightarrow> b \<le> length xs \<Longrightarrow> subslice xs a b = Some (take (b - a) (drop a xs))"
  by (simp add: subslice_def)

lemma subslice_append [simp]: "b \<le> length xs \<Longrightarrow> subslice (xs @ ys) a b = subslice xs a b"
  by (auto simp: subslice_def)

lemma idx_append_low [simp]: "i < length xs \<Longrightarrow> idx (xs @ ys) i = idx xs i"
  by (simp add: idx_def nth_append)

lemma subslice_append_mid:
  "length xs = a \<Longrightarrow> a + length ys = b \<Longrightarrow> subslice (xs @ ys @ zs) a b = Some ys"
  by (simp add: subslice_def)

lemma copy_into_ok [simp, checked]:
  "a \<le> b \<Longrightarrow> b \<le> length xs \<Longrightarrow> length src = b - a \<Longrightarrow>
   copy_into xs a b src = Some (take a xs @ src @ drop b xs)"
  by (simp add: copy_into_def)

lemma copy_into_length:
  "copy_into xs a b src = Some ys \<Longrightarrow> length ys = length xs"
  by (auto simp: copy_into_def split: if_splits)

lemma map_sum_eq_Inr: "map_sum f g x = Inr y \<longleftrightarrow> (\<exists>z. x = Inr z \<and> y = g z)"
  by (cases x) auto

section \<open>Runs that do not panic\<close>

text \<open>
  \<open>runs m\<close>: the computation \<open>m\<close> returns. The rules below take a \<open>do\<close> block apart,
  one obligation per checked access, each with the guards that dominate it.
\<close>

definition runs :: "'a option \<Rightarrow> bool" where
  "runs m \<longleftrightarrow> m \<noteq> None"

named_theorems runs_intro \<open>a computation returns when its parts do\<close>

lemma runs_Some [simp, runs_intro]: "runs (Some x)"
  by (simp add: runs_def)

lemma runs_bind [runs_intro]:
  "runs m \<Longrightarrow> (\<And>x. m = Some x \<Longrightarrow> runs (f x)) \<Longrightarrow> runs (Option.bind m f)"
  by (cases m) (simp_all add: runs_def)

lemma runs_if [runs_intro]: "(c \<Longrightarrow> runs a) \<Longrightarrow> (\<not> c \<Longrightarrow> runs b) \<Longrightarrow> runs (if c then a else b)"
  by simp

lemma runs_Let [runs_intro]: "(\<And>y. y = x \<Longrightarrow> runs (f y)) \<Longrightarrow> runs (Let x f)"
  by simp

lemma runs_case_option [runs_intro]:
  "(x = None \<Longrightarrow> runs a) \<Longrightarrow> (\<And>y. x = Some y \<Longrightarrow> runs (f y)) \<Longrightarrow>
   runs (case x of None \<Rightarrow> a | Some y \<Rightarrow> f y)"
  by (cases x) simp_all

lemma runs_case_sum [runs_intro]:
  "(\<And>y. x = Inl y \<Longrightarrow> runs (f y)) \<Longrightarrow> (\<And>y. x = Inr y \<Longrightarrow> runs (g y)) \<Longrightarrow>
   runs (case x of Inl y \<Rightarrow> f y | Inr y \<Rightarrow> g y)"
  by (cases x) simp_all

lemma runs_case_prod [runs_intro]:
  "(\<And>a b. x = (a, b) \<Longrightarrow> runs (f a b)) \<Longrightarrow> runs (case x of (a, b) \<Rightarrow> f a b)"
  by (cases x) simp_all

lemma runs_idx [runs_intro]: "i < length xs \<Longrightarrow> runs (idx xs i)"
  by (simp add: runs_def)

lemma runs_subslice [runs_intro]: "a \<le> b \<and> b \<le> length xs \<Longrightarrow> runs (subslice xs a b)"
  by (simp add: runs_def)

lemma runs_copy_into [runs_intro]:
  "a \<le> b \<and> b \<le> length xs \<and> length src = b - a \<Longrightarrow> runs (copy_into xs a b src)"
  by (simp add: runs_def)

lemma runsE: "runs m \<Longrightarrow> (\<And>x. m = Some x \<Longrightarrow> P) \<Longrightarrow> P"
  by (auto simp: runs_def)

section \<open>Truncating casts and big-endian integers\<close>

definition as_u8 :: "nat \<Rightarrow> u8" where
  \<comment> \<open>\<open>n as u8\<close>\<close>
  "as_u8 n = of_nat n"

definition as_u16 :: "nat \<Rightarrow> u16" where
  \<comment> \<open>\<open>n as u16\<close>\<close>
  "as_u16 n = of_nat n"

definition u16_from_be :: "u8 \<Rightarrow> u8 \<Rightarrow> u16" where
  "u16_from_be hi lo = push_bit 8 (ucast hi) OR ucast lo"

definition u16_to_be :: "u16 \<Rightarrow> bytes" where
  "u16_to_be v = [ucast (drop_bit 8 v), ucast v]"

definition u32_from_be :: "u8 \<Rightarrow> u8 \<Rightarrow> u8 \<Rightarrow> u8 \<Rightarrow> u32" where
  "u32_from_be a b c d =
     push_bit 24 (ucast a) OR push_bit 16 (ucast b) OR push_bit 8 (ucast c) OR ucast d"

definition u32_to_be :: "u32 \<Rightarrow> bytes" where
  "u32_to_be v = [ucast (drop_bit 24 v), ucast (drop_bit 16 v), ucast (drop_bit 8 v), ucast v]"

lemma u8_bit_high [simp]: "8 \<le> n \<Longrightarrow> \<not> bit (b :: u8) n"
  by (auto dest: bit_imp_le_length)

lemma length_u16_to_be [simp, wire]: "length (u16_to_be v) = 2"
  by (simp add: u16_to_be_def)

lemma length_u32_to_be [simp, wire]: "length (u32_to_be v) = 4"
  by (simp add: u32_to_be_def)

lemma u16_from_to_be [simp]: "u16_from_be (ucast (drop_bit 8 v)) (ucast v) = v"
  by (rule bit_word_eqI) (auto simp: u16_from_be_def bit_simps)

lemma u16_to_from_be [simp]: "u16_to_be (u16_from_be a b) = [a, b]"
  by (auto simp: u16_to_be_def u16_from_be_def bit_simps intro!: bit_word_eqI)

lemma u32_to_from_be [simp]: "u32_to_be (u32_from_be a b c d) = [a, b, c, d]"
  by (auto simp: u32_to_be_def u32_from_be_def bit_simps intro!: bit_word_eqI)

lemma u32_from_to_be [simp]:
  "u32_from_be (ucast (drop_bit 24 v)) (ucast (drop_bit 16 v)) (ucast (drop_bit 8 v)) (ucast v) = v"
proof (rule bit_word_eqI)
  fix n
  assume "n < LENGTH(32)"
  then consider "n < 8" | "8 \<le> n \<and> n < 16" | "16 \<le> n \<and> n < 24" | "24 \<le> n \<and> n < 32"
    by fastforce
  then show "bit (u32_from_be (ucast (drop_bit 24 v)) (ucast (drop_bit 16 v))
      (ucast (drop_bit 8 v)) (ucast v)) n = bit v n"
    by cases (auto simp: u32_from_be_def bit_simps)
qed

lemma u16_to_be_eq_iff [simp]: "u16_to_be v = u16_to_be w \<longleftrightarrow> v = w"
  by (metis u16_from_to_be u16_to_be_def list.inject)

lemma u32_to_be_eq_iff [simp]: "u32_to_be v = u32_to_be w \<longleftrightarrow> v = w"
proof -
  have "u32_from_be (u32_to_be x ! 0) (u32_to_be x ! 1) (u32_to_be x ! 2) (u32_to_be x ! 3) = x" for x
    by (simp add: u32_to_be_def)
  then show ?thesis by metis
qed

lemma u16_from_be_eq_iff: "u16_from_be a b = v \<longleftrightarrow> [a, b] = u16_to_be v"
  by (metis u16_to_from_be u16_to_be_eq_iff)

lemma u32_from_be_eq_iff: "u32_from_be a b c d = v \<longleftrightarrow> [a, b, c, d] = u32_to_be v"
  by (metis u32_to_from_be u32_to_be_eq_iff)

lemma unat_as_u16 [simp]: "n < 65536 \<Longrightarrow> unat (as_u16 n) = n"
  by (simp add: as_u16_def unat_of_nat)

lemma unat_as_u16_mod: "unat (as_u16 n) = n mod 65536"
  by (simp add: as_u16_def unat_of_nat)

lemma unat_as_u8 [simp]: "n < 256 \<Longrightarrow> unat (as_u8 n) = n"
  by (simp add: as_u8_def unat_of_nat)

lemma unat_of_nat_u8: "n < 256 \<Longrightarrow> unat (of_nat n :: u8) = n"
  by (simp add: unat_of_nat)

lemma unat_u16_less: "unat (v :: u16) < 65536"
  using unsigned_less [of v] by simp

lemma unat_u8_less: "unat (v :: u8) < 256"
  using unsigned_less [of v] by simp

section \<open>Interfaces of the wire formats\<close>

text \<open>
  \<open>wire_code\<close>: an enum with a catch-all variant and its number on the wire (\<open>to_u16\<close> and
  \<open>from_u16\<close>, \<open>to_u8\<close> and \<open>from_u8\<close> of the code). The catch-all variant may not hold the
  number of a named one; \<open>ok\<close> says so. \<open>frame_codec\<close>: a frame of a code, an identifier and a
  payload, with an encoder and a decoder.
\<close>

locale wire_code =
  fixes to_num :: "'c \<Rightarrow> 'n" and from_num :: "'n \<Rightarrow> 'c" and ok :: "'c \<Rightarrow> bool"
  assumes from_to: "ok c \<Longrightarrow> from_num (to_num c) = c"
    and to_from: "to_num (from_num v) = v"
    and ok_from: "ok (from_num v)"
begin

lemma ok_iff: "ok c \<longleftrightarrow> from_num (to_num c) = c"
  by (metis from_to ok_from)

lemma to_num_inj: "ok c \<Longrightarrow> ok d \<Longrightarrow> to_num c = to_num d \<longleftrightarrow> c = d"
  by (metis from_to)

lemma from_num_inj: "from_num v = from_num w \<longleftrightarrow> v = w"
  by (metis to_from)

end

locale frame_codec = wire_code to_num from_num ok
  for to_num :: "'c \<Rightarrow> 'n" and from_num :: "'n \<Rightarrow> 'c" and ok :: "'c \<Rightarrow> bool" +
  fixes enc :: "'c \<Rightarrow> u8 \<Rightarrow> bytes \<Rightarrow> bytes" and dec :: "bytes \<Rightarrow> ('c \<times> u8 \<times> bytes) option"
  assumes dec_enc: "ok c \<Longrightarrow> length d \<le> 65531 \<Longrightarrow> dec (enc c i d @ rest) = Some (c, i, d)"
begin

lemma enc_inj:
  assumes "ok c" "ok c'" "length d \<le> 65531" "length d' \<le> 65531"
  shows "enc c i d = enc c' i' d' \<longleftrightarrow> c = c' \<and> i = i' \<and> d = d'"
proof
  assume "enc c i d = enc c' i' d'"
  then have "Some (c, i, d) = Some (c', i', d')"
    using dec_enc [of c d i "[]"] dec_enc [of c' d' i' "[]"] assms by simp
  then show "c = c' \<and> i = i' \<and> d = d'" by simp
qed simp

end

end
