(* ===== verification/Rust_Str.thy ===== *)
theory Rust_Str
  imports Sstp_Prelude
begin

text \<open>
  Rust's strings, as far as the program uses them. A \<open>String\<close> is the list of its
  \<open>char\<close>s, each a Unicode scalar value given by its number; \<open>utf8\<close> is its bytes
  (\<open>as_bytes\<close>, \<open>bytes\<close>), \<open>utf16\<close> its UTF-16 units (\<open>encode_utf16\<close>) and
  \<open>from_utf8_lossy\<close> the decoder that replaces every maximal ill-formed run of bytes
  by U+FFFD. The remaining definitions are the string methods of the standard library that
  the program calls and the number formats of its messages.
\<close>

section \<open>Characters and encodings\<close>

type_synonym rstr = "nat list"

definition rchar :: "nat \<Rightarrow> bool" where
  "rchar c \<longleftrightarrow> c < 0xD800 \<or> (0xE000 \<le> c \<and> c < 0x110000)"

definition lit :: "string \<Rightarrow> rstr" where
  "lit s = map of_char s"

definition utf8_char :: "nat \<Rightarrow> nat list" where
  "utf8_char c =
     (if c < 0x80 then [c]
      else if c < 0x800 then [0xC0 + c div 64, 0x80 + c mod 64]
      else if c < 0x10000 then [0xE0 + c div 4096, 0x80 + c div 64 mod 64, 0x80 + c mod 64]
      else [0xF0 + c div 262144, 0x80 + c div 4096 mod 64, 0x80 + c div 64 mod 64, 0x80 + c mod 64])"

definition utf8 :: "rstr \<Rightarrow> bytes" where
  "utf8 s = map of_nat (concat (map utf8_char s))"

definition utf16_char :: "nat \<Rightarrow> u16 list" where
  "utf16_char c =
     (if c < 0x10000 then [of_nat c]
      else [of_nat (0xD800 + (c - 0x10000) div 1024), of_nat (0xDC00 + (c - 0x10000) mod 1024)])"

definition utf16 :: "rstr \<Rightarrow> u16 list" where
  "utf16 s = concat (map utf16_char s)"

definition cont :: "nat \<Rightarrow> bool" where
  "cont b \<longleftrightarrow> 0x80 \<le> b \<and> b < 0xC0"

definition second3 :: "nat \<Rightarrow> nat \<Rightarrow> bool" where
  \<comment> \<open>which second byte may follow a lead byte of a three-byte sequence\<close>
  "second3 a b \<longleftrightarrow>
     (if a = 0xE0 then 0xA0 \<le> b \<and> b < 0xC0 else if a = 0xED then 0x80 \<le> b \<and> b < 0xA0 else cont b)"

definition second4 :: "nat \<Rightarrow> nat \<Rightarrow> bool" where
  "second4 a b \<longleftrightarrow>
     (if a = 0xF0 then 0x90 \<le> b \<and> b < 0xC0 else if a = 0xF4 then 0x80 \<le> b \<and> b < 0x90 else cont b)"

fun lossy :: "nat list \<Rightarrow> rstr" where
  "lossy [] = []"
| "lossy (a # bs) =
     (if a < 0x80 then a # lossy bs
      else if 0xC2 \<le> a \<and> a < 0xE0 then
        (case bs of
           [] \<Rightarrow> [0xFFFD]
         | b # cs \<Rightarrow>
             if cont b then ((a - 0xC0) * 64 + (b - 0x80)) # lossy cs else 0xFFFD # lossy bs)
      else if 0xE0 \<le> a \<and> a < 0xF0 then
        (case bs of
           [] \<Rightarrow> [0xFFFD]
         | b # cs \<Rightarrow>
             if second3 a b then
               (case cs of
                  [] \<Rightarrow> [0xFFFD]
                | c # ds \<Rightarrow>
                    if cont c
                    then ((a - 0xE0) * 4096 + (b - 0x80) * 64 + (c - 0x80)) # lossy ds
                    else 0xFFFD # lossy cs)
             else 0xFFFD # lossy bs)
      else if 0xF0 \<le> a \<and> a < 0xF5 then
        (case bs of
           [] \<Rightarrow> [0xFFFD]
         | b # cs \<Rightarrow>
             if second4 a b then
               (case cs of
                  [] \<Rightarrow> [0xFFFD]
                | c # ds \<Rightarrow>
                    if cont c then
                      (case ds of
                         [] \<Rightarrow> [0xFFFD]
                       | d # es \<Rightarrow>
                           if cont d
                           then ((a - 0xF0) * 262144 + (b - 0x80) * 4096 + (c - 0x80) * 64 +
                                 (d - 0x80)) # lossy es
                           else 0xFFFD # lossy ds)
                    else 0xFFFD # lossy cs)
             else 0xFFFD # lossy bs)
      else 0xFFFD # lossy bs)"

definition from_utf8_lossy :: "bytes \<Rightarrow> rstr" where
  "from_utf8_lossy bs = lossy (map unat bs)"

section \<open>String methods\<close>

definition is_whitespace :: "nat \<Rightarrow> bool" where
  "is_whitespace c \<longleftrightarrow>
     (9 \<le> c \<and> c \<le> 13) \<or> c = 32 \<or> c = 0x85 \<or> c = 0xA0 \<or> c = 0x1680 \<or> (0x2000 \<le> c \<and> c \<le> 0x200A) \<or>
     c = 0x2028 \<or> c = 0x2029 \<or> c = 0x202F \<or> c = 0x205F \<or> c = 0x3000"

definition first_token :: "rstr \<Rightarrow> rstr option" where
  \<comment> \<open>\<open>s.split_whitespace().next()\<close>\<close>
  "first_token s =
     (let t = takeWhile (Not \<circ> is_whitespace) (dropWhile is_whitespace s)
      in if t = [] then None else Some t)"

definition ascii_upper :: "nat \<Rightarrow> nat" where
  "ascii_upper c = (if 97 \<le> c \<and> c \<le> 122 then c - 32 else c)"

definition eq_ignore_ascii_case :: "rstr \<Rightarrow> rstr \<Rightarrow> bool" where
  "eq_ignore_ascii_case s t \<longleftrightarrow> map ascii_upper s = map ascii_upper t"

definition after_last :: "nat \<Rightarrow> rstr \<Rightarrow> rstr" where
  \<comment> \<open>\<open>s.rsplit(c).next().unwrap_or(s)\<close>: what follows the last \<open>c\<close>, all of \<open>s\<close> if none\<close>
  "after_last c s = rev (takeWhile (\<lambda>x. x \<noteq> c) (rev s))"

section \<open>Number formats\<close>

fun show_dec :: "nat \<Rightarrow> rstr" where
  "show_dec n = (if n < 10 then [48 + n] else show_dec (n div 10) @ [48 + n mod 10])"

declare show_dec.simps [simp del]

definition hex_digit :: "nat \<Rightarrow> nat \<Rightarrow> nat" where
  \<comment> \<open>the first argument is the letter that stands for ten\<close>
  "hex_digit a d = (if d < 10 then 48 + d else a + (d - 10))"

definition hex2 :: "nat \<Rightarrow> u8 \<Rightarrow> rstr" where
  "hex2 a b = [hex_digit a (unat b div 16), hex_digit a (unat b mod 16)]"

definition hex_lower :: "u8 \<Rightarrow> rstr" where
  \<comment> \<open>\<open>{:02x}\<close>\<close>
  "hex_lower = hex2 97"

definition hex_upper :: "u8 \<Rightarrow> rstr" where
  \<comment> \<open>\<open>{:02X}\<close>\<close>
  "hex_upper = hex2 65"

fun join :: "rstr \<Rightarrow> rstr list \<Rightarrow> rstr" where
  "join sep [] = []"
| "join sep [s] = s"
| "join sep (s # ss) = s @ sep @ join sep ss"

definition hex_debug :: "bytes \<Rightarrow> rstr" where
  \<comment> \<open>\<open>{:02x?}\<close> of a byte vector\<close>
  "hex_debug bs = lit ''['' @ join (lit '', '') (map hex_lower bs) @ lit '']''"

section \<open>Facts\<close>

lemma utf8_Nil [simp]: "utf8 [] = []"
  by (simp add: utf8_def)

lemma utf8_Cons: "utf8 (c # s) = map of_nat (utf8_char c) @ utf8 s"
  by (simp add: utf8_def)

lemma utf8_append [simp]: "utf8 (s @ t) = utf8 s @ utf8 t"
  by (simp add: utf8_def)

lemma utf8_ascii: "\<forall>c\<in>set s. c < 128 \<Longrightarrow> utf8 s = map of_nat s"
  by (induction s) (auto simp: utf8_Cons utf8_char_def)

lemma utf16_ascii: "\<forall>c\<in>set s. c < 128 \<Longrightarrow> utf16 s = map of_nat s"
  by (induction s) (auto simp: utf16_def utf16_char_def)

lemma rchar_ascii: "c < 128 \<Longrightarrow> rchar c"
  by (simp add: rchar_def)

lemma lossy2:
  "2 \<le> q \<Longrightarrow> q < 32 \<Longrightarrow> r < 64 \<Longrightarrow>
   lossy ((0xC0 + q) # (0x80 + r) # bs) = (q * 64 + r) # lossy bs"
  by (simp add: cont_def)

lemma lossy3:
  "q < 16 \<Longrightarrow> r < 64 \<Longrightarrow> t < 64 \<Longrightarrow> (q = 0 \<Longrightarrow> 32 \<le> r) \<Longrightarrow> (q = 13 \<Longrightarrow> r < 32) \<Longrightarrow>
   lossy ((0xE0 + q) # (0x80 + r) # (0x80 + t) # bs) = (q * 4096 + r * 64 + t) # lossy bs"
  by (simp add: cont_def second3_def)

lemma lossy4:
  "q < 5 \<Longrightarrow> r < 64 \<Longrightarrow> t < 64 \<Longrightarrow> u < 64 \<Longrightarrow> (q = 0 \<Longrightarrow> 16 \<le> r) \<Longrightarrow> (q = 4 \<Longrightarrow> r < 16) \<Longrightarrow>
   lossy ((0xF0 + q) # (0x80 + r) # (0x80 + t) # (0x80 + u) # bs) =
     (q * 262144 + r * 4096 + t * 64 + u) # lossy bs"
  by (simp add: cont_def second4_def)

lemma lossy_utf8_char: "rchar c \<Longrightarrow> lossy (utf8_char c @ bs) = c # lossy bs"
proof -
  assume c: "rchar c"
  consider "c < 0x80" | "0x80 \<le> c \<and> c < 0x800" | "0x800 \<le> c \<and> c < 0x10000" | "0x10000 \<le> c"
    by linarith
  then show ?thesis
  proof cases
    case 1
    then show ?thesis by (simp add: utf8_char_def)
  next
    case 2
    then have "2 \<le> c div 64" "c div 64 < 32"
      by linarith+
    then show ?thesis
      using 2 lossy2 [of "c div 64" "c mod 64" bs] by (simp add: utf8_char_def del: lossy.simps)
  next
    case 3
    define m where "m = c div 64"
    have q: "c div 4096 = m div 64"
      by (simp add: m_def div_mult2_eq [symmetric])
    have m: "32 \<le> m" "m < 1024" "m < 864 \<or> 896 \<le> m"
      using 3 c by (auto simp: m_def rchar_def div_less_iff_less_mult less_eq_div_iff_mult_less_eq)
    have "lossy ((0xE0 + m div 64) # (0x80 + m mod 64) # (0x80 + c mod 64) # bs) =
        (m div 64 * 4096 + m mod 64 * 64 + c mod 64) # lossy bs"
      by (rule lossy3) (use m div_mult_mod_eq [of m 64] in auto)
    moreover have "m div 64 * 4096 + m mod 64 * 64 + c mod 64 = c"
      using div_mult_mod_eq [of m 64] div_mult_mod_eq [of c 64] m_def by linarith
    ultimately show ?thesis
      using 3 by (simp add: utf8_char_def q m_def [symmetric] del: lossy.simps)
  next
    case 4
    define m where "m = c div 64"
    define k where "k = m div 64"
    have q: "c div 262144 = k div 64" "c div 4096 = k"
      by (simp_all add: k_def m_def div_mult2_eq [symmetric])
    have k: "16 \<le> k" "k < 272"
      using 4 c
      by (auto simp: m_def k_def rchar_def div_less_iff_less_mult less_eq_div_iff_mult_less_eq)
    have "lossy ((0xF0 + k div 64) # (0x80 + k mod 64) # (0x80 + m mod 64) # (0x80 + c mod 64) # bs) =
        (k div 64 * 262144 + k mod 64 * 4096 + m mod 64 * 64 + c mod 64) # lossy bs"
      by (rule lossy4) (use k div_mult_mod_eq [of k 64] in auto)
    moreover have "k div 64 * 262144 + k mod 64 * 4096 + m mod 64 * 64 + c mod 64 = c"
      using div_mult_mod_eq [of k 64] div_mult_mod_eq [of m 64] div_mult_mod_eq [of c 64] m_def k_def
      by linarith
    ultimately show ?thesis
      using 4 by (simp add: utf8_char_def q m_def [symmetric] del: lossy.simps)
  qed
qed

lemma utf8_char_byte: "rchar c \<Longrightarrow> b \<in> set (utf8_char c) \<Longrightarrow> b < 256"
  by (auto simp: utf8_char_def rchar_def split: if_splits)

lemma lossy_concat: "\<forall>c\<in>set s. rchar c \<Longrightarrow> lossy (concat (map utf8_char s)) = s"
  by (induction s) (simp_all add: lossy_utf8_char del: lossy.simps(2))

lemma from_utf8_lossy_utf8 [simp]:
  assumes "\<forall>c\<in>set s. rchar c"
  shows "from_utf8_lossy (utf8 s) = s"
proof -
  have "map unat (map of_nat (concat (map utf8_char s)) :: bytes) = concat (map utf8_char s)"
    using assms by (auto intro!: map_idI unat_of_nat_u8 utf8_char_byte)
  then show ?thesis
    using assms by (simp add: from_utf8_lossy_def utf8_def lossy_concat del: map_map)
qed

lemma from_utf8_lossy_ascii:
  "\<forall>c\<in>set s. c < 128 \<Longrightarrow> from_utf8_lossy (map of_nat s) = s"
  using from_utf8_lossy_utf8 [of s] by (simp add: utf8_ascii rchar_ascii)

lemma after_last_prefix [simp]: "c \<notin> set t \<Longrightarrow> after_last c (s @ c # t) = t"
  by (auto simp: after_last_def takeWhile_append)

lemma after_last_none [simp]: "c \<notin> set t \<Longrightarrow> after_last c t = t"
proof -
  assume "c \<notin> set t"
  then have "takeWhile (\<lambda>x. x \<noteq> c) (rev t) = rev t"
    by (auto simp: takeWhile_eq_all_conv)
  then show ?thesis by (simp only: after_last_def rev_rev_ident)
qed

lemma length_hex_upper [simp]: "length (hex_upper b) = 2"
  by (simp add: hex_upper_def hex2_def)

definition is_hex_upper :: "nat \<Rightarrow> bool" where
  "is_hex_upper c \<longleftrightarrow> 48 \<le> c \<and> c \<le> 57 \<or> 65 \<le> c \<and> c \<le> 70"

lemma hex_upper_chars: "c \<in> set (hex_upper b) \<Longrightarrow> is_hex_upper c"
  using unat_u8_less [of b] by (auto simp: hex_upper_def hex2_def hex_digit_def is_hex_upper_def split: if_splits)

lemma length_concat_hex_upper [simp]: "length (concat (map hex_upper bs)) = 2 * length bs"
  by (induction bs) simp_all

end
