(* ===== verification/Packet.thy ===== *)
theory Packet
  imports Rust_Str "HOL-Library.Sublist"
begin

text \<open>
  SSTP wire framing (\<open>sstp-proto/src/packet.rs\<close>): the four-byte packet header, the control
  header with its attributes, the decoder of one packet and the reader that cuts a byte
  stream into packets. The locale \<open>stream_reader\<close> is the contract the connection loop relies
  on: whatever the chunks in which the bytes arrive, the packets come out whole and in order.
\<close>

section \<open>Message and attribute types\<close>

definition PROTO_VERSION :: u8 where "PROTO_VERSION = 0x10"
definition FLAG_CTRL :: u8 where "FLAG_CTRL = 0x01"
definition PKT_HEADER_LEN :: nat where "PKT_HEADER_LEN = 4"
definition CTRL_HEADER_LEN :: nat where "CTRL_HEADER_LEN = 4"
definition ATTR_HEADER_LEN :: nat where "ATTR_HEADER_LEN = 4"

lemmas header_lens = PKT_HEADER_LEN_def CTRL_HEADER_LEN_def ATTR_HEADER_LEN_def

datatype msg_type =
    ConnectRequest | ConnectAck | ConnectNak | Connected | Abort | Disconnect | DisconnectAck
  | EchoRequest | EchoReply | UnknownMsg u16

fun msg_to_u16 :: "msg_type \<Rightarrow> u16" where
  "msg_to_u16 ConnectRequest = 0x0001"
| "msg_to_u16 ConnectAck = 0x0002"
| "msg_to_u16 ConnectNak = 0x0003"
| "msg_to_u16 Connected = 0x0004"
| "msg_to_u16 Abort = 0x0005"
| "msg_to_u16 Disconnect = 0x0006"
| "msg_to_u16 DisconnectAck = 0x0007"
| "msg_to_u16 EchoRequest = 0x0008"
| "msg_to_u16 EchoReply = 0x0009"
| "msg_to_u16 (UnknownMsg v) = v"

definition msg_from_u16 :: "u16 \<Rightarrow> msg_type" where
  "msg_from_u16 v =
     (if v = 0x0001 then ConnectRequest
      else if v = 0x0002 then ConnectAck
      else if v = 0x0003 then ConnectNak
      else if v = 0x0004 then Connected
      else if v = 0x0005 then Abort
      else if v = 0x0006 then Disconnect
      else if v = 0x0007 then DisconnectAck
      else if v = 0x0008 then EchoRequest
      else if v = 0x0009 then EchoReply
      else UnknownMsg v)"

datatype attr_type =
    NoError | EncapProtocol | StatusInfo | CryptoBind | CryptoBindRequest | UnknownAttr u8

fun attr_to_u8 :: "attr_type \<Rightarrow> u8" where
  "attr_to_u8 NoError = 0x00"
| "attr_to_u8 EncapProtocol = 0x01"
| "attr_to_u8 StatusInfo = 0x02"
| "attr_to_u8 CryptoBind = 0x03"
| "attr_to_u8 CryptoBindRequest = 0x04"
| "attr_to_u8 (UnknownAttr v) = v"

definition attr_from_u8 :: "u8 \<Rightarrow> attr_type" where
  "attr_from_u8 v =
     (if v = 0x00 then NoError
      else if v = 0x01 then EncapProtocol
      else if v = 0x02 then StatusInfo
      else if v = 0x03 then CryptoBind
      else if v = 0x04 then CryptoBindRequest
      else UnknownAttr v)"

record attr =
  attr_type :: attr_type
  attr_data :: bytes

section \<open>Status reports\<close>

definition status_reason :: "u32 \<Rightarrow> rstr" where
  "status_reason code =
     (if code = 0x01 then lit ''Received Duplicate Attribute''
      else if code = 0x02 then lit ''Unrecognized Attribute''
      else if code = 0x03 then lit ''Invalid Attribute Length''
      else if code = 0x04 then lit ''Value of attribute is incorrect''
      else if code = 0x09 then lit ''Attribute is invalid or not supported''
      else if code = 0x0a then lit ''Attribute is missing''
      else if code = 0x0b then lit ''Invalid info attribute''
      else lit ''Unknown Status Attribute'')"

definition describe_status :: "attr list \<Rightarrow> rstr option option" where
  "describe_status attrs =
     (case List.find (\<lambda>a. attr_type a = StatusInfo) attrs of
        None \<Rightarrow> Some None
      | Some a \<Rightarrow>
          if length (attr_data a) < 8
          then Some (Some (lit ''malformed status-info attribute: '' @ hex_debug (attr_data a)))
          else do {
            referenced_attr \<leftarrow> idx (attr_data a) 3;
            c \<leftarrow> subslice (attr_data a) 4 8;
            c0 \<leftarrow> idx c 0; c1 \<leftarrow> idx c 1; c2 \<leftarrow> idx c 2; c3 \<leftarrow> idx c 3;
            let code = u32_from_be c0 c1 c2 c3;
            Some (Some (status_reason code @ lit '' (code '' @ show_dec (unat code) @
                        lit '', attribute '' @ show_dec (unat referenced_attr) @ lit '')''))
          })"

section \<open>Packets\<close>

datatype packet = Data bytes | Ctrl msg_type "attr list"

datatype decode_error = Incomplete | BadVersion u8 | Malformed string

definition encode_data :: "bytes \<Rightarrow> bytes" where
  "encode_data ppp_frame =
     (let total_len = PKT_HEADER_LEN + length ppp_frame
      in [PROTO_VERSION, 0] @ u16_to_be (as_u16 total_len) @ ppp_frame)"

fun encode_attrs :: "(attr_type \<times> bytes) list \<Rightarrow> bytes" where
  "encode_attrs [] = []"
| "encode_attrs ((t, data) # attrs) =
     [0, attr_to_u8 t] @ u16_to_be (as_u16 (ATTR_HEADER_LEN + length data)) @ data @
     encode_attrs attrs"

definition encode_ctrl :: "msg_type \<Rightarrow> (attr_type \<times> bytes) list \<Rightarrow> bytes" where
  "encode_ctrl m attrs =
     (let tail = u16_to_be (msg_to_u16 m) @ u16_to_be (as_u16 (length attrs)) @ encode_attrs attrs
      in [PROTO_VERSION, FLAG_CTRL] @ u16_to_be (as_u16 (PKT_HEADER_LEN + length tail)) @ tail)"

fun decode_attrs :: "bytes \<Rightarrow> nat \<Rightarrow> nat \<Rightarrow> nat \<Rightarrow> attr list \<Rightarrow> (decode_error + attr list) option" where
  "decode_attrs buf len 0 pos attrs = Some (Inr attrs)"
| "decode_attrs buf len (Suc n) pos attrs =
     (if len < pos + ATTR_HEADER_LEN
      then Some (Inl (Malformed ''attribute header runs past packet end''))
      else do {
        ty \<leftarrow> idx buf (pos + 1);
        l0 \<leftarrow> idx buf (pos + 2);
        l1 \<leftarrow> idx buf (pos + 3);
        let attr_len = unat (u16_from_be l0 l1);
        if attr_len < ATTR_HEADER_LEN \<or> len < pos + attr_len
        then Some (Inl (Malformed ''attribute length invalid or runs past packet end''))
        else do {
          data \<leftarrow> subslice buf (pos + ATTR_HEADER_LEN) (pos + attr_len);
          decode_attrs buf len n (pos + attr_len)
            (attrs @ [\<lparr>attr_type = attr_from_u8 ty, attr_data = data\<rparr>])
        }
      })"

definition packet_decode :: "bytes \<Rightarrow> (decode_error + packet) option" where
  "packet_decode buf =
     (if length buf < PKT_HEADER_LEN then Some (Inl Incomplete)
      else do {
        version \<leftarrow> idx buf 0;
        if version \<noteq> PROTO_VERSION then Some (Inl (BadVersion version))
        else do {
          flags \<leftarrow> idx buf 1;
          l0 \<leftarrow> idx buf 2;
          l1 \<leftarrow> idx buf 3;
          let len = unat (u16_from_be l0 l1);
          if len < PKT_HEADER_LEN
          then Some (Inl (Malformed ''header length smaller than header itself''))
          else if length buf < len then Some (Inl Incomplete)
          else if flags AND FLAG_CTRL = 0 then do {
            payload \<leftarrow> subslice buf PKT_HEADER_LEN len;
            Some (Inr (Data payload))
          }
          else if len < PKT_HEADER_LEN + CTRL_HEADER_LEN
          then Some (Inl (Malformed ''control packet shorter than control header''))
          else do {
            m0 \<leftarrow> idx buf 4; m1 \<leftarrow> idx buf 5;
            n0 \<leftarrow> idx buf 6; n1 \<leftarrow> idx buf 7;
            let nattr = unat (u16_from_be n0 n1);
            r \<leftarrow> decode_attrs buf len nattr (PKT_HEADER_LEN + CTRL_HEADER_LEN) [];
            Some (map_sum id (Ctrl (msg_from_u16 (u16_from_be m0 m1))) r)
          }
        }
      })"

section \<open>The packet reader\<close>

record packet_reader =
  reader_buf :: bytes

definition reader_new :: packet_reader where
  "reader_new = \<lparr>reader_buf = []\<rparr>"

definition reader_push :: "bytes \<Rightarrow> packet_reader \<Rightarrow> packet_reader" where
  "reader_push bs r = r\<lparr>reader_buf := reader_buf r @ bs\<rparr>"

definition next_packet ::
    "packet_reader \<Rightarrow> ((decode_error + packet option) \<times> packet_reader) option" where
  "next_packet r = do {
     d \<leftarrow> packet_decode (reader_buf r);
     case d of
       Inr pkt \<Rightarrow> do {
         c0 \<leftarrow> idx (reader_buf r) 2;
         c1 \<leftarrow> idx (reader_buf r) 3;
         let consumed = unat (u16_from_be c0 c1);
         rest \<leftarrow> subslice (reader_buf r) consumed (length (reader_buf r));
         Some (Inr (Some pkt), r\<lparr>reader_buf := rest\<rparr>)
       }
     | Inl Incomplete \<Rightarrow> Some (Inr None, r)
     | Inl e \<Rightarrow> Some (Inl e, r)
   }"

section \<open>Well-formed packets and their wire image\<close>

fun msg_ok :: "msg_type \<Rightarrow> bool" where
  "msg_ok (UnknownMsg v) = (v = 0 \<or> 9 < v)"
| "msg_ok m = True"

fun attr_type_ok :: "attr_type \<Rightarrow> bool" where
  "attr_type_ok (UnknownAttr v) = (4 < v)"
| "attr_type_ok t = True"

definition attr_pair :: "attr \<Rightarrow> attr_type \<times> bytes" where
  "attr_pair a = (attr_type a, attr_data a)"

fun encode_packet :: "packet \<Rightarrow> bytes" where
  "encode_packet (Data f) = encode_data f"
| "encode_packet (Ctrl m attrs) = encode_ctrl m (map attr_pair attrs)"

fun packet_ok :: "packet \<Rightarrow> bool" where
  "packet_ok (Data f) = (length f \<le> 65531)"
| "packet_ok (Ctrl m attrs) =
     (msg_ok m \<and> list_all (attr_type_ok \<circ> attr_type) attrs \<and>
      8 + length (encode_attrs (map attr_pair attrs)) \<le> 65535)"

lemma msg_from_to [simp]: "msg_ok m \<Longrightarrow> msg_from_u16 (msg_to_u16 m) = m"
  by (cases m) (auto simp: msg_from_u16_def)

lemma msg_to_from [simp]: "msg_to_u16 (msg_from_u16 v) = v"
  by (simp add: msg_from_u16_def)

lemma attr_from_to [simp]: "attr_type_ok t \<Longrightarrow> attr_from_u8 (attr_to_u8 t) = t"
  by (cases t) (auto simp: attr_from_u8_def)

lemma attr_to_from [simp]: "attr_to_u8 (attr_from_u8 v) = v"
  by (simp add: attr_from_u8_def)

lemma length_encode_data [simp, wire]: "length (encode_data f) = 4 + length f"
  by (simp add: encode_data_def)

lemma length_encode_ctrl [simp, wire]: "length (encode_ctrl m attrs) = 8 + length (encode_attrs attrs)"
  by (simp add: encode_ctrl_def Let_def)

lemma length_encode_attrs [wire]:
  "length (encode_attrs attrs) = (\<Sum>(t, d) \<leftarrow> attrs. 4 + length d)"
  by (induction attrs rule: encode_attrs.induct) simp_all

lemma length_encode_attrs_ge: "4 * length attrs \<le> length (encode_attrs attrs)"
  by (induction attrs rule: encode_attrs.induct) simp_all

lemma length_encode_attrs_pair [simp]:
  "length (encode_attrs (attr_pair a # attrs)) = 4 + length (attr_data a) + length (encode_attrs attrs)"
  by (simp add: attr_pair_def)

lemma encode_packet_header:
  assumes "packet_ok p"
  obtains fl body where
    "encode_packet p = [PROTO_VERSION, fl] @ u16_to_be (as_u16 (4 + length body)) @ body"
    "4 + length body < 65536"
proof (cases p)
  case (Data f)
  then show ?thesis
    using assms that [of 0 f] by (simp add: encode_data_def Let_def header_lens)
next
  case (Ctrl m attrs)
  let ?attrs = "map attr_pair attrs"
  let ?tail = "u16_to_be (msg_to_u16 m) @ u16_to_be (as_u16 (length ?attrs)) @ encode_attrs ?attrs"
  show ?thesis
    using Ctrl assms that [of FLAG_CTRL ?tail] by (simp add: encode_ctrl_def Let_def header_lens)
qed

section \<open>The decoder\<close>

lemma decode_attrs_encode:
  "list_all (\<lambda>(t, d). attr_type_ok t \<and> 4 + length d < 65536) attrs \<Longrightarrow>
   length pre = pos \<Longrightarrow> len = pos + length (encode_attrs attrs) \<Longrightarrow>
   decode_attrs (pre @ encode_attrs attrs @ rest) len (length attrs) pos acc =
   Some (Inr (acc @ map (\<lambda>(t, d). \<lparr>attr_type = t, attr_data = d\<rparr>) attrs))"
proof (induction attrs arbitrary: pre pos acc rule: encode_attrs.induct)
  case (2 t data attrs)
  let ?h = "[0, attr_to_u8 t] @ u16_to_be (as_u16 (4 + length data))"
  have "decode_attrs ((pre @ ?h @ data) @ encode_attrs attrs @ rest) len (length attrs)
      (pos + (4 + length data)) (acc @ [\<lparr>attr_type = t, attr_data = data\<rparr>]) =
    Some (Inr ((acc @ [\<lparr>attr_type = t, attr_data = data\<rparr>]) @
      map (\<lambda>(t, d). \<lparr>attr_type = t, attr_data = d\<rparr>) attrs))"
    using 2 by (intro "2.IH") (simp_all add: header_lens)
  moreover have "subslice (pre @ ?h @ data @ encode_attrs attrs @ rest) (pos + 4)
      (pos + (4 + length data)) = Some data"
    using 2 by (simp add: u16_to_be_def)
  ultimately show ?case
    using 2 by (simp add: header_lens u16_to_be_def nth_append Let_def)
qed simp

lemma packet_decode_data:
  "length f \<le> 65531 \<Longrightarrow> packet_decode (encode_data f @ rest) = Some (Inr (Data f))"
  by (simp add: packet_decode_def encode_data_def header_lens Let_def u16_to_be_def FLAG_CTRL_def)

lemma packet_decode_ctrl:
  assumes "msg_ok m" and "list_all (attr_type_ok \<circ> fst) attrs"
    and "8 + length (encode_attrs attrs) \<le> 65535"
  shows "packet_decode (encode_ctrl m attrs @ rest) =
    Some (Inr (Ctrl m (map (\<lambda>(t, d). \<lparr>attr_type = t, attr_data = d\<rparr>) attrs)))"
proof -
  let ?len = "8 + length (encode_attrs attrs)"
  let ?h = "[PROTO_VERSION, FLAG_CTRL] @ u16_to_be (as_u16 ?len) @ u16_to_be (msg_to_u16 m) @
    u16_to_be (as_u16 (length attrs))"
  have n: "length attrs < 65536"
    using assms(3) length_encode_attrs_ge [of attrs] by linarith
  have ok: "list_all (\<lambda>(t, d). attr_type_ok t \<and> 4 + length d < 65536) attrs"
    using assms(2,3) by (induction attrs rule: encode_attrs.induct) auto
  have "encode_ctrl m attrs @ rest = ?h @ encode_attrs attrs @ rest"
    by (simp add: encode_ctrl_def header_lens)
  moreover have "decode_attrs (?h @ encode_attrs attrs @ rest) ?len (length attrs) 8 [] =
    Some (Inr ([] @ map (\<lambda>(t, d). \<lparr>attr_type = t, attr_data = d\<rparr>) attrs))"
    by (rule decode_attrs_encode [OF ok]) simp_all
  ultimately show ?thesis
    using assms n by (simp add: packet_decode_def header_lens Let_def u16_to_be_def FLAG_CTRL_def)
qed

lemma attr_of_pair [simp]: "(\<lambda>(t, d). \<lparr>attr_type = t, attr_data = d\<rparr>) \<circ> attr_pair = id"
  by (simp add: fun_eq_iff attr_pair_def)

lemma fst_attr_pair [simp]: "attr_type_ok \<circ> fst \<circ> attr_pair = attr_type_ok \<circ> attr_type"
  by (simp add: fun_eq_iff attr_pair_def)

lemma packet_decode_wire:
  "packet_ok p \<Longrightarrow> packet_decode (encode_packet p @ rest) = Some (Inr p)"
  by (cases p) (simp_all add: packet_decode_data packet_decode_ctrl list.pred_map)

lemma packet_decode_short:
  assumes "packet_ok p" and "strict_prefix bs (encode_packet p)"
  shows "packet_decode bs = Some (Inl Incomplete)"
proof (cases "length bs < 4")
  case True
  then show ?thesis by (simp add: packet_decode_def header_lens)
next
  case False
  let ?w = "encode_packet p"
  obtain fl body where w: "?w = [PROTO_VERSION, fl] @ u16_to_be (as_u16 (4 + length body)) @ body"
    and len: "4 + length body < 65536"
    using encode_packet_header [OF assms(1)] by blast
  define xs where "xs = take (length bs - 4) body"
  have "length bs < length ?w"
    using assms(2) by (rule prefix_length_less)
  then have short: "length xs < length body"
    using w False by (simp add: xs_def)
  have "bs = take (length bs) ?w"
    using assms(2) by (auto simp: strict_prefix_def prefix_def)
  also have "\<dots> = [PROTO_VERSION, fl] @ u16_to_be (as_u16 (4 + length body)) @ xs"
    using False by (subst w) (auto simp: u16_to_be_def numeral_eq_Suc take_Cons' xs_def)
  finally show ?thesis
    using short len by (simp add: packet_decode_def header_lens Let_def u16_to_be_def)
qed

lemma runs_decode_attrs [runs_intro]:
  "len \<le> length buf \<Longrightarrow> runs (decode_attrs buf len n pos acc)"
proof (induction n arbitrary: pos acc)
  case (Suc n)
  show ?case
    unfolding decode_attrs.simps header_lens
    by (intro runs_intro Suc.IH) (use Suc.prems in simp_all)
qed simp

lemma runs_packet_decode [runs_intro]: "runs (packet_decode buf)"
  unfolding packet_decode_def header_lens by (intro runs_intro) auto

text \<open>
  With every access checked, the decoder is a chain of tests on the bytes of the buffer; a
  packet it returns occupies the first \<open>frame_len\<close> bytes.
\<close>

definition frame_len :: "bytes \<Rightarrow> nat" where
  "frame_len buf = unat (u16_from_be (buf ! 2) (buf ! 3))"

lemma packet_decode_eq:
  "packet_decode buf =
     (if length buf < 4 then Some (Inl Incomplete)
      else if buf ! 0 \<noteq> PROTO_VERSION then Some (Inl (BadVersion (buf ! 0)))
      else if frame_len buf < 4 then Some (Inl (Malformed ''header length smaller than header itself''))
      else if length buf < frame_len buf then Some (Inl Incomplete)
      else if buf ! 1 AND FLAG_CTRL = 0
      then Some (Inr (Data (take (frame_len buf - 4) (drop 4 buf))))
      else if frame_len buf < 8 then Some (Inl (Malformed ''control packet shorter than control header''))
      else map_option (map_sum id (Ctrl (msg_from_u16 (u16_from_be (buf ! 4) (buf ! 5)))))
        (decode_attrs buf (frame_len buf) (unat (u16_from_be (buf ! 6) (buf ! 7))) 8 []))"
proof (cases "length buf < 4")
  case False
  then have "buf \<noteq> []" by auto
  with False show ?thesis
    by (simp add: packet_decode_def header_lens Let_def frame_len_def map_option_case
        split: option.split)
qed (simp add: packet_decode_def header_lens)

lemma packet_decode_consumed:
  assumes "packet_decode buf = Some (Inr p)"
  shows "4 \<le> length buf" "4 \<le> frame_len buf" "frame_len buf \<le> length buf"
  using assms by (auto simp: packet_decode_eq split: if_splits)

lemma runs_next_packet [runs_intro]: "runs (next_packet r)"
  unfolding next_packet_def
  by (intro runs_intro)
    (auto simp: idx_eq_Some frame_len_def [symmetric] dest: packet_decode_consumed
      split: decode_error.splits)

text \<open>More bytes do not change a decision the decoder has already taken.\<close>

lemma decode_attrs_append:
  "len \<le> length buf \<Longrightarrow> decode_attrs (buf @ x) len n pos acc = decode_attrs buf len n pos acc"
proof (induction n arbitrary: pos acc)
  case (Suc n)
  then show ?case by (auto simp: header_lens Let_def nth_append)
qed simp

lemma frame_len_append [simp]: "4 \<le> length buf \<Longrightarrow> frame_len (buf @ x) = frame_len buf"
  by (simp add: frame_len_def nth_append)

lemma packet_decode_append:
  assumes "packet_decode buf = Some r" and "r \<noteq> Inl Incomplete"
  shows "packet_decode (buf @ x) = Some r"
proof -
  have n: "4 \<le> length buf"
    by (rule ccontr) (use assms in \<open>simp add: packet_decode_eq\<close>)
  then have hd: "(buf @ x) ! 0 = buf ! 0" "(buf @ x) ! 1 = buf ! 1" "\<not> length (buf @ x) < 4"
    by (auto simp: nth_append)
  show ?thesis
  proof (cases "buf ! 0 \<noteq> PROTO_VERSION \<or> frame_len buf < 4")
    case True
    then show ?thesis
      using assms(1) n unfolding packet_decode_eq [of buf] packet_decode_eq [of "buf @ x"]
      by (simp only: hd frame_len_append [OF n]) (simp split: if_splits)
  next
    case False
    then have "frame_len buf \<le> length buf"
      by (intro leI notI) (use assms n in \<open>simp add: packet_decode_eq\<close>)
    with False n have "packet_decode (buf @ x) = packet_decode buf"
      unfolding packet_decode_eq [of buf] packet_decode_eq [of "buf @ x"]
      by (simp only: hd frame_len_append [OF n]) (simp add: decode_attrs_append nth_append)
    with assms(1) show ?thesis by simp
  qed
qed

lemma next_packet_eq:
  "next_packet r =
     (case packet_decode (reader_buf r) of
        None \<Rightarrow> None
      | Some (Inr p) \<Rightarrow>
          Some (Inr (Some p), r\<lparr>reader_buf := drop (frame_len (reader_buf r)) (reader_buf r)\<rparr>)
      | Some (Inl e) \<Rightarrow> Some (if e = Incomplete then Inr None else Inl e, r))"
proof (cases "packet_decode (reader_buf r)")
  case (Some d)
  show ?thesis
  proof (cases d)
    case (Inl e)
    with Some show ?thesis by (cases e) (simp_all add: next_packet_def)
  next
    case (Inr p)
    with Some packet_decode_consumed [of "reader_buf r" p] show ?thesis
      by (simp add: next_packet_def Let_def frame_len_def [symmetric])
  qed
qed (simp add: next_packet_def)

section \<open>Polling the reader\<close>

text \<open>
  The consumer's loop over \<open>next_packet\<close>: packets until the reader has no whole packet left
  or fails. Each packet takes at least four bytes off the buffer, so the loop ends.
\<close>

lemma next_packet_shrinks:
  assumes "next_packet r = Some (Inr (Some p), r')"
  shows "length (reader_buf r') < length (reader_buf r)"
proof -
  obtain q where "packet_decode (reader_buf r) = Some (Inr q)"
    and "r' = r\<lparr>reader_buf := drop (frame_len (reader_buf r)) (reader_buf r)\<rparr>"
    using assms by (auto simp: next_packet_eq split: option.splits sum.splits if_splits)
  then show ?thesis
    using packet_decode_consumed [of "reader_buf r" q] by simp
qed

function reader_poll ::
    "packet_reader \<Rightarrow> (packet list \<times> decode_error option \<times> packet_reader) option" where
  "reader_poll r =
     (case next_packet r of
        None \<Rightarrow> None
      | Some (Inl e, r') \<Rightarrow> Some ([], Some e, r')
      | Some (Inr None, r') \<Rightarrow> Some ([], None, r')
      | Some (Inr (Some p), r') \<Rightarrow>
          (case reader_poll r' of
             None \<Rightarrow> None
           | Some (ps, e, r'') \<Rightarrow> Some (p # ps, e, r'')))"
  by pat_completeness auto
termination
  by (relation "measure (length \<circ> reader_buf)") (auto dest: next_packet_shrinks)

declare reader_poll.simps [simp del]

lemma runs_reader_poll [runs_intro]: "runs (reader_poll r)"
proof (induction r rule: reader_poll.induct)
  case (1 r)
  obtain d r' where n: "next_packet r = Some (d, r')"
    using runs_next_packet [of r] by (auto simp: runs_def)
  show ?case
  proof (cases d)
    case (Inr m)
    with n 1 show ?thesis
      by (cases m) (auto simp: reader_poll.simps [of r] runs_def split: option.splits)
  qed (simp add: n reader_poll.simps [of r])
qed

section \<open>Reading a stream in chunks\<close>

text \<open>
  \<open>feed\<close> is what a consumer of a socket does: push each chunk that arrives, poll, stop at an
  error. The contract \<open>stream_reader\<close> says what a reader must promise for the chunking to be
  invisible: a poll depends on the bytes pushed, not on when they were pushed.
\<close>

fun feed :: "('c \<Rightarrow> 'r \<Rightarrow> 'r) \<Rightarrow> ('r \<Rightarrow> ('m list \<times> 'e option \<times> 'r) option) \<Rightarrow> 'r \<Rightarrow> 'c list \<Rightarrow>
    ('m list \<times> 'e option \<times> 'r) option" where
  "feed push poll r [] = Some ([], None, r)"
| "feed push poll r (c # cs) =
     (case poll (push c r) of
        None \<Rightarrow> None
      | Some (ms, Some e, r') \<Rightarrow> Some (ms, Some e, r')
      | Some (ms, None, r') \<Rightarrow>
          (case feed push poll r' cs of
             None \<Rightarrow> None
           | Some (ms', e, r'') \<Rightarrow> Some (ms @ ms', e, r'')))"

definition verdict :: "('m list \<times> 'e option \<times> 'r) option \<Rightarrow> ('m list \<times> 'e option) option" where
  \<comment> \<open>the messages and the error of a poll, without the reader it leaves\<close>
  "verdict res = map_option (\<lambda>(ms, e, r). (ms, e)) res"

lemma verdict_simps [simp]: "verdict None = None" "verdict (Some (ms, e, r)) = Some (ms, e)"
  by (simp_all add: verdict_def)

definition prepend :: "'m list \<Rightarrow> ('m list \<times> 'x) option \<Rightarrow> ('m list \<times> 'x) option" where
  "prepend ms res = map_option (\<lambda>(ms', x). (ms @ ms', x)) res"

lemma prepend_simps [simp]:
  "prepend ms None = None"
  "prepend ms (Some (ms', x)) = Some (ms @ ms', x)"
  by (simp_all add: prepend_def)

lemma prepend_Nil [simp]: "prepend [] res = res"
  by (cases res) (simp_all add: prepend_def)

lemma prepend_prepend [simp]: "prepend ms (prepend ms' res) = prepend (ms @ ms') res"
  by (cases res) (simp_all add: prepend_def case_prod_beta)

lemma verdict_prepend [simp]: "verdict (prepend ms res) = prepend ms (verdict res)"
  by (cases res) (simp_all add: prepend_def verdict_def case_prod_beta)

locale stream_reader =
  fixes push :: "'b list \<Rightarrow> 'r \<Rightarrow> 'r"
    and poll :: "'r \<Rightarrow> ('m list \<times> 'e option \<times> 'r) option"
  assumes push_push: "push b (push a r) = push (a @ b) r"
    and push_Nil: "push [] r = r"
    and poll_quiet: "poll r = Some (ms, None, r') \<Longrightarrow> poll r' = Some ([], None, r')"
    and poll_push: "poll r = Some (ms, None, r') \<Longrightarrow>
      verdict (poll (push c r)) = prepend ms (verdict (poll (push c r')))"
    and poll_error: "poll r = Some (ms, Some e, r') \<Longrightarrow>
      verdict (poll (push c r)) = Some (ms, Some e)"
    and poll_runs: "runs (poll r)"
begin

lemma feed_concat:
  "poll r = Some ([], None, r) \<Longrightarrow> verdict (feed push poll r cs) = verdict (poll (push (concat cs) r))"
proof (induction cs arbitrary: r)
  case Nil
  then show ?case by (simp add: push_Nil)
next
  case (Cons c cs)
  obtain ms e r' where p: "poll (push c r) = Some (ms, e, r')"
    using poll_runs by (rule runsE) auto
  show ?case
  proof (cases e)
    case None
    with p have quiet: "poll r' = Some ([], None, r')"
      by (auto intro: poll_quiet)
    show ?thesis
      using Cons.IH [OF quiet, symmetric] p None poll_push [of "push c r" ms r' "concat cs"]
      by (cases "feed push poll r' cs") (auto simp: push_push)
  next
    case (Some x)
    then show ?thesis
      using p poll_error [of "push c r" ms x r' "concat cs"] by (simp add: push_push)
  qed
qed

end

section \<open>The packet reader meets the contract\<close>

lemma reader_poll_Nil: "packet_decode (reader_buf r) = Some (Inl Incomplete) \<Longrightarrow>
    reader_poll r = Some ([], None, r)"
  by (simp add: reader_poll.simps [of r] next_packet_eq)

lemma reader_poll_Err:
  "packet_decode (reader_buf r) = Some (Inl e) \<Longrightarrow> e \<noteq> Incomplete \<Longrightarrow>
   reader_poll r = Some ([], Some e, r)"
  by (simp add: reader_poll.simps [of r] next_packet_eq)

definition reader_drop :: "packet_reader \<Rightarrow> packet_reader" where
  "reader_drop r = r\<lparr>reader_buf := drop (frame_len (reader_buf r)) (reader_buf r)\<rparr>"

lemma reader_poll_Cons:
  "packet_decode (reader_buf r) = Some (Inr p) \<Longrightarrow>
   reader_poll r = prepend [p] (reader_poll (reader_drop r))"
  by (simp add: reader_poll.simps [of r] next_packet_eq reader_drop_def prepend_def map_option_case
      split: option.split)

lemma reader_poll_cases:
  assumes "reader_poll r = Some (ps, e, r')"
  obtains (Nil) "packet_decode (reader_buf r) = Some (Inl Incomplete)" "ps = []" "e = None" "r' = r"
  | (Err) x where "packet_decode (reader_buf r) = Some (Inl x)" "x \<noteq> Incomplete"
      "ps = []" "e = Some x" "r' = r"
  | (Cons) p qs where "packet_decode (reader_buf r) = Some (Inr p)" "ps = p # qs"
      "reader_poll (reader_drop r) = Some (qs, e, r')"
proof -
  obtain d where d: "packet_decode (reader_buf r) = Some d"
    using runs_packet_decode by (rule runsE)
  show thesis
  proof (cases d)
    case (Inl x)
    show thesis
    proof (cases "x = Incomplete")
      case True
      with assms d Inl show thesis by (intro that(1)) (auto simp: reader_poll_Nil)
    next
      case False
      with assms d Inl show thesis by (intro that(2)) (auto simp: reader_poll_Err)
    qed
  next
    case (Inr p)
    with assms d have "prepend [p] (reader_poll (reader_drop r)) = Some (ps, e, r')"
      by (simp add: reader_poll_Cons)
    then obtain qs where "reader_poll (reader_drop r) = Some (qs, e, r')" "ps = p # qs"
      by (auto simp: prepend_def)
    with d Inr show thesis by (intro that(3)) simp_all
  qed
qed

lemma reader_drop_push:
  assumes "packet_decode (reader_buf r) = Some (Inr p)"
  shows "reader_drop (reader_push c r) = reader_push c (reader_drop r)"
  using packet_decode_consumed [OF assms] by (simp add: reader_drop_def reader_push_def)

lemma packet_decode_push:
  "packet_decode (reader_buf r) = Some d \<Longrightarrow> d \<noteq> Inl Incomplete \<Longrightarrow>
   packet_decode (reader_buf (reader_push c r)) = Some d"
  by (simp add: reader_push_def packet_decode_append)

lemma reader_poll_push_Cons:
  assumes "packet_decode (reader_buf r) = Some (Inr p)"
  shows "verdict (reader_poll (reader_push c r)) =
    prepend [p] (verdict (reader_poll (reader_push c (reader_drop r))))"
  using packet_decode_push [OF assms, of c] reader_drop_push [OF assms, of c]
  by (simp add: reader_poll_Cons)

lemma reader_drop_shrinks:
  "packet_decode (reader_buf r) = Some (Inr p) \<Longrightarrow> length (reader_buf (reader_drop r)) < length (reader_buf r)"
  by (rule next_packet_shrinks) (simp add: next_packet_eq reader_drop_def)

interpretation reader: stream_reader reader_push reader_poll
proof
  show "reader_push b (reader_push a r) = reader_push (a @ b) r" for a b r
    by (simp add: reader_push_def)
  show "reader_push [] r = r" for r
    by (simp add: reader_push_def)
  show "reader_poll r' = Some ([], None, r')" if "reader_poll r = Some (ps, None, r')" for r ps r'
    using that
  proof (induction "length (reader_buf r)" arbitrary: r ps rule: less_induct)
    case less
    show ?case
      using less.prems
    proof (cases rule: reader_poll_cases)
      case (Cons p qs)
      then show ?thesis
        using less.hyps [OF reader_drop_shrinks] by blast
    qed (simp_all add: reader_poll_Nil)
  qed
  show "verdict (reader_poll (reader_push c r)) = prepend ps (verdict (reader_poll (reader_push c r')))"
    if "reader_poll r = Some (ps, None, r')" for r ps r' c
    using that
  proof (induction "length (reader_buf r)" arbitrary: r ps rule: less_induct)
    case less
    show ?case
      using less.prems
    proof (cases rule: reader_poll_cases)
      case (Cons p qs)
      then show ?thesis
        using less.hyps [OF reader_drop_shrinks, of p qs] reader_poll_push_Cons [of r p c]
        by simp
    qed simp_all
  qed
  show "verdict (reader_poll (reader_push c r)) = Some (ps, Some e)"
    if "reader_poll r = Some (ps, Some e, r')" for r ps e r' c
    using that
  proof (induction "length (reader_buf r)" arbitrary: r ps rule: less_induct)
    case less
    show ?case
      using less.prems
    proof (cases rule: reader_poll_cases)
      case (Err x)
      then show ?thesis
        using packet_decode_push [of r "Inl x" c] by (simp add: reader_poll_Err)
    next
      case (Cons p qs)
      then show ?thesis
        using less.hyps [OF reader_drop_shrinks, of p qs] reader_poll_push_Cons [of r p c] by simp
    qed simp
  qed
  show "runs (reader_poll r)" for r
    by (rule runs_reader_poll)
qed

lemma reader_poll_wires:
  assumes "list_all packet_ok ps" and "packet_decode tail = Some (Inl Incomplete)"
  shows "reader_poll \<lparr>reader_buf = concat (map encode_packet ps) @ tail\<rparr> =
    Some (ps, None, \<lparr>reader_buf = tail\<rparr>)"
  using assms(1)
proof (induction ps)
  case Nil
  then show ?case by (simp add: reader_poll_Nil assms(2))
next
  case (Cons p ps)
  let ?w = "encode_packet p" and ?rest = "concat (map encode_packet ps) @ tail"
  have "packet_decode (?w @ ?rest) = Some (Inr p)"
    using Cons.prems by (simp add: packet_decode_wire)
  moreover have "frame_len (?w @ ?rest) = length ?w"
  proof -
    obtain fl body where "?w = [PROTO_VERSION, fl] @ u16_to_be (as_u16 (4 + length body)) @ body"
      "4 + length body < 65536"
      using Cons.prems encode_packet_header [of p] by auto
    then show ?thesis by (simp add: frame_len_def u16_to_be_def)
  qed
  ultimately show ?case
    using Cons by (simp add: reader_poll_Cons reader_drop_def)
qed

section \<open>What the decoder returns is well-formed\<close>

lemma attr_type_ok_from [simp]: "attr_type_ok (attr_from_u8 v)"
proof -
  have "4 < v" if "v \<noteq> 0" "v \<noteq> 1" "v \<noteq> 2" "v \<noteq> 3" "v \<noteq> 4"
    using that by uint_arith
  then show ?thesis by (simp add: attr_from_u8_def)
qed

lemma msg_ok_from [simp]: "msg_ok (msg_from_u16 v)"
proof -
  have "9 < v" if "v \<noteq> 0" "v \<noteq> 1" "v \<noteq> 2" "v \<noteq> 3" "v \<noteq> 4" "v \<noteq> 5" "v \<noteq> 6" "v \<noteq> 7" "v \<noteq> 8" "v \<noteq> 9"
    using that by uint_arith
  then show ?thesis by (auto simp: msg_from_u16_def)
qed

lemma decode_attrs_ok:
  "decode_attrs buf len n pos acc = Some (Inr attrs) \<Longrightarrow> len \<le> length buf \<Longrightarrow> pos \<le> len \<Longrightarrow>
   \<exists>new. attrs = acc @ new \<and> length new = n \<and> list_all (attr_type_ok \<circ> attr_type) new \<and>
     pos + length (encode_attrs (map attr_pair new)) \<le> len"
proof (induction n arbitrary: pos acc)
  case (Suc n)
  let ?l = "unat (u16_from_be (buf ! (pos + 2)) (buf ! (pos + 3)))"
  let ?a = "\<lparr>attr_type = attr_from_u8 (buf ! (pos + 1)), attr_data = take (?l - 4) (drop (pos + 4) buf)\<rparr>"
  have g: "pos + 4 \<le> len" "4 \<le> ?l" "pos + ?l \<le> len"
    and d: "decode_attrs buf len n (pos + ?l) (acc @ [?a]) = Some (Inr attrs)"
    using Suc.prems by (auto simp: header_lens Let_def split: if_splits)
  obtain new where "attrs = (acc @ [?a]) @ new" "length new = n"
    "list_all (attr_type_ok \<circ> attr_type) new"
    "pos + ?l + length (encode_attrs (map attr_pair new)) \<le> len"
    using Suc.IH [OF d Suc.prems(2) g(3)] by blast
  then show ?case
    using Suc.prems(2) g by (intro exI [of _ "?a # new"]) (simp add: comp_def)
qed simp

lemma packet_decode_ok:
  assumes "packet_decode buf = Some (Inr p)"
  shows "packet_ok p"
proof -
  have len: "frame_len buf < 65536"
    by (simp add: frame_len_def unat_u16_less)
  note dec = packet_decode_consumed [OF assms] assms [unfolded packet_decode_eq]
  show ?thesis
  proof (cases "buf ! 1 AND FLAG_CTRL = 0")
    case True
    then show ?thesis
      using dec len by (auto split: if_splits)
  next
    case False
    then obtain attrs where "8 \<le> frame_len buf"
      and p: "p = Ctrl (msg_from_u16 (u16_from_be (buf ! 4) (buf ! 5))) attrs"
      and d: "decode_attrs buf (frame_len buf) (unat (u16_from_be (buf ! 6) (buf ! 7))) 8 [] =
        Some (Inr attrs)"
      using dec by (auto simp: map_sum_eq_Inr split: if_splits)
    with decode_attrs_ok [OF d] dec(3) len show ?thesis by auto
  qed
qed

section \<open>Properties\<close>

text \<open>
  No input makes the packet layer panic: whatever the bytes, \<open>decode\<close> returns a packet or an
  error, \<open>next_packet\<close> and the poll loop return, and \<open>describe_status\<close> returns.
\<close>

theorem packet_layer_never_panics:
  "packet_decode buf \<noteq> None \<and> next_packet r \<noteq> None \<and> reader_poll r \<noteq> None \<and> describe_status attrs \<noteq> None"
proof -
  have "runs (describe_status attrs)"
    unfolding describe_status_def by (intro runs_intro) (auto simp: subslice_def split: if_splits)
  then show ?thesis
    using runs_packet_decode [of buf] runs_next_packet [of r] runs_reader_poll [of r]
    by (simp add: runs_def)
qed

text \<open>
  C22. Encoding then decoding is the identity on every packet that fits the 16-bit length fields,
  whatever bytes follow it in the buffer.
\<close>

theorem packet_roundtrip:
  assumes "packet_ok p"
  shows "packet_decode (encode_packet p @ rest) = Some (Inr p)"
  using assms by (rule packet_decode_wire)

definition sample_ctrl :: packet where
  "sample_ctrl = Ctrl ConnectRequest [\<lparr>attr_type = EncapProtocol, attr_data = [0, 1]\<rparr>]"

lemma sample_ctrl_ok: "packet_ok sample_ctrl"
  by (simp add: sample_ctrl_def attr_pair_def)

theorem packet_roundtrip_witness:
  "packet_ok sample_ctrl \<and> packet_decode (encode_packet sample_ctrl @ [7]) = Some (Inr sample_ctrl)"
  using sample_ctrl_ok packet_roundtrip [OF sample_ctrl_ok, of "[7]"] by simp

text \<open>
  A packet cut short anywhere decodes to \<open>Incomplete\<close>: never to a packet, never to a hard
  error.
\<close>

theorem packet_truncated_is_incomplete:
  assumes "packet_ok p" and "strict_prefix bs (encode_packet p)"
  shows "packet_decode bs = Some (Inl Incomplete)"
  using assms by (rule packet_decode_short)

theorem packet_truncated_is_incomplete_witness:
  "packet_decode [0x10, 1, 0, 14, 0] = Some (Inl Incomplete)"
proof -
  have "strict_prefix [0x10, 1, 0, 14, 0] (encode_packet sample_ctrl)"
    by (simp add: sample_ctrl_def attr_pair_def encode_ctrl_def header_lens PROTO_VERSION_def
        FLAG_CTRL_def as_u16_def u16_to_be_def strict_prefix_def)
  then show ?thesis
    by (rule packet_truncated_is_incomplete [OF sample_ctrl_ok])
qed

text \<open>
  Every packet the decoder returns is well-formed: its type codes are canonical and its
  encoding fits the length fields, so encoding it again and decoding returns the same packet.
\<close>

theorem decoded_packet_is_wellformed:
  assumes "packet_decode buf = Some (Inr p)"
  shows "packet_ok p \<and> packet_decode (encode_packet p) = Some (Inr p)"
  using packet_decode_ok [OF assms] packet_decode_wire [of p "[]"] by simp

theorem decoded_packet_is_wellformed_witness:
  "packet_ok (Data [9, 9]) \<and> packet_decode (encode_packet (Data [9, 9])) = Some (Inr (Data [9, 9]))"
proof -
  have "packet_decode [0x10, 0, 0, 6, 9, 9, 1] = Some (Inr (Data [9, 9]))"
    by code_simp
  then show ?thesis by (rule decoded_packet_is_wellformed)
qed

text \<open>
  C23. The chunking of the stream is invisible: reading any bytes in any chunks gives the same
  packets, and the same error if there is one, as reading them all at once.
\<close>

theorem reader_ignores_chunking:
  "verdict (feed reader_push reader_poll reader_new chunks) =
   verdict (reader_poll (reader_push (concat chunks) reader_new))"
  by (rule reader.feed_concat)
    (simp add: reader_poll_Nil reader_new_def packet_decode_def header_lens)

text \<open>
  A stream of encoded packets, followed by a truncated one or nothing, comes out of the reader
  as exactly those packets, in order and without error, however it is cut into chunks.
\<close>

theorem reader_reassembles:
  assumes "list_all packet_ok ps" and "packet_ok q" and "strict_prefix tail (encode_packet q)"
    and "concat chunks = concat (map encode_packet ps) @ tail"
  shows "verdict (feed reader_push reader_poll reader_new chunks) = Some (ps, None)"
proof -
  have "packet_decode tail = Some (Inl Incomplete)"
    using assms(2,3) by (rule packet_decode_short)
  then show ?thesis
    using assms(4) reader_poll_wires [OF assms(1), of tail]
      reader.feed_concat [of reader_new chunks]
    by (simp add: reader_poll_Nil reader_new_def reader_push_def packet_decode_def header_lens)
qed

theorem reader_reassembles_witness:
  "verdict (feed reader_push reader_poll reader_new [[0x10, 0], [0, 5, 9, 0x10], [0, 0, 4, 0x10]]) =
   Some ([Data [9], Data []], None)"
proof (rule reader_reassembles [where q = "Data []" and tail = "[0x10]"])
  show "list_all packet_ok [Data [9], Data []]" and "packet_ok (Data [])"
    by simp_all
  show "strict_prefix [0x10] (encode_packet (Data []))"
    and "concat [[0x10, 0], [0, 5, 9, 0x10], [0, 0, 4, 0x10]] =
      concat (map encode_packet [Data [9], Data []]) @ [0x10]"
    by (simp_all add: encode_data_def header_lens PROTO_VERSION_def as_u16_def u16_to_be_def
        strict_prefix_def)
qed

end
