(* ===== verification/Ppp.thy ===== *)
theory Ppp
  imports Packet
begin

text \<open>
  The outermost PPP frame (\<open>sstp-proto/src/ppp.rs\<close>): an optional Address/Control prefix, a
  protocol number and the protocol's payload.
\<close>

definition ADDRESS_CONTROL :: bytes where "ADDRESS_CONTROL = [0xFF, 0x03]"

definition strip_address_control :: "bytes \<Rightarrow> bytes" where
  "strip_address_control frame =
     (if take 2 frame = ADDRESS_CONTROL then drop 2 frame else frame)"

datatype protocol = ProtoIp | ProtoLcp | ProtoPap | ProtoChap | ProtoIpcp | UnknownProto u16

fun proto_to_u16 :: "protocol \<Rightarrow> u16" where
  "proto_to_u16 ProtoIp = 0x0021"
| "proto_to_u16 ProtoLcp = 0xC021"
| "proto_to_u16 ProtoPap = 0xC023"
| "proto_to_u16 ProtoChap = 0xC223"
| "proto_to_u16 ProtoIpcp = 0x8021"
| "proto_to_u16 (UnknownProto v) = v"

definition proto_from_u16 :: "u16 \<Rightarrow> protocol" where
  "proto_from_u16 v =
     (if v = 0x0021 then ProtoIp
      else if v = 0xC021 then ProtoLcp
      else if v = 0xC023 then ProtoPap
      else if v = 0xC223 then ProtoChap
      else if v = 0x8021 then ProtoIpcp
      else UnknownProto v)"

definition ppp_encode :: "protocol \<Rightarrow> bytes \<Rightarrow> bytes" where
  "ppp_encode proto payload = ADDRESS_CONTROL @ u16_to_be (proto_to_u16 proto) @ payload"

definition ppp_decode :: "bytes \<Rightarrow> (protocol \<times> bytes) option option" where
  "ppp_decode frame0 =
     (let frame = strip_address_control frame0
      in if length frame < 2 then Some None
         else do {
           p0 \<leftarrow> idx frame 0;
           p1 \<leftarrow> idx frame 1;
           payload \<leftarrow> subslice frame 2 (length frame);
           Some (Some (proto_from_u16 (u16_from_be p0 p1), payload))
         })"

section \<open>Facts\<close>

fun proto_ok :: "protocol \<Rightarrow> bool" where
  "proto_ok (UnknownProto v) = (v \<notin> {0x0021, 0xC021, 0xC023, 0xC223, 0x8021})"
| "proto_ok p = True"

interpretation proto_code: wire_code proto_to_u16 proto_from_u16 proto_ok
proof
  show "proto_from_u16 (proto_to_u16 p) = p" if "proto_ok p" for p
    using that by (cases p) (auto simp: proto_from_u16_def)
qed (auto simp: proto_from_u16_def)

lemma runs_ppp_decode [runs_intro]: "runs (ppp_decode frame)"
  unfolding ppp_decode_def by (intro runs_intro) auto

lemma strip_ppp_encode [simp]:
  "strip_address_control (ppp_encode p payload) = u16_to_be (proto_to_u16 p) @ payload"
  by (simp add: strip_address_control_def ppp_encode_def ADDRESS_CONTROL_def)

lemma length_ppp_encode [simp, wire]: "length (ppp_encode p payload) = 4 + length payload"
  by (simp add: ppp_encode_def ADDRESS_CONTROL_def)

lemma ppp_decode_encode: "proto_ok p \<Longrightarrow> ppp_decode (ppp_encode p payload) = Some (Some (p, payload))"
  by (simp add: ppp_decode_def Let_def u16_to_be_def proto_code.from_to)

lemma ppp_decode_bare:
  "proto_ok p \<Longrightarrow> proto_to_u16 p \<noteq> 0xFF03 \<Longrightarrow>
   ppp_decode (u16_to_be (proto_to_u16 p) @ payload) = Some (Some (p, payload))"
proof -
  assume p: "proto_ok p" and n: "proto_to_u16 p \<noteq> 0xFF03"
  have "u16_to_be 0xFF03 = ADDRESS_CONTROL"
    by code_simp
  then have "u16_to_be (proto_to_u16 p) \<noteq> ADDRESS_CONTROL"
    using n by (metis u16_to_be_eq_iff)
  then have "strip_address_control (u16_to_be (proto_to_u16 p) @ payload) =
      u16_to_be (proto_to_u16 p) @ payload"
    by (simp add: strip_address_control_def)
  with p show ?thesis
    by (simp add: ppp_decode_def Let_def u16_to_be_def proto_code.from_to)
qed

lemma ppp_decode_length:
  "ppp_decode frame = Some (Some (p, payload)) \<Longrightarrow> proto_ok p \<and> length payload + 2 \<le> length frame"
  by (auto simp: ppp_decode_def Let_def strip_address_control_def proto_code.ok_from bind_eq_Some_conv
      subslice_def split: if_splits)

section \<open>Properties\<close>

text \<open>
  A frame this client sends decodes to its protocol and payload, and so does the frame of a
  peer that leaves the Address/Control prefix out; decoding never panics.
\<close>

theorem ppp_roundtrip:
  assumes "proto_ok p"
  shows "ppp_decode (ppp_encode p payload) = Some (Some (p, payload)) \<and>
    (proto_to_u16 p \<noteq> 0xFF03 \<longrightarrow>
      ppp_decode (u16_to_be (proto_to_u16 p) @ payload) = Some (Some (p, payload))) \<and>
    ppp_decode frame \<noteq> None"
  using assms runs_ppp_decode [of frame] ppp_decode_bare
  by (simp add: ppp_decode_encode runs_def)

theorem ppp_roundtrip_witness:
  "ppp_decode (ppp_encode ProtoLcp [1, 2, 3]) = Some (Some (ProtoLcp, [1, 2, 3])) \<and>
   ppp_decode [0xC0, 0x21, 1, 2, 3] = Some (Some (ProtoLcp, [1, 2, 3]))"
proof -
  have "proto_ok ProtoLcp" by simp
  note r = ppp_roundtrip [OF this, of "[1, 2, 3]" "[]"]
  moreover have "u16_to_be (proto_to_u16 ProtoLcp) @ [1, 2, 3] = [0xC0, 0x21, 1, 2, 3]"
    "proto_to_u16 ProtoLcp \<noteq> 0xFF03"
    by code_simp+
  ultimately show ?thesis by metis
qed

end
