(* ===== verification/Cp.thy ===== *)
theory Cp
  imports Ppp
begin

text \<open>
  The framing that LCP and IPCP share (\<open>sstp-proto/src/cp.rs\<close>): a frame of a code, an
  identifier, a 16-bit length and data, and the type-length-value options of the
  Configure frames. \<open>options_of\<close> is the reference parser of options that the indexed loop of
  the code is shown to compute.
\<close>

section \<open>Frames\<close>

datatype code =
    ConfigureRequest | ConfigureAck | ConfigureNak | ConfigureReject
  | TerminateRequest | TerminateAck | CodeReject | ProtocolReject
  | EchoRequest | EchoReply | DiscardRequest | UnknownCode u8

fun code_to_u8 :: "code \<Rightarrow> u8" where
  "code_to_u8 ConfigureRequest = 1"
| "code_to_u8 ConfigureAck = 2"
| "code_to_u8 ConfigureNak = 3"
| "code_to_u8 ConfigureReject = 4"
| "code_to_u8 TerminateRequest = 5"
| "code_to_u8 TerminateAck = 6"
| "code_to_u8 CodeReject = 7"
| "code_to_u8 ProtocolReject = 8"
| "code_to_u8 EchoRequest = 9"
| "code_to_u8 EchoReply = 10"
| "code_to_u8 DiscardRequest = 11"
| "code_to_u8 (UnknownCode v) = v"

definition code_from_u8 :: "u8 \<Rightarrow> code" where
  "code_from_u8 v =
     (if v = 1 then ConfigureRequest
      else if v = 2 then ConfigureAck
      else if v = 3 then ConfigureNak
      else if v = 4 then ConfigureReject
      else if v = 5 then TerminateRequest
      else if v = 6 then TerminateAck
      else if v = 7 then CodeReject
      else if v = 8 then ProtocolReject
      else if v = 9 then EchoRequest
      else if v = 10 then EchoReply
      else if v = 11 then DiscardRequest
      else UnknownCode v)"

record cp_frame =
  f_code :: code
  f_id :: u8
  f_data :: bytes

definition cp_encode :: "code \<Rightarrow> u8 \<Rightarrow> bytes \<Rightarrow> bytes" where
  "cp_encode code ident data =
     (let len = 4 + length data
      in [code_to_u8 code, ident] @ u16_to_be (as_u16 len) @ data)"

definition cp_decode :: "bytes \<Rightarrow> cp_frame option option" where
  "cp_decode buf =
     (if length buf < 4 then Some None
      else do {
        b0 \<leftarrow> idx buf 0;
        let code = code_from_u8 b0;
        ident \<leftarrow> idx buf 1;
        b2 \<leftarrow> idx buf 2;
        b3 \<leftarrow> idx buf 3;
        let len = unat (u16_from_be b2 b3);
        if len < 4 \<or> len > length buf then Some None
        else do {
          data \<leftarrow> subslice buf 4 len;
          Some (Some \<lparr>f_code = code, f_id = ident, f_data = data\<rparr>)
        }
      })"

section \<open>Options\<close>

record opt =
  o_kind :: u8
  o_data :: bytes

definition Opt :: "u8 \<Rightarrow> bytes \<Rightarrow> opt" where
  "Opt kind data = \<lparr>o_kind = kind, o_data = data\<rparr>"

primrec encode_options :: "opt list \<Rightarrow> bytes" where
  "encode_options [] = []"
| "encode_options (p # ps) =
     o_kind p # as_u8 (2 + length (o_data p)) # o_data p @ encode_options ps"

function decode_options_from :: "bytes \<Rightarrow> nat \<Rightarrow> opt list \<Rightarrow> opt list option" where
  "decode_options_from buf pos opts =
     (if pos + 2 \<le> length buf then do {
        kind \<leftarrow> idx buf pos;
        l \<leftarrow> idx buf (pos + 1);
        let len = unat l;
        if len < 2 \<or> pos + len > length buf then Some opts
        else do {
          data \<leftarrow> subslice buf (pos + 2) (pos + len);
          decode_options_from buf (pos + len) (opts @ [\<lparr>o_kind = kind, o_data = data\<rparr>])
        }
      } else Some opts)"
  by pat_completeness auto
termination
  by (relation "measure (\<lambda>(buf, pos, opts). length buf - pos)") auto

declare decode_options_from.simps [simp del]

definition decode_options :: "bytes \<Rightarrow> opt list option" where
  "decode_options buf = decode_options_from buf 0 []"

fun options_of :: "bytes \<Rightarrow> opt list" where
  "options_of (kind # l # rest) =
     (if unat l < 2 \<or> unat l - 2 > length rest then []
      else Opt kind (take (unat l - 2) rest) # options_of (drop (unat l - 2) rest))"
| "options_of _ = []"

section \<open>Facts\<close>

fun code_ok :: "code \<Rightarrow> bool" where
  "code_ok (UnknownCode v) = (v = 0 \<or> 11 < v)"
| "code_ok c = True"

interpretation code_code: wire_code code_to_u8 code_from_u8 code_ok
proof
  have "v = 0 \<or> 11 < v \<or> v \<in> {1, 2, 3, 4, 5, 6, 7, 8, 9, 10, 11}" for v :: u8
    by uint_arith
  then show "code_ok (code_from_u8 v)" for v
    by (auto simp: code_from_u8_def)
  show "code_from_u8 (code_to_u8 c) = c" if "code_ok c" for c
    using that by (cases c) (auto simp: code_from_u8_def)
  show "code_to_u8 (code_from_u8 v) = v" for v
    by (simp add: code_from_u8_def)
qed

lemma runs_cp_decode [runs_intro]: "runs (cp_decode buf)"
  unfolding cp_decode_def by (intro runs_intro) auto

lemma length_cp_encode [simp, wire]: "length (cp_encode c i d) = 4 + length d"
  by (simp add: cp_encode_def Let_def)

lemma cp_decode_eq:
  "cp_decode buf = Some
     (if length buf < 4 then None
      else let len = unat (u16_from_be (buf ! 2) (buf ! 3))
           in if len < 4 \<or> len > length buf then None
              else Some \<lparr>f_code = code_from_u8 (buf ! 0), f_id = buf ! 1,
                         f_data = take (len - 4) (drop 4 buf)\<rparr>)"
proof (cases "length buf < 4")
  case False
  then have "0 < length buf" "1 < length buf" by linarith+
  with False show ?thesis by (simp add: cp_decode_def Let_def)
qed (simp add: cp_decode_def)

lemma cp_decode_encode:
  "code_ok c \<Longrightarrow> length d \<le> 65531 \<Longrightarrow>
   cp_decode (cp_encode c i d @ rest) = Some (Some \<lparr>f_code = c, f_id = i, f_data = d\<rparr>)"
  by (simp add: cp_decode_eq cp_encode_def Let_def u16_to_be_def code_code.from_to)

lemma cp_decode_encode_nil [simp]:
  "code_ok c \<Longrightarrow> length d \<le> 65531 \<Longrightarrow>
   cp_decode (cp_encode c i d) = Some (Some \<lparr>f_code = c, f_id = i, f_data = d\<rparr>)"
  using cp_decode_encode [of c d i "[]"] by simp

lemma cp_decode_data_length: "cp_decode buf = Some (Some f) \<Longrightarrow> 4 + length (f_data f) \<le> length buf"
  by (auto simp: cp_decode_eq Let_def split: if_splits)

lemma cp_decode_code_ok: "cp_decode buf = Some (Some f) \<Longrightarrow> code_ok (f_code f)"
  by (auto simp: cp_decode_eq Let_def code_code.ok_from split: if_splits)

definition cp_dec :: "bytes \<Rightarrow> (code \<times> u8 \<times> bytes) option" where
  "cp_dec buf =
     (case cp_decode buf of Some (Some f) \<Rightarrow> Some (f_code f, f_id f, f_data f) | _ \<Rightarrow> None)"

interpretation cp_frames: frame_codec code_to_u8 code_from_u8 code_ok cp_encode cp_dec
  by unfold_locales (simp add: cp_dec_def cp_decode_encode)

subsection \<open>Options\<close>

definition opt_ok :: "opt \<Rightarrow> bool" where
  "opt_ok p \<longleftrightarrow> length (o_data p) \<le> 253"

abbreviation opts_ok :: "opt list \<Rightarrow> bool" where
  "opts_ok ps \<equiv> list_all opt_ok ps"

lemma Opt_simps [simp]: "o_kind (Opt k d) = k" "o_data (Opt k d) = d" "Opt (o_kind p) (o_data p) = p"
  by (simp_all add: Opt_def)

lemma encode_options_append [simp]: "encode_options (ps @ qs) = encode_options ps @ encode_options qs"
  by (induction ps) simp_all

lemma length_encode_options [wire]: "opts_ok ps \<Longrightarrow> length (encode_options ps) \<le> 255 * length ps"
  by (induction ps) (auto simp: opt_ok_def)

lemma encode_options_eq_Nil [simp]: "encode_options ps = [] \<longleftrightarrow> ps = []"
  by (cases ps) auto

lemma length_encode_options_filter: "length (encode_options (filter P ps)) \<le> length (encode_options ps)"
  by (induction ps) auto

text \<open>The loop of the code computes the reference parser, whatever the buffer.\<close>

lemma decode_options_from_eq:
  "pos \<le> length buf \<Longrightarrow> decode_options_from buf pos opts = Some (opts @ options_of (drop pos buf))"
proof (induction "length buf - pos" arbitrary: pos opts rule: less_induct)
  case less
  show ?case
  proof (cases "pos + 2 \<le> length buf")
    case False
    then have "length (drop pos buf) \<le> 1" by simp
    then have "options_of (drop pos buf) = []"
      by (cases "drop pos buf" rule: options_of.cases) auto
    with False show ?thesis by (simp add: decode_options_from.simps)
  next
    case True
    define l where "l = unat (buf ! Suc pos)"
    have d: "drop pos buf = buf ! pos # buf ! Suc pos # drop (pos + 2) buf"
      using True by (simp add: Cons_nth_drop_Suc)
    show ?thesis
    proof (cases "l < 2 \<or> pos + l > length buf")
      case stop: True
      then have "options_of (drop pos buf) = []"
        unfolding d using True by (auto simp: l_def)
      with stop True show ?thesis
        by (subst decode_options_from.simps) (simp add: l_def Let_def)
    next
      case False
      have o: "options_of (drop pos buf) =
          Opt (buf ! pos) (take (l - 2) (drop (pos + 2) buf)) # options_of (drop (pos + l) buf)"
      proof -
        have "drop (l - 2) (drop (pos + 2) buf) = drop (pos + l) buf"
        proof -
          have "l - 2 + (pos + 2) = pos + l" using False by linarith
          then show ?thesis by (simp only: drop_drop)
        qed
        moreover have "\<not> l - 2 > length (drop (pos + 2) buf)"
          using False True unfolding length_drop by linarith
        ultimately show ?thesis
          unfolding d using False by (simp add: l_def del: drop_drop)
      qed
      have "decode_options_from buf pos opts =
          decode_options_from buf (pos + l) (opts @ [Opt (buf ! pos) (take (l - 2) (drop (pos + 2) buf))])"
        using True False by (subst decode_options_from.simps) (simp add: l_def Let_def Opt_def)
      also have "\<dots> = Some ((opts @ [Opt (buf ! pos) (take (l - 2) (drop (pos + 2) buf))]) @
          options_of (drop (pos + l) buf))"
        using True False by (intro less.hyps) auto
      finally show ?thesis by (simp add: o)
    qed
  qed
qed

lemma decode_options_eq [simp]: "decode_options buf = Some (options_of buf)"
  by (simp add: decode_options_def decode_options_from_eq)

lemma runs_decode_options [runs_intro]: "runs (decode_options buf)"
  by simp

lemma options_of_ok [simp]: "opts_ok (options_of buf)"
proof (induction buf rule: options_of.induct)
  case (1 kind l rest)
  have "unat l < 256" by (rule unat_u8_less)
  with 1 show ?case by (auto simp: opt_ok_def)
qed simp_all

lemma options_of_encode [simp]:
  "opts_ok ps \<Longrightarrow> options_of (encode_options ps @ tail) = ps @ options_of tail"
  by (induction ps) (auto simp: opt_ok_def)

lemma options_of_split:
  obtains tail where "buf = encode_options (options_of buf) @ tail" "options_of tail = []"
proof -
  have "\<exists>tail. buf = encode_options (options_of buf) @ tail \<and> options_of tail = []"
  proof (induction buf rule: options_of.induct)
    case (1 kind l rest)
    show ?case
    proof (cases "unat l < 2 \<or> unat l - 2 > length rest")
      case False
      then obtain tail where t: "drop (unat l - 2) rest =
          encode_options (options_of (drop (unat l - 2) rest)) @ tail" "options_of tail = []"
        using 1 by auto
      have "2 + (unat l - 2) = unat l"
        using False by linarith
      then have "as_u8 (2 + (unat l - 2)) = l"
        by (simp only: as_u8_def of_nat_unat ucast_id)
      moreover have "length (take (unat l - 2) rest) = unat l - 2"
        using False by simp
      moreover have "rest = take (unat l - 2) rest @
          encode_options (options_of (drop (unat l - 2) rest)) @ tail"
        using t(1) by (metis append_take_drop_id)
      ultimately show ?thesis
        using False t(2) by (intro exI [of _ tail]) (simp del: length_take add_2_eq_Suc)
    qed auto
  qed auto
  with that show thesis by blast
qed

lemma options_of_length: "length (encode_options (options_of buf)) \<le> length buf"
  by (metis options_of_split length_append le_add1)

lemma no_option_starts:
  "options_of tail = [] \<Longrightarrow> opt_ok p \<Longrightarrow> tail \<noteq> encode_options [p] @ rest"
  by (metis options_of_encode list.pred_inject(1,2) append_Cons list.distinct(1))

section \<open>Properties\<close>

text \<open>
  A frame of at most 65531 data bytes decodes to itself, with anything behind it, and two
  frames are encoded alike only when they are the same; decoding never panics.
\<close>

theorem cp_frame_roundtrip:
  assumes "code_ok c" "length d \<le> 65531"
  shows "cp_decode (cp_encode c i d @ rest) = Some (Some \<lparr>f_code = c, f_id = i, f_data = d\<rparr>) \<and>
    (code_ok c' \<and> length d' \<le> 65531 \<and> cp_encode c i d = cp_encode c' i' d' \<longrightarrow>
      c = c' \<and> i = i' \<and> d = d') \<and>
    cp_decode buf \<noteq> None"
  using assms cp_frames.enc_inj [of c c' d d' i i'] runs_cp_decode [of buf]
  by (auto simp: cp_decode_encode runs_def)

theorem cp_frame_roundtrip_witness:
  "cp_decode (cp_encode ConfigureRequest 7 [0xAA, 0xBB] @ [1]) =
    Some (Some \<lparr>f_code = ConfigureRequest, f_id = 7, f_data = [0xAA, 0xBB]\<rparr>)"
  using cp_frame_roundtrip [of ConfigureRequest "[0xAA, 0xBB]" 7 "[1]"] by simp

text \<open>
  The options decoded from any buffer are its longest well-formed prefix: they encode back
  to a prefix of the buffer, and no option starts at what is left. The loop never reads out
  of bounds.
\<close>

theorem options_decode_longest_prefix:
  "\<exists>ps tail. decode_options buf = Some ps \<and> opts_ok ps \<and> buf = encode_options ps @ tail \<and>
     \<not> (\<exists>p rest. opt_ok p \<and> tail = encode_options [p] @ rest)"
  by (rule options_of_split [of buf]) (metis decode_options_eq options_of_ok no_option_starts)

text \<open>
  Options of at most 253 data bytes each are read back as they were written, followed by
  the options of whatever comes after them.
\<close>

theorem options_roundtrip:
  assumes "opts_ok ps"
  shows "decode_options (encode_options ps @ tail) = Some (ps @ options_of tail)"
  using assms by simp

theorem options_roundtrip_witness:
  "decode_options (encode_options [Opt 5 [1, 2, 3, 4], Opt 7 []] @ [0x99]) =
    Some [Opt 5 [1, 2, 3, 4], Opt 7 []]"
proof -
  have "opts_ok [Opt 5 [1, 2, 3, 4], Opt 7 []]" by (simp add: opt_ok_def)
  from options_roundtrip [OF this, of "[0x99]"] show ?thesis by simp
qed

end
