(* ===== verification/Negotiation.thy ===== *)
theory Negotiation
  imports Cp
begin

text \<open>
  What LCP and IPCP promise as negotiators of RFC 1661's Configure exchange, free of their
  option types. \<open>neg\<close> is the abstract state of a negotiation: the identifier of the
  Configure-Request in flight and whether each direction is configured; \<open>neg_step\<close> is its
  transition on a received frame and \<open>reply_ok\<close> the shape of the answer. The locale
  \<open>negotiator\<close> says that a receiver refines this machine; \<open>Lcp\<close> and \<open>Ipcp\<close> interpret it
  on the code's two receivers, and what follows from the contract is proved here once.
\<close>

section \<open>Editing the list of desired options\<close>

primrec update_kind :: "opt list \<Rightarrow> opt \<Rightarrow> opt list" where
  \<comment> \<open>\<open>if let Some(existing) = desired.iter_mut().find(|o| o.kind == s.kind)
      { existing.data = s.data.clone() }\<close>\<close>
  "update_kind [] s = []"
| "update_kind (p # ps) s =
     (if o_kind p = o_kind s then p\<lparr>o_data := o_data s\<rparr> # ps else p # update_kind ps s)"

definition retain_kinds :: "opt list \<Rightarrow> opt list \<Rightarrow> opt list" where
  \<comment> \<open>\<open>desired.retain(|o| !rejected.iter().any(|r| r.kind == o.kind))\<close>\<close>
  "retain_kinds desired rejected =
     filter (\<lambda>p. \<not> list_ex (\<lambda>r. o_kind r = o_kind p) rejected) desired"

lemma update_kind_kinds [simp]: "map o_kind (update_kind ps s) = map o_kind ps"
  by (induction ps) auto

lemma update_kind_length [simp]: "length (update_kind ps s) = length ps"
  by (induction ps) auto

lemma update_kind_ok: "opts_ok ps \<Longrightarrow> opt_ok s \<Longrightarrow> opts_ok (update_kind ps s)"
  by (induction ps) (auto simp: opt_ok_def)

lemma foldl_update_kind [simp]:
  "map o_kind (foldl update_kind ps ss) = map o_kind ps"
  "length (foldl update_kind ps ss) = length ps"
  by (induction ss arbitrary: ps) auto

lemma foldl_update_kind_ok: "opts_ok ps \<Longrightarrow> opts_ok ss \<Longrightarrow> opts_ok (foldl update_kind ps ss)"
  by (induction ss arbitrary: ps) (auto simp: update_kind_ok)

lemma retain_kinds_ok: "opts_ok ps \<Longrightarrow> opts_ok (retain_kinds ps rs)"
  by (auto simp: retain_kinds_def list_all_iff)

lemma retain_kinds_length: "length (retain_kinds ps rs) \<le> length ps"
  by (simp add: retain_kinds_def)

lemma retain_kinds_kinds:
  "o_kind ` set (retain_kinds ps rs) = o_kind ` set ps - o_kind ` set rs"
  by (induction ps) (auto simp: retain_kinds_def list_ex_iff, metis imageI)

text \<open>
  With one option of each kind, the options after a Configure-Nak are the old ones with the
  last value suggested for their kind.
\<close>

definition adopt :: "opt list \<Rightarrow> opt \<Rightarrow> opt" where
  "adopt ss p =
     (case find (\<lambda>s. o_kind s = o_kind p) (rev ss) of Some s \<Rightarrow> p\<lparr>o_data := o_data s\<rparr> | None \<Rightarrow> p)"

lemma update_kind_distinct:
  "distinct (map o_kind ps) \<Longrightarrow>
   update_kind ps s = map (\<lambda>p. if o_kind p = o_kind s then p\<lparr>o_data := o_data s\<rparr> else p) ps"
  by (induction ps) (auto simp: image_iff intro!: map_idI [symmetric])

lemma o_kind_adopt [simp]: "o_kind (adopt ss p) = o_kind p"
  by (simp add: adopt_def split: option.split)

lemma adopt_snoc:
  "adopt (ss @ [s]) p = (if o_kind p = o_kind s then p\<lparr>o_data := o_data s\<rparr> else adopt ss p)"
  by (simp add: adopt_def)

lemma foldl_update_kind_adopt:
  "distinct (map o_kind ps) \<Longrightarrow> foldl update_kind ps ss = map (adopt ss) ps"
proof (induction ss rule: rev_induct)
  case Nil
  then show ?case by (simp add: adopt_def map_idI)
next
  case (snoc s ss)
  have "map o_kind (map (adopt ss) ps) = map o_kind ps"
    by simp
  with snoc have "update_kind (map (adopt ss) ps) s =
      map (\<lambda>p. if o_kind p = o_kind s then p\<lparr>o_data := o_data s\<rparr> else p) (map (adopt ss) ps)"
    by (intro update_kind_distinct) (simp only:)
  moreover have "(if o_kind (adopt ss p) = o_kind s then (adopt ss p)\<lparr>o_data := o_data s\<rparr> else adopt ss p) =
      adopt (ss @ [s]) p" for p
    by (simp add: adopt_def split: option.split)
  ultimately show ?case using snoc by (simp add: comp_def)
qed

section \<open>The contract\<close>

record neg =
  n_last :: "u8 option"
  n_local :: bool
  n_remote :: bool

definition n_up :: "neg \<Rightarrow> bool" where
  "n_up n \<longleftrightarrow> n_local n \<and> n_remote n"

definition neg_step :: "bool \<Rightarrow> u8 \<Rightarrow> cp_frame \<Rightarrow> neg \<Rightarrow> neg" where
  "neg_step acceptable fresh f n =
     (case f_code f of
        ConfigureRequest \<Rightarrow> n\<lparr>n_remote := acceptable\<rparr>
      | ConfigureAck \<Rightarrow> if n_last n = Some (f_id f) then n\<lparr>n_local := True\<rparr> else n
      | ConfigureNak \<Rightarrow>
          if n_last n = Some (f_id f) then n\<lparr>n_local := False, n_last := Some fresh\<rparr> else n
      | ConfigureReject \<Rightarrow>
          if n_last n = Some (f_id f) then n\<lparr>n_local := False, n_last := Some fresh\<rparr> else n
      | TerminateRequest \<Rightarrow> n\<lparr>n_local := False, n_remote := False\<rparr>
      | _ \<Rightarrow> n)"

definition reply_ok :: "bool \<Rightarrow> u8 \<Rightarrow> cp_frame \<Rightarrow> neg \<Rightarrow> bytes list \<Rightarrow> bool" where
  "reply_ok acceptable fresh f n out \<longleftrightarrow>
     (case f_code f of
        ConfigureRequest \<Rightarrow>
          if acceptable then out = [cp_encode ConfigureAck (f_id f) (f_data f)]
          else (\<exists>c body. c \<in> {ConfigureNak, ConfigureReject} \<and> body \<noteq> [] \<and>
                  out = [cp_encode c (f_id f) body])
      | ConfigureNak \<Rightarrow>
          if n_last n = Some (f_id f) then \<exists>body. out = [cp_encode ConfigureRequest fresh body]
          else out = []
      | ConfigureReject \<Rightarrow>
          if n_last n = Some (f_id f) then \<exists>body. out = [cp_encode ConfigureRequest fresh body]
          else out = []
      | TerminateRequest \<Rightarrow> out = [cp_encode TerminateAck (f_id f) []]
      | EchoRequest \<Rightarrow> out = [] \<or> (\<exists>body. out = [cp_encode EchoReply (f_id f) body])
      | _ \<Rightarrow> out = [])"

text \<open>
  A run of a receiver over the payloads a peer sends, each with the random draws that the
  receiver may make while it handles it.
\<close>

primrec neg_run ::
  "('r \<Rightarrow> 's \<Rightarrow> bytes \<Rightarrow> ('s \<times> bytes list \<times> bool) option) \<Rightarrow> 's \<Rightarrow> ('r \<times> bytes) list \<Rightarrow> 's option" where
  "neg_run rcv s [] = Some s"
| "neg_run rcv s (m # ms) = do {
     (s', out, up) \<leftarrow> rcv (fst m) s (snd m);
     neg_run rcv s' ms
   }"

lemma neg_run_append: "neg_run rcv s (xs @ ys) = Option.bind (neg_run rcv s xs) (\<lambda>t. neg_run rcv t ys)"
  by (induction xs arbitrary: s) (auto simp: bind_eq_None_conv split: bind_split option.splits)

definition acks_request :: "neg \<Rightarrow> bytes \<Rightarrow> bool" where
  \<comment> \<open>a Configure-Ack of the request in flight\<close>
  "acks_request n d \<longleftrightarrow>
     (\<exists>f. cp_decode d = Some (Some f) \<and> f_code f = ConfigureAck \<and> n_last n = Some (f_id f))"

definition requests :: "(opt list \<Rightarrow> bool) \<Rightarrow> bytes \<Rightarrow> bool" where
  \<comment> \<open>a Configure-Request with acceptable options\<close>
  "requests acceptable d \<longleftrightarrow>
     (\<exists>f. cp_decode d = Some (Some f) \<and> f_code f = ConfigureRequest \<and>
        acceptable (options_of (f_data f)))"

lemma neg_step_local:
  "n_local (neg_step a fresh f n) \<Longrightarrow>
   n_last (neg_step a fresh f n) = n_last n \<and>
   (n_local n \<or> f_code f = ConfigureAck \<and> n_last n = Some (f_id f))"
  by (cases "f_code f") (auto simp: neg_step_def split: if_splits)

lemma neg_step_remote:
  "n_remote (neg_step a fresh f n) \<Longrightarrow> n_remote n \<or> f_code f = ConfigureRequest \<and> a"
  by (cases "f_code f") (auto simp: neg_step_def split: if_splits)

locale negotiator =
  fixes receive :: "'r \<Rightarrow> 's \<Rightarrow> bytes \<Rightarrow> ('s \<times> bytes list \<times> bool) option"
    and view :: "'s \<Rightarrow> neg"
    and ident :: "'s \<Rightarrow> u8"
    and accepts :: "'s \<Rightarrow> opt list \<Rightarrow> bool"
    and inv :: "'s \<Rightarrow> bool"
  assumes returns: "receive r s d \<noteq> None"
    and garbage: "cp_decode d = Some None \<Longrightarrow> receive r s d = Some (s, [], n_up (view s))"
    and step: "cp_decode d = Some (Some f) \<Longrightarrow> receive r s d = Some (s', out, u) \<Longrightarrow>
      view s' = neg_step (accepts s (options_of (f_data f))) (ident s + 1) f (view s) \<and>
      u = n_up (view s')"
    and reply: "cp_decode d = Some (Some f) \<Longrightarrow> receive r s d = Some (s', out, u) \<Longrightarrow>
      reply_ok (accepts s (options_of (f_data f))) (ident s + 1) f (view s) out"
    and preserves: "inv s \<Longrightarrow> receive r s d = Some (s', out, u) \<Longrightarrow> inv s'"
    and sized: "inv s \<Longrightarrow> receive r s d = Some (s', out, u) \<Longrightarrow> w \<in> set out \<Longrightarrow>
      length w \<le> 800 + 2 * length d"
begin

lemma runs_receive: "runs (receive r s d)"
  using returns by (simp add: runs_def)

lemma runs_run: "runs (neg_run receive s ms)"
proof (induction ms arbitrary: s)
  case (Cons m ms)
  show ?case
    unfolding neg_run.simps by (intro runs_intro runs_receive Cons.IH)
qed simp

lemma up_flag:
  assumes "receive r s d = Some (s', out, u)"
  shows "u = n_up (view s')"
proof -
  obtain x where x: "cp_decode d = Some x"
    using runs_cp_decode [of d] by (auto simp: runs_def)
  show ?thesis
  proof (cases x)
    case None
    then show ?thesis using assms x garbage [of d r s] by auto
  next
    case (Some f)
    with x have "cp_decode d = Some (Some f)" by simp
    from step [OF this assms] show ?thesis by simp
  qed
qed

lemma at_most_one_reply:
  assumes "receive r s d = Some (s', out, u)"
  shows "length out \<le> 1"
proof -
  obtain x where x: "cp_decode d = Some x"
    using runs_cp_decode [of d] by (auto simp: runs_def)
  show ?thesis
  proof (cases x)
    case None
    then show ?thesis using assms x garbage [of d r s] by simp
  next
    case (Some f)
    with reply [of d f r s s' out u] x assms show ?thesis
      by (auto simp: reply_ok_def split: code.splits if_splits)
  qed
qed

lemma inv_run: "inv s \<Longrightarrow> neg_run receive s ms = Some t \<Longrightarrow> inv t"
  by (induction ms arbitrary: s) (auto simp: bind_eq_Some_conv dest: preserves)

lemma view_cases:
  assumes "receive r s d = Some (s', out, u)"
  shows "view s' = view s \<or>
    (\<exists>f. cp_decode d = Some (Some f) \<and>
      view s' = neg_step (accepts s (options_of (f_data f))) (ident s + 1) f (view s))"
proof -
  obtain x where x: "cp_decode d = Some x"
    using runs_cp_decode [of d] by (auto simp: runs_def)
  show ?thesis
  proof (cases x)
    case None
    then show ?thesis using assms x garbage [of d r s] by simp
  next
    case (Some f)
    with x have "cp_decode d = Some (Some f)" by simp
    from step [OF this assms] this show ?thesis by blast
  qed
qed

lemma local_cause:
  assumes "receive r s d = Some (s', out, u)" "n_local (view s')"
  shows "n_last (view s') = n_last (view s) \<and> (n_local (view s) \<or> acks_request (view s) d)"
  using view_cases [OF assms(1)]
proof (elim disjE exE conjE)
  assume "view s' = view s"
  with assms(2) show ?thesis by simp
next
  fix f
  assume f: "cp_decode d = Some (Some f)"
    "view s' = neg_step (accepts s (options_of (f_data f))) (ident s + 1) f (view s)"
  from neg_step_local [OF assms(2) [unfolded f(2)]] f show ?thesis
    by (auto simp: acks_request_def)
qed

lemma remote_cause:
  assumes "receive r s d = Some (s', out, u)" "n_remote (view s')"
  shows "n_remote (view s) \<or> requests (accepts s) d"
  using view_cases [OF assms(1)]
proof (elim disjE exE conjE)
  assume "view s' = view s"
  with assms(2) show ?thesis by simp
next
  fix f
  assume f: "cp_decode d = Some (Some f)"
    "view s' = neg_step (accepts s (options_of (f_data f))) (ident s + 1) f (view s)"
  from neg_step_remote [OF assms(2) [unfolded f(2)]] f(1) show ?thesis
    by (auto simp: requests_def)
qed

text \<open>
  A direction that is configured was configured by a frame of the peer: ours by the
  acknowledgement of the request that is still in flight, the peer's by a request whose
  options were all acceptable when it arrived.
\<close>

lemma local_history:
  assumes "neg_run receive s0 ms = Some s" "\<not> n_local (view s0)" "n_local (view s)"
  shows "\<exists>xs m ys t. ms = xs @ m # ys \<and> neg_run receive s0 xs = Some t \<and>
    acks_request (view t) (snd m) \<and> n_last (view s) = n_last (view t)"
  using assms(1, 3)
proof (induction ms arbitrary: s rule: rev_induct)
  case Nil
  then show ?case using assms(2) by simp
next
  case (snoc m ms)
  from snoc.prems(1) obtain t out u where t: "neg_run receive s0 ms = Some t"
    "receive (fst m) t (snd m) = Some (s, out, u)"
    by (auto simp: neg_run_append bind_eq_Some_conv)
  from local_cause [OF t(2) snoc.prems(2)] show ?case
  proof (elim conjE disjE)
    assume l: "n_last (view s) = n_last (view t)" and "n_local (view t)"
    from snoc.IH [OF t(1) this(2)] obtain xs m' ys t' where
      "ms = xs @ m' # ys" "neg_run receive s0 xs = Some t'" "acks_request (view t') (snd m')"
      "n_last (view t) = n_last (view t')"
      by blast
    with l show ?thesis
      by (intro exI [of _ xs] exI [of _ m'] exI [of _ "ys @ [m]"] exI [of _ t']) simp
  next
    assume "n_last (view s) = n_last (view t)" "acks_request (view t) (snd m)"
    with t show ?thesis
      by (intro exI [of _ ms] exI [of _ m] exI [of _ "[]"] exI [of _ t]) simp
  qed
qed

lemma remote_history:
  assumes "neg_run receive s0 ms = Some s" "\<not> n_remote (view s0)" "n_remote (view s)"
  shows "\<exists>xs m ys t. ms = xs @ m # ys \<and> neg_run receive s0 xs = Some t \<and>
    requests (accepts t) (snd m)"
  using assms(1, 3)
proof (induction ms arbitrary: s rule: rev_induct)
  case Nil
  then show ?case using assms(2) by simp
next
  case (snoc m ms)
  from snoc.prems(1) obtain t out u where t: "neg_run receive s0 ms = Some t"
    "receive (fst m) t (snd m) = Some (s, out, u)"
    by (auto simp: neg_run_append bind_eq_Some_conv)
  from remote_cause [OF t(2) snoc.prems(2)] show ?case
  proof
    assume "n_remote (view t)"
    from snoc.IH [OF t(1) this] obtain xs m' ys t' where
      "ms = xs @ m' # ys" "neg_run receive s0 xs = Some t'" "requests (accepts t') (snd m')"
      by blast
    then show ?thesis
      by (intro exI [of _ xs] exI [of _ m'] exI [of _ "ys @ [m]"] exI [of _ t']) simp
  next
    assume "requests (accepts t) (snd m)"
    with t show ?thesis
      by (intro exI [of _ ms] exI [of _ m] exI [of _ "[]"] exI [of _ t]) simp
  qed
qed

lemma up_history:
  assumes "neg_run receive s0 ms = Some s"
    and "\<not> n_local (view s0)" "\<not> n_remote (view s0)" "n_up (view s)"
  shows "(\<exists>xs m ys t. ms = xs @ m # ys \<and> neg_run receive s0 xs = Some t \<and>
      acks_request (view t) (snd m) \<and> n_last (view s) = n_last (view t)) \<and>
    (\<exists>xs m ys t. ms = xs @ m # ys \<and> neg_run receive s0 xs = Some t \<and>
      requests (accepts t) (snd m))"
  using assms local_history remote_history unfolding n_up_def by blast

end

end
