(* ===== verification/Lcp.thy ===== *)
theory Lcp
  imports Negotiation
begin

text \<open>
  LCP (\<open>sstp-proto/src/lcp.rs\<close>): the state of the \<open>Lcp\<close> struct and each of its methods.
  \<open>rnd n\<close> is what the \<open>n\<close>-th call of \<open>rand::random\<close> returns while one frame is handled.
\<close>

definition OPT_MRU :: u8 where "OPT_MRU = 1"
definition OPT_ACCM :: u8 where "OPT_ACCM = 2"
definition OPT_AUTH_PROTOCOL :: u8 where "OPT_AUTH_PROTOCOL = 3"
definition OPT_MAGIC_NUMBER :: u8 where "OPT_MAGIC_NUMBER = 5"
definition OPT_PFC :: u8 where "OPT_PFC = 7"
definition OPT_ACFC :: u8 where "OPT_ACFC = 8"
definition CHAP_ALGORITHM_MSCHAPV2 :: u8 where "CHAP_ALGORITHM_MSCHAPV2 = 0x81"

lemmas lcp_options [simp] = OPT_MRU_def OPT_ACCM_def OPT_AUTH_PROTOCOL_def
  OPT_MAGIC_NUMBER_def OPT_PFC_def OPT_ACFC_def CHAP_ALGORITHM_MSCHAPV2_def

record peer_auth =
  pa_protocol :: u16
  pa_algorithm :: u8

definition is_mschapv2 :: "peer_auth \<Rightarrow> bool" where
  "is_mschapv2 a \<longleftrightarrow>
     pa_protocol a = proto_to_u16 ProtoChap \<and> pa_algorithm a = CHAP_ALGORITHM_MSCHAPV2"

record lcp_result =
  lr_to_send :: "bytes list"
  lr_up :: bool

record lcp =
  lcp_identifier :: u8
  lcp_magic :: u32
  lcp_desired :: "opt list"
  lcp_last_sent_id :: "u8 option"
  lcp_local_up :: bool
  lcp_remote_up :: bool
  lcp_peer_auth :: "peer_auth option"

definition lcp_new :: "u32 \<Rightarrow> lcp" where
  "lcp_new magic =
     \<lparr>lcp_identifier = 0, lcp_magic = magic,
      lcp_desired = [Opt OPT_MAGIC_NUMBER (u32_to_be magic), Opt OPT_PFC [], Opt OPT_ACFC []],
      lcp_last_sent_id = None, lcp_local_up = False, lcp_remote_up = False,
      lcp_peer_auth = None\<rparr>"

definition lcp_is_up :: "lcp \<Rightarrow> bool" where
  "lcp_is_up l \<longleftrightarrow> lcp_local_up l \<and> lcp_remote_up l"

definition lcp_send_config_request :: "lcp \<Rightarrow> lcp \<times> bytes" where
  "lcp_send_config_request l0 =
     (let l1 = l0\<lparr>lcp_identifier := lcp_identifier l0 + 1\<rparr>;
          l2 = l1\<lparr>lcp_last_sent_id := Some (lcp_identifier l1)\<rparr>;
          data = encode_options (lcp_desired l2)
      in (l2, cp_encode ConfigureRequest (lcp_identifier l2) data))"

definition lcp_start :: "lcp \<Rightarrow> lcp \<times> bytes" where
  "lcp_start l = lcp_send_config_request l"

definition be_u32 :: "bytes \<Rightarrow> u32 option" where
  \<comment> \<open>\<open>u32::from_be_bytes(v.try_into().unwrap())\<close>\<close>
  "be_u32 v =
     (if length v = 4 then Some (u32_from_be (v ! 0) (v ! 1) (v ! 2) (v ! 3)) else None)"

primrec lcp_evaluate_peer_options ::
  "(nat \<Rightarrow> u32) \<Rightarrow> opt list \<Rightarrow> nat \<Rightarrow> lcp \<Rightarrow> opt list \<Rightarrow> opt list \<Rightarrow>
   (lcp \<times> opt list \<times> opt list) option" where
  "lcp_evaluate_peer_options rnd [] n l nak reject = Some (l, nak, reject)"
| "lcp_evaluate_peer_options rnd (p # ps) n l nak reject =
     (if o_kind p = OPT_MAGIC_NUMBER then
        if length (o_data p) \<noteq> 4 then lcp_evaluate_peer_options rnd ps n l nak (reject @ [p])
        else do {
          peer_magic \<leftarrow> be_u32 (o_data p);
          if peer_magic = lcp_magic l
          then lcp_evaluate_peer_options rnd ps (Suc n) l
                 (nak @ [Opt OPT_MAGIC_NUMBER (u32_to_be (rnd n))]) reject
          else lcp_evaluate_peer_options rnd ps n l nak reject
        }
      else if o_kind p = OPT_AUTH_PROTOCOL then
        if length (o_data p) < 2 then lcp_evaluate_peer_options rnd ps n l nak (reject @ [p])
        else do {
          d0 \<leftarrow> idx (o_data p) 0;
          d1 \<leftarrow> idx (o_data p) 1;
          let proto = u16_from_be d0 d1;
          let algo = idx (o_data p) 2;
          if proto = proto_to_u16 ProtoChap \<and> algo = Some CHAP_ALGORITHM_MSCHAPV2
          then lcp_evaluate_peer_options rnd ps n
                 (l\<lparr>lcp_peer_auth :=
                      Some \<lparr>pa_protocol = proto, pa_algorithm = CHAP_ALGORITHM_MSCHAPV2\<rparr>\<rparr>)
                 nak reject
          else let chap = proto_to_u16 ProtoChap
               in lcp_evaluate_peer_options rnd ps n l
                    (nak @ [Opt OPT_AUTH_PROTOCOL
                       [ucast (drop_bit 8 chap), ucast chap, CHAP_ALGORITHM_MSCHAPV2]]) reject
        }
      else if o_kind p \<in> {OPT_PFC, OPT_ACFC, OPT_MRU, OPT_ACCM}
      then lcp_evaluate_peer_options rnd ps n l nak reject
      else lcp_evaluate_peer_options rnd ps n l nak (reject @ [p]))"

primrec lcp_apply_nak :: "opt list \<Rightarrow> lcp \<Rightarrow> lcp option" where
  "lcp_apply_nak [] l = Some l"
| "lcp_apply_nak (s # ss) l0 =
     (let l1 = l0\<lparr>lcp_desired := update_kind (lcp_desired l0) s\<rparr>
      in if o_kind s = OPT_MAGIC_NUMBER \<and> length (o_data s) = 4
         then do {
           m \<leftarrow> be_u32 (o_data s);
           lcp_apply_nak ss (l1\<lparr>lcp_magic := m\<rparr>)
         }
         else lcp_apply_nak ss l1)"

definition lcp_apply_reject :: "opt list \<Rightarrow> lcp \<Rightarrow> lcp" where
  "lcp_apply_reject rejected l = l\<lparr>lcp_desired := retain_kinds (lcp_desired l) rejected\<rparr>"

definition lcp_on_config_request :: "(nat \<Rightarrow> u32) \<Rightarrow> lcp \<Rightarrow> cp_frame \<Rightarrow> (lcp \<times> bytes list) option" where
  "lcp_on_config_request rnd l0 f = do {
     peer_opts \<leftarrow> decode_options (f_data f);
     (l, nak, reject) \<leftarrow> lcp_evaluate_peer_options rnd peer_opts 0 l0 [] [];
     Some (if reject \<noteq> [] then
             (l\<lparr>lcp_remote_up := False\<rparr>,
              [cp_encode ConfigureReject (f_id f) (encode_options reject)])
           else if nak \<noteq> [] then
             (l\<lparr>lcp_remote_up := False\<rparr>,
              [cp_encode ConfigureNak (f_id f) (encode_options nak)])
           else
             (l\<lparr>lcp_remote_up := True\<rparr>,
              [cp_encode ConfigureAck (f_id f) (f_data f)]))
   }"

definition lcp_handle :: "(nat \<Rightarrow> u32) \<Rightarrow> lcp \<Rightarrow> cp_frame \<Rightarrow> (lcp \<times> bytes list) option" where
  \<comment> \<open>the \<open>match frame.code\<close> of \<open>receive\<close>\<close>
  "lcp_handle rnd l f =
     (case f_code f of
        ConfigureRequest \<Rightarrow> lcp_on_config_request rnd l f
      | ConfigureAck \<Rightarrow>
          Some (if lcp_last_sent_id l = Some (f_id f) then l\<lparr>lcp_local_up := True\<rparr> else l, [])
      | ConfigureNak \<Rightarrow>
          if lcp_last_sent_id l = Some (f_id f) then do {
            suggested \<leftarrow> decode_options (f_data f);
            l1 \<leftarrow> lcp_apply_nak suggested l;
            let (l2, request) = lcp_send_config_request (l1\<lparr>lcp_local_up := False\<rparr>);
            Some (l2, [request])
          } else Some (l, [])
      | ConfigureReject \<Rightarrow>
          if lcp_last_sent_id l = Some (f_id f) then do {
            rejected \<leftarrow> decode_options (f_data f);
            let l1 = lcp_apply_reject rejected l;
            let (l2, request) = lcp_send_config_request (l1\<lparr>lcp_local_up := False\<rparr>);
            Some (l2, [request])
          } else Some (l, [])
      | EchoRequest \<Rightarrow> do {
          let own = u32_to_be (lcp_magic l);
          rest \<leftarrow> (if length (f_data f) > 4 then subslice (f_data f) 4 (length (f_data f))
                   else Some []);
          Some (l, [cp_encode EchoReply (f_id f) (own @ rest)])
        }
      | TerminateRequest \<Rightarrow>
          Some (l\<lparr>lcp_local_up := False, lcp_remote_up := False\<rparr>,
                [cp_encode TerminateAck (f_id f) []])
      | _ \<Rightarrow> Some (l, []))"

definition lcp_receive :: "(nat \<Rightarrow> u32) \<Rightarrow> lcp \<Rightarrow> bytes \<Rightarrow> (lcp \<times> lcp_result) option" where
  "lcp_receive rnd l0 data = do {
     decoded \<leftarrow> cp_decode data;
     case decoded of
       None \<Rightarrow> Some (l0, \<lparr>lr_to_send = [], lr_up = lcp_is_up l0\<rparr>)
     | Some f \<Rightarrow> do {
         (l, to_send) \<leftarrow> lcp_handle rnd l0 f;
         Some (l, \<lparr>lr_to_send = to_send, lr_up = lcp_is_up l\<rparr>)
       }
   }"

definition lcp_build_protocol_reject :: "lcp \<Rightarrow> bytes \<Rightarrow> lcp \<times> bytes" where
  "lcp_build_protocol_reject l protocol_and_payload =
     (let l1 = l\<lparr>lcp_identifier := lcp_identifier l + 1\<rparr>
      in (l1, cp_encode ProtocolReject (lcp_identifier l1) protocol_and_payload))"

section \<open>Facts\<close>

lemma be_u32_ok [simp]: "length v = 4 \<Longrightarrow> be_u32 v = Some (u32_from_be (v ! 0) (v ! 1) (v ! 2) (v ! 3))"
  by (simp add: be_u32_def)

lemma be_u32_to_be [simp]: "be_u32 (u32_to_be m) = Some m"
  by (simp add: be_u32_def u32_to_be_def)

definition MSCHAPV2 :: peer_auth where
  "MSCHAPV2 = \<lparr>pa_protocol = proto_to_u16 ProtoChap, pa_algorithm = CHAP_ALGORITHM_MSCHAPV2\<rparr>"

lemma is_mschapv2_iff: "is_mschapv2 a \<longleftrightarrow> a = MSCHAPV2"
  by (cases a) (simp add: is_mschapv2_def MSCHAPV2_def)

definition lcp_auths :: "opt \<Rightarrow> bool" where
  \<comment> \<open>the option asks for MS-CHAPv2\<close>
  "lcp_auths p \<longleftrightarrow> o_kind p = OPT_AUTH_PROTOCOL \<and> 3 \<le> length (o_data p) \<and>
     take 3 (o_data p) = [0xC2, 0x23, 0x81]"

definition lcp_rejects :: "opt \<Rightarrow> bool" where
  \<comment> \<open>malformed or unknown\<close>
  "lcp_rejects p \<longleftrightarrow>
     (o_kind p = OPT_MAGIC_NUMBER \<and> length (o_data p) \<noteq> 4) \<or>
     (o_kind p = OPT_AUTH_PROTOCOL \<and> length (o_data p) < 2) \<or>
     o_kind p \<notin> {OPT_MAGIC_NUMBER, OPT_AUTH_PROTOCOL, OPT_PFC, OPT_ACFC, OPT_MRU, OPT_ACCM}"

definition lcp_naks :: "u32 \<Rightarrow> opt \<Rightarrow> bool" where
  \<comment> \<open>our own magic number, or another authentication protocol\<close>
  "lcp_naks magic p \<longleftrightarrow>
     o_kind p = OPT_MAGIC_NUMBER \<and> o_data p = u32_to_be magic \<or>
     o_kind p = OPT_AUTH_PROTOCOL \<and> 2 \<le> length (o_data p) \<and> \<not> lcp_auths p"

definition lcp_accepts :: "lcp \<Rightarrow> opt list \<Rightarrow> bool" where
  "lcp_accepts l ps \<longleftrightarrow> \<not> list_ex (\<lambda>p. lcp_rejects p \<or> lcp_naks (lcp_magic l) p) ps"

lemma length_2_3: "2 \<le> length xs \<Longrightarrow> length xs < 3 \<Longrightarrow> \<exists>a b. xs = [a, b]"
  by (cases xs; cases "tl xs") auto

lemma lcp_auths_iff:
  assumes "o_kind p = OPT_AUTH_PROTOCOL" "2 \<le> length (o_data p)"
  shows "lcp_auths p \<longleftrightarrow>
    u16_from_be (o_data p ! 0) (o_data p ! 1) = proto_to_u16 ProtoChap \<and>
    idx (o_data p) 2 = Some CHAP_ALGORITHM_MSCHAPV2"
proof -
  have c: "u16_to_be 0xC223 = [0xC2, 0x23]" by code_simp
  obtain a b r where d: "o_data p = a # b # r"
    using assms(2) by (cases "o_data p"; cases "tl (o_data p)") auto
  show ?thesis
    using assms(1) by (cases r) (auto simp: lcp_auths_def d u16_from_be_eq_iff c)
qed

lemma lcp_naks_magic_iff:
  assumes "o_kind p = OPT_MAGIC_NUMBER" "length (o_data p) = 4"
  shows "lcp_naks m p \<longleftrightarrow>
    u32_from_be (o_data p ! 0) (o_data p ! 1) (o_data p ! 2) (o_data p ! 3) = m"
proof -
  obtain a b c d where "o_data p = [a, b, c, d]"
    using assms(2) by (auto simp: numeral_eq_Suc length_Suc_conv)
  then show ?thesis
    using assms(1) by (simp add: lcp_naks_def u32_from_be_eq_iff)
qed

lemma length_encode_options_Cons [simp]:
  "length (encode_options (p # ps)) = 2 + length (o_data p) + length (encode_options ps)"
  by simp

text \<open>
  What one pass over the options of a Configure-Request finds: the malformed and unknown ones
  to reject, in order; one counter-proposal for each one to refuse; and whether MS-CHAPv2 was
  asked for.
\<close>

definition naks_for :: "u32 \<Rightarrow> opt list \<Rightarrow> opt list \<Rightarrow> bool" where
  "naks_for magic ps naks \<longleftrightarrow>
     map o_kind naks = map o_kind (filter (lcp_naks magic) ps) \<and>
     list_all (\<lambda>q. (o_kind q = OPT_MAGIC_NUMBER \<and> length (o_data q) = 4) \<or>
                    q = Opt OPT_AUTH_PROTOCOL [0xC2, 0x23, 0x81]) naks \<and>
     length (encode_options naks) \<le> 2 * length (encode_options ps)"

definition auth_after :: "opt list \<Rightarrow> lcp \<Rightarrow> peer_auth option" where
  "auth_after ps l = (if list_ex lcp_auths ps then Some MSCHAPV2 else lcp_peer_auth l)"

lemma naks_for_ok: "naks_for m ps naks \<Longrightarrow> opts_ok naks"
  by (auto simp: naks_for_def opt_ok_def list_all_iff)

lemma naks_for_Nil [simp]: "naks_for m [] []"
  by (simp add: naks_for_def)

lemma naks_for_skip: "\<not> lcp_naks m p \<Longrightarrow> naks_for m ps naks \<Longrightarrow> naks_for m (p # ps) naks"
  by (auto simp: naks_for_def)

lemma naks_for_magic:
  "o_kind p = OPT_MAGIC_NUMBER \<Longrightarrow> length (o_data p) = 4 \<Longrightarrow> lcp_naks m p \<Longrightarrow>
   naks_for m ps naks \<Longrightarrow> naks_for m (p # ps) (Opt OPT_MAGIC_NUMBER (u32_to_be v) # naks)"
  by (auto simp: naks_for_def)

lemma naks_for_auth:
  "o_kind p = OPT_AUTH_PROTOCOL \<Longrightarrow> 2 \<le> length (o_data p) \<Longrightarrow> lcp_naks m p \<Longrightarrow>
   naks_for m ps naks \<Longrightarrow> naks_for m (p # ps) (Opt OPT_AUTH_PROTOCOL [0xC2, 0x23, 0x81] # naks)"
  by (auto simp: naks_for_def)

lemma chap_bytes: "(49699 :: u8) = 0x23"
  by code_simp

lemma lcp_option_cases:
  obtains (reject) "lcp_rejects p" "\<not> lcp_naks m p" "\<not> lcp_auths p"
  | (magic) "o_kind p = OPT_MAGIC_NUMBER" "length (o_data p) = 4" "\<not> lcp_rejects p" "\<not> lcp_auths p"
  | (auth) "o_kind p = OPT_AUTH_PROTOCOL" "2 \<le> length (o_data p)" "\<not> lcp_rejects p" "lcp_naks m p \<longleftrightarrow> \<not> lcp_auths p"
  | (pass) "o_kind p \<in> {OPT_PFC, OPT_ACFC, OPT_MRU, OPT_ACCM}" "\<not> lcp_rejects p" "\<not> lcp_naks m p" "\<not> lcp_auths p"
proof (cases "lcp_rejects p")
  case True
  then show thesis by (intro reject) (auto simp: lcp_rejects_def lcp_naks_def lcp_auths_def)
next
  case False
  then consider "o_kind p = OPT_MAGIC_NUMBER \<and> length (o_data p) = 4"
    | "o_kind p = OPT_AUTH_PROTOCOL \<and> 2 \<le> length (o_data p)"
    | "o_kind p \<in> {OPT_PFC, OPT_ACFC, OPT_MRU, OPT_ACCM}"
    by (simp add: lcp_rejects_def) linarith
  then show thesis
  proof cases
    case 1
    then show thesis using False by (intro magic) (auto simp: lcp_auths_def)
  next
    case 2
    then show thesis using False by (intro auth) (auto simp: lcp_naks_def)
  next
    case 3
    then show thesis using False by (intro pass) (auto simp: lcp_naks_def lcp_auths_def)
  qed
qed

text \<open>What one option adds to the pass.\<close>

lemma lcp_evaluate_step:
  "\<exists>n' ns. lcp_evaluate_peer_options rnd (p # ps) n l nak rej =
      lcp_evaluate_peer_options rnd ps n' (l\<lparr>lcp_peer_auth := auth_after [p] l\<rparr>) (nak @ ns) (rej @ filter lcp_rejects [p]) \<and>
    (\<forall>qs. naks_for (lcp_magic l) ps qs \<longrightarrow> naks_for (lcp_magic l) (p # ps) (ns @ qs))"
  (is "\<exists>n' ns. ?run n' ns")
proof (cases rule: lcp_option_cases [where p = p and m = "lcp_magic l"])
  case reject
  then have "?run n []" by (auto simp: lcp_rejects_def auth_after_def naks_for_skip)
  then show ?thesis by blast
next
  case magic
  show ?thesis
  proof (cases "lcp_naks (lcp_magic l) p")
    case True
    have "\<forall>qs. naks_for (lcp_magic l) ps qs \<longrightarrow>
        naks_for (lcp_magic l) (p # ps) ([Opt OPT_MAGIC_NUMBER (u32_to_be (rnd n))] @ qs)"
      using naks_for_magic [OF magic(1,2) True] by (metis append_Cons append_Nil)
    with True magic have "?run (Suc n) [Opt OPT_MAGIC_NUMBER (u32_to_be (rnd n))]"
      by (simp add: lcp_naks_magic_iff auth_after_def)
    then show ?thesis by blast
  next
    case False
    with magic have "?run n []" by (simp add: lcp_naks_magic_iff auth_after_def naks_for_skip)
    then show ?thesis by blast
  qed
next
  case auth
  have b: "idx (o_data p) 0 = Some (o_data p ! 0)" "idx (o_data p) (Suc 0) = Some (o_data p ! Suc 0)"
    using auth(2) by (auto intro!: idx_ok)
  show ?thesis
  proof (cases "lcp_auths p")
    case True
    with auth b have "?run n []"
      using lcp_auths_iff [OF auth(1,2)] by (simp add: MSCHAPV2_def Let_def auth_after_def naks_for_skip)
    then show ?thesis by blast
  next
    case False
    then have "lcp_naks (lcp_magic l) p" using auth(4) by simp
    then have "\<forall>qs. naks_for (lcp_magic l) ps qs \<longrightarrow>
        naks_for (lcp_magic l) (p # ps) ([Opt OPT_AUTH_PROTOCOL [0xC2, 0x23, 0x81]] @ qs)"
      using naks_for_auth [OF auth(1,2)] by (metis append_Cons append_Nil)
    with False auth b have "?run n [Opt OPT_AUTH_PROTOCOL [0xC2, 0x23, 0x81]]"
      using lcp_auths_iff [OF auth(1,2)] by (auto simp: Let_def chap_bytes auth_after_def)
    then show ?thesis by blast
  qed
next
  case pass
  then have "?run n []" by (auto simp: auth_after_def naks_for_skip)
  then show ?thesis by blast
qed

lemma lcp_evaluate_eq:
  "\<exists>naks. lcp_evaluate_peer_options rnd ps n l nak rej =
      Some (l\<lparr>lcp_peer_auth := auth_after ps l\<rparr>, nak @ naks, rej @ filter lcp_rejects ps) \<and>
    naks_for (lcp_magic l) ps naks"
proof (induction ps arbitrary: n l nak rej)
  case Nil
  then show ?case by (simp add: auth_after_def)
next
  case (Cons p ps)
  let ?l = "l\<lparr>lcp_peer_auth := auth_after [p] l\<rparr>"
  obtain n' ns where s: "lcp_evaluate_peer_options rnd (p # ps) n l nak rej =
      lcp_evaluate_peer_options rnd ps n' ?l (nak @ ns) (rej @ filter lcp_rejects [p])"
    "\<And>qs. naks_for (lcp_magic l) ps qs \<Longrightarrow> naks_for (lcp_magic l) (p # ps) (ns @ qs)"
    using lcp_evaluate_step [of rnd p ps n l nak rej] by blast
  obtain qs where "lcp_evaluate_peer_options rnd ps n' ?l (nak @ ns) (rej @ filter lcp_rejects [p]) =
      Some (?l\<lparr>lcp_peer_auth := auth_after ps ?l\<rparr>, (nak @ ns) @ qs, (rej @ filter lcp_rejects [p]) @ filter lcp_rejects ps)"
    "naks_for (lcp_magic ?l) ps qs"
    using Cons.IH by blast
  moreover have "?l\<lparr>lcp_peer_auth := auth_after ps ?l\<rparr> = l\<lparr>lcp_peer_auth := auth_after (p # ps) l\<rparr>"
    by (simp add: auth_after_def)
  ultimately show ?case
    using s by (intro exI [of _ "ns @ qs"]) simp
qed

subsection \<open>The methods in normal form\<close>

definition nak_magic :: "u32 \<Rightarrow> opt list \<Rightarrow> u32" where
  "nak_magic m ss = foldl (\<lambda>m s.
     if o_kind s = OPT_MAGIC_NUMBER \<and> length (o_data s) = 4
     then u32_from_be (o_data s ! 0) (o_data s ! 1) (o_data s ! 2) (o_data s ! 3) else m) m ss"

lemma lcp_apply_nak_eq:
  "lcp_apply_nak ss l = Some (l\<lparr>lcp_desired := foldl update_kind (lcp_desired l) ss,
     lcp_magic := nak_magic (lcp_magic l) ss\<rparr>)"
  by (induction ss arbitrary: l) (simp_all add: Let_def nak_magic_def)

lemma lcp_on_config_request_eq:
  "\<exists>naks. naks_for (lcp_magic l) (options_of (f_data f)) naks \<and>
    lcp_on_config_request rnd l f =
     (let ps = options_of (f_data f);
          l' = l\<lparr>lcp_peer_auth := auth_after ps l\<rparr>;
          rejects = filter lcp_rejects ps
      in Some (if rejects \<noteq> [] then
                 (l'\<lparr>lcp_remote_up := False\<rparr>, [cp_encode ConfigureReject (f_id f) (encode_options rejects)])
               else if naks \<noteq> [] then
                 (l'\<lparr>lcp_remote_up := False\<rparr>, [cp_encode ConfigureNak (f_id f) (encode_options naks)])
               else (l'\<lparr>lcp_remote_up := True\<rparr>, [cp_encode ConfigureAck (f_id f) (f_data f)])))"
proof -
  obtain naks where n: "lcp_evaluate_peer_options rnd (options_of (f_data f)) 0 l [] [] =
      Some (l\<lparr>lcp_peer_auth := auth_after (options_of (f_data f)) l\<rparr>, [] @ naks,
        [] @ filter lcp_rejects (options_of (f_data f)))"
    "naks_for (lcp_magic l) (options_of (f_data f)) naks"
    using lcp_evaluate_eq by blast
  show ?thesis
    by (rule exI [of _ naks]) (simp add: lcp_on_config_request_def Let_def n)
qed

lemma lcp_accepts_iff:
  "naks_for (lcp_magic l) ps naks \<Longrightarrow> lcp_accepts l ps \<longleftrightarrow> filter lcp_rejects ps = [] \<and> naks = []"
proof -
  assume "naks_for (lcp_magic l) ps naks"
  then have "naks = [] \<longleftrightarrow> filter (lcp_naks (lcp_magic l)) ps = []"
    by (metis naks_for_def map_is_Nil_conv)
  then show ?thesis
    by (auto simp: lcp_accepts_def list_ex_iff filter_empty_conv)
qed

definition lcp_view :: "lcp \<Rightarrow> neg" where
  "lcp_view l = \<lparr>n_last = lcp_last_sent_id l, n_local = lcp_local_up l, n_remote = lcp_remote_up l\<rparr>"

definition lcp_inv :: "lcp \<Rightarrow> bool" where
  "lcp_inv l \<longleftrightarrow> opts_ok (lcp_desired l) \<and> length (lcp_desired l) \<le> 3"

definition lcp_rcv :: "(nat \<Rightarrow> u32) \<Rightarrow> lcp \<Rightarrow> bytes \<Rightarrow> (lcp \<times> bytes list \<times> bool) option" where
  "lcp_rcv rnd l d = map_option (\<lambda>(l', r). (l', lr_to_send r, lr_up r)) (lcp_receive rnd l d)"

lemma lcp_is_up_view: "lcp_is_up l = n_up (lcp_view l)"
  by (simp add: lcp_is_up_def n_up_def lcp_view_def)

lemma lcp_new_inv: "lcp_inv (lcp_new m)"
  by (simp add: lcp_inv_def lcp_new_def opt_ok_def)

lemma lcp_send_config_request_length:
  "lcp_inv l \<Longrightarrow> length (snd (lcp_send_config_request l)) \<le> 769"
  using length_encode_options [of "lcp_desired l"]
  by (auto simp: lcp_send_config_request_def lcp_inv_def Let_def)

lemma runs_lcp_handle [runs_intro]: "runs (lcp_handle rnd l f)"
proof (cases "f_code f")
  case ConfigureRequest
  then show ?thesis
    using lcp_on_config_request_eq [of l f rnd] by (auto simp: lcp_handle_def runs_def Let_def)
qed (auto simp: lcp_handle_def lcp_apply_nak_eq Let_def runs_def split: prod.splits)

lemma lcp_handle_inv:
  assumes "lcp_inv l" "lcp_handle rnd l f = Some (l', out)"
  shows "lcp_inv l'"
proof (cases "f_code f")
  case ConfigureRequest
  then show ?thesis
    using assms lcp_on_config_request_eq [of l f rnd]
    by (auto simp: lcp_handle_def lcp_inv_def Let_def split: if_splits)
next
  case ConfigureNak
  then show ?thesis
    using assms
    by (auto simp: lcp_handle_def lcp_inv_def Let_def lcp_apply_nak_eq lcp_send_config_request_def
        foldl_update_kind_ok split: if_splits)
next
  case ConfigureReject
  then show ?thesis
    using assms retain_kinds_length [of "lcp_desired l" "options_of (f_data f)"]
    by (auto simp: lcp_handle_def lcp_inv_def Let_def lcp_apply_reject_def
        lcp_send_config_request_def retain_kinds_ok split: if_splits)
qed (use assms in \<open>auto simp: lcp_handle_def lcp_inv_def split: if_splits\<close>)

lemma lcp_handle_step:
  assumes "lcp_handle rnd l f = Some (l', out)"
  shows "lcp_view l' = neg_step (lcp_accepts l (options_of (f_data f))) (lcp_identifier l + 1) f (lcp_view l)"
proof (cases "f_code f")
  case ConfigureRequest
  obtain naks where n: "naks_for (lcp_magic l) (options_of (f_data f)) naks" and
    e: "lcp_on_config_request rnd l f =
     (let ps = options_of (f_data f);
          l' = l\<lparr>lcp_peer_auth := auth_after ps l\<rparr>;
          rejects = filter lcp_rejects ps
      in Some (if rejects \<noteq> [] then
                 (l'\<lparr>lcp_remote_up := False\<rparr>, [cp_encode ConfigureReject (f_id f) (encode_options rejects)])
               else if naks \<noteq> [] then
                 (l'\<lparr>lcp_remote_up := False\<rparr>, [cp_encode ConfigureNak (f_id f) (encode_options naks)])
               else (l'\<lparr>lcp_remote_up := True\<rparr>, [cp_encode ConfigureAck (f_id f) (f_data f)])))"
    using lcp_on_config_request_eq by blast
  show ?thesis
    using assms ConfigureRequest e
    by (auto simp: lcp_handle_def lcp_view_def neg_step_def Let_def lcp_accepts_iff [OF n]
        split: if_splits)
qed (use assms in \<open>auto simp: lcp_handle_def lcp_view_def neg_step_def Let_def lcp_apply_nak_eq
      lcp_apply_reject_def lcp_send_config_request_def split: if_splits\<close>)

lemma lcp_config_request_cases:
  assumes "lcp_on_config_request rnd l f = Some (l', out)"
  obtains (reject) "filter lcp_rejects (options_of (f_data f)) \<noteq> []"
      "out = [cp_encode ConfigureReject (f_id f) (encode_options (filter lcp_rejects (options_of (f_data f))))]"
      "\<not> lcp_accepts l (options_of (f_data f))"
    | (nak) naks where "naks_for (lcp_magic l) (options_of (f_data f)) naks" "naks \<noteq> []"
      "out = [cp_encode ConfigureNak (f_id f) (encode_options naks)]"
      "\<not> lcp_accepts l (options_of (f_data f))"
    | (ack) "out = [cp_encode ConfigureAck (f_id f) (f_data f)]"
      "lcp_accepts l (options_of (f_data f))"
proof -
  obtain naks where n: "naks_for (lcp_magic l) (options_of (f_data f)) naks" and
    e: "lcp_on_config_request rnd l f =
     (let ps = options_of (f_data f);
          l' = l\<lparr>lcp_peer_auth := auth_after ps l\<rparr>;
          rejects = filter lcp_rejects ps
      in Some (if rejects \<noteq> [] then
                 (l'\<lparr>lcp_remote_up := False\<rparr>, [cp_encode ConfigureReject (f_id f) (encode_options rejects)])
               else if naks \<noteq> [] then
                 (l'\<lparr>lcp_remote_up := False\<rparr>, [cp_encode ConfigureNak (f_id f) (encode_options naks)])
               else (l'\<lparr>lcp_remote_up := True\<rparr>, [cp_encode ConfigureAck (f_id f) (f_data f)])))"
    using lcp_on_config_request_eq by blast
  note acc = lcp_accepts_iff [OF n]
  consider "filter lcp_rejects (options_of (f_data f)) \<noteq> []"
    | "filter lcp_rejects (options_of (f_data f)) = []" "naks \<noteq> []"
    | "filter lcp_rejects (options_of (f_data f)) = []" "naks = []"
    by blast
  then show thesis
  proof cases
    case 1
    with assms e acc show thesis by (intro reject) (simp_all add: Let_def)
  next
    case 2
    with assms e acc show thesis by (intro nak [OF n]) (simp_all add: Let_def)
  next
    case 3
    with assms e acc show thesis by (intro ack) (simp_all add: Let_def)
  qed
qed

lemma lcp_handle_reply:
  assumes "lcp_handle rnd l f = Some (l', out)"
  shows "reply_ok (lcp_accepts l (options_of (f_data f))) (lcp_identifier l + 1) f (lcp_view l) out"
proof (cases "f_code f")
  case ConfigureRequest
  with assms have "lcp_on_config_request rnd l f = Some (l', out)"
    by (simp add: lcp_handle_def)
  then show ?thesis
    by (cases rule: lcp_config_request_cases) (auto simp: reply_ok_def ConfigureRequest, (metis encode_options_eq_Nil)+)
qed (use assms in \<open>auto simp: lcp_handle_def lcp_view_def reply_ok_def Let_def lcp_apply_nak_eq
      lcp_apply_reject_def lcp_send_config_request_def split: if_splits\<close>)

lemma lcp_handle_sized:
  assumes "lcp_inv l" "lcp_handle rnd l f = Some (l', out)" "w \<in> set out"
  shows "length w \<le> 800 + 2 * length (f_data f)"
proof (cases "f_code f")
  case ConfigureRequest
  with assms have "lcp_on_config_request rnd l f = Some (l', out)"
    by (simp add: lcp_handle_def)
  moreover note options_of_length [of "f_data f"]
  ultimately show ?thesis
    using assms(3) length_encode_options_filter [of lcp_rejects "options_of (f_data f)"]
    by (cases rule: lcp_config_request_cases) (auto simp: naks_for_def)
next
  case ConfigureNak
  then show ?thesis
    using assms length_encode_options [of "foldl update_kind (lcp_desired l) (options_of (f_data f))"]
    by (auto simp: lcp_handle_def lcp_apply_nak_eq Let_def lcp_send_config_request_def lcp_inv_def
        foldl_update_kind_ok split: if_splits)
next
  case ConfigureReject
  then show ?thesis
    using assms length_encode_options [of "retain_kinds (lcp_desired l) (options_of (f_data f))"]
      retain_kinds_length [of "lcp_desired l" "options_of (f_data f)"]
    by (auto simp: lcp_handle_def lcp_apply_reject_def Let_def lcp_send_config_request_def lcp_inv_def
        retain_kinds_ok split: if_splits)
qed (use assms in \<open>auto simp: lcp_handle_def split: if_splits\<close>)

lemma runs_lcp_receive [runs_intro]: "runs (lcp_receive rnd l d)"
  unfolding lcp_receive_def by (intro runs_intro)

lemma lcp_receive_frame:
  "cp_decode d = Some (Some f) \<Longrightarrow> lcp_receive rnd l d = Some (l', r) \<longleftrightarrow>
   (\<exists>out. lcp_handle rnd l f = Some (l', out) \<and> r = \<lparr>lr_to_send = out, lr_up = lcp_is_up l'\<rparr>)"
  by (auto simp: lcp_receive_def bind_eq_Some_conv)

lemma lcp_receive_garbage:
  "cp_decode d = Some None \<Longrightarrow>
   lcp_receive rnd l d = Some (l, \<lparr>lr_to_send = [], lr_up = lcp_is_up l\<rparr>)"
  by (simp add: lcp_receive_def)

lemma lcp_rcv_Some:
  "lcp_rcv rnd l d = Some (l', out, u) \<longleftrightarrow>
   lcp_receive rnd l d = Some (l', \<lparr>lr_to_send = out, lr_up = u\<rparr>)"
  by (auto simp: lcp_rcv_def)

interpretation lcp_neg: negotiator lcp_rcv lcp_view lcp_identifier lcp_accepts lcp_inv
proof
  fix rnd l d
  show "lcp_rcv rnd l d \<noteq> None"
    using runs_lcp_receive [of rnd l d] by (simp add: lcp_rcv_def runs_def)
next
  fix rnd l d
  assume "cp_decode d = Some None"
  then show "lcp_rcv rnd l d = Some (l, [], n_up (lcp_view l))"
    by (simp add: lcp_rcv_def lcp_receive_garbage lcp_is_up_view)
next
  fix rnd l d f l' out u
  assume f: "cp_decode d = Some (Some f)" and r: "lcp_rcv rnd l d = Some (l', out, u)"
  then have h: "lcp_handle rnd l f = Some (l', out)" "u = n_up (lcp_view l')"
    by (auto simp: lcp_rcv_Some lcp_receive_frame lcp_is_up_view)
  then show "lcp_view l' = neg_step (lcp_accepts l (options_of (f_data f))) (lcp_identifier l + 1)
      f (lcp_view l) \<and> u = n_up (lcp_view l')"
    using lcp_handle_step by blast
  show "reply_ok (lcp_accepts l (options_of (f_data f))) (lcp_identifier l + 1) f (lcp_view l) out"
    using h(1) by (rule lcp_handle_reply)
next
  fix rnd l d l' out u
  assume i: "lcp_inv l" and r: "lcp_rcv rnd l d = Some (l', out, u)"
  obtain x where x: "cp_decode d = Some x"
    using runs_cp_decode [of d] by (auto simp: runs_def)
  show "lcp_inv l'"
  proof (cases x)
    case None
    with x r i show ?thesis by (auto simp: lcp_rcv_Some lcp_receive_garbage)
  next
    case (Some f)
    with x r i show ?thesis by (auto simp: lcp_rcv_Some lcp_receive_frame lcp_handle_inv)
  qed
  show "length w \<le> 800 + 2 * length d" if "w \<in> set out" for w
  proof (cases x)
    case None
    with x r that show ?thesis by (auto simp: lcp_rcv_Some lcp_receive_garbage)
  next
    case (Some f)
    with x r have "lcp_handle rnd l f = Some (l', out)"
      by (auto simp: lcp_rcv_Some lcp_receive_frame)
    from lcp_handle_sized [OF i this that] x Some cp_decode_data_length [of d f] show ?thesis
      by simp
  qed
qed

section \<open>Properties\<close>

text \<open>
  C10. LCP refines the abstract negotiation: whatever a peer sends, \<open>receive\<close> returns without
  a panic and reports whether both directions are up; a payload that is no frame changes and
  answers nothing; a frame moves the flags and the request in flight as \<open>neg_step\<close> says and is
  answered as \<open>reply_ok\<close> says, at most once.
\<close>

theorem lcp_refines_negotiation:
  "\<exists>l' r. lcp_receive rnd l d = Some (l', r) \<and> lr_up r = lcp_is_up l' \<and> length (lr_to_send r) \<le> 1 \<and>
     (case cp_decode d of
        Some (Some f) \<Rightarrow>
          (let acceptable = lcp_accepts l (options_of (f_data f));
               fresh = lcp_identifier l + 1
           in lcp_view l' = neg_step acceptable fresh f (lcp_view l) \<and>
              reply_ok acceptable fresh f (lcp_view l) (lr_to_send r))
      | _ \<Rightarrow> l' = l \<and> lr_to_send r = [])"
proof -
  obtain l' r where r: "lcp_receive rnd l d = Some (l', r)"
    using runs_lcp_receive [of rnd l d] by (auto simp: runs_def)
  then have rcv: "lcp_rcv rnd l d = Some (l', lr_to_send r, lr_up r)"
    by (simp add: lcp_rcv_def)
  obtain x where x: "cp_decode d = Some x"
    using runs_cp_decode [of d] by (auto simp: runs_def)
  have "lr_up r = lcp_is_up l' \<and> length (lr_to_send r) \<le> 1"
    using lcp_neg.up_flag [OF rcv] lcp_neg.at_most_one_reply [OF rcv] by (simp add: lcp_is_up_view)
  moreover have "case cp_decode d of
        Some (Some f) \<Rightarrow>
          (let acceptable = lcp_accepts l (options_of (f_data f));
               fresh = lcp_identifier l + 1
           in lcp_view l' = neg_step acceptable fresh f (lcp_view l) \<and>
              reply_ok acceptable fresh f (lcp_view l) (lr_to_send r))
      | _ \<Rightarrow> l' = l \<and> lr_to_send r = []"
    using x r lcp_neg.step [OF _ rcv] lcp_neg.reply [OF _ rcv]
    by (cases x) (auto simp: Let_def lcp_receive_garbage)
  ultimately show ?thesis using r by blast
qed

text \<open>
  C11. The answer to a Configure-Request: when it holds a malformed or unknown option, a
  Configure-Reject of exactly those options, in their order; otherwise, when it holds our own
  magic number or an authentication protocol other than MS-CHAPv2, a Configure-Nak with one
  counter-proposal for each, in their order: exactly MS-CHAPv2 for the latter, and for the former a
  magic number of four bytes, whose value is a random draw; otherwise a Configure-Ack of the very
  bytes received. The peer's demand for MS-CHAPv2, and nothing else, is recorded as such.
\<close>

theorem lcp_answers_config_request:
  assumes "cp_decode d = Some (Some \<lparr>f_code = ConfigureRequest, f_id = i, f_data = data\<rparr>)"
    and "ps = options_of data"
  shows "\<exists>l' naks reply.
    lcp_receive rnd l d = Some (l', \<lparr>lr_to_send = [reply], lr_up = lcp_is_up l'\<rparr>) \<and>
    map o_kind naks = map o_kind (filter (lcp_naks (lcp_magic l)) ps) \<and>
    list_all (\<lambda>q. o_kind q = OPT_MAGIC_NUMBER \<and> length (o_data q) = 4 \<or>
                   q = Opt OPT_AUTH_PROTOCOL [0xC2, 0x23, 0x81]) naks \<and>
    reply = (if filter lcp_rejects ps \<noteq> [] then
               cp_encode ConfigureReject i (encode_options (filter lcp_rejects ps))
             else if naks \<noteq> [] then cp_encode ConfigureNak i (encode_options naks)
             else cp_encode ConfigureAck i data) \<and>
    (lcp_remote_up l' \<longleftrightarrow> filter lcp_rejects ps = [] \<and> naks = []) \<and>
    lcp_peer_auth l' = (if list_ex lcp_auths ps then Some MSCHAPV2 else lcp_peer_auth l) \<and>
    lcp_local_up l' = lcp_local_up l"
proof -
  let ?f = "\<lparr>f_code = ConfigureRequest, f_id = i, f_data = data\<rparr>"
  let ?l = "\<lambda>b. l\<lparr>lcp_peer_auth := auth_after ps l, lcp_remote_up := b\<rparr>"
  let ?rejects = "filter lcp_rejects ps"
  obtain naks where n: "naks_for (lcp_magic l) ps naks" and
    e: "lcp_on_config_request rnd l ?f =
      Some (?l (?rejects = [] \<and> naks = []),
        [if ?rejects \<noteq> [] then cp_encode ConfigureReject i (encode_options ?rejects)
         else if naks \<noteq> [] then cp_encode ConfigureNak i (encode_options naks)
         else cp_encode ConfigureAck i data])"
    using lcp_on_config_request_eq [of l ?f rnd] assms(2) by (force simp: Let_def)
  have "lcp_handle rnd l ?f = lcp_on_config_request rnd l ?f"
    by (simp add: lcp_handle_def)
  with e lcp_receive_frame [OF assms(1)] have "lcp_receive rnd l d =
      Some (?l (?rejects = [] \<and> naks = []),
        \<lparr>lr_to_send = [if ?rejects \<noteq> [] then cp_encode ConfigureReject i (encode_options ?rejects)
         else if naks \<noteq> [] then cp_encode ConfigureNak i (encode_options naks)
         else cp_encode ConfigureAck i data], lr_up = lcp_is_up (?l (?rejects = [] \<and> naks = []))\<rparr>)"
    by simp
  with n show ?thesis
    by (intro exI [of _ "?l (?rejects = [] \<and> naks = [])"] exI [of _ naks] exI)
      (simp add: naks_for_def auth_after_def)
qed

theorem lcp_answers_config_request_witness:
  "\<exists>l'. lcp_receive (\<lambda>n. 0) (lcp_new 7)
      (cp_encode ConfigureRequest 1 (encode_options [Opt 200 [1], Opt 1 [5, 220]])) =
    Some (l', \<lparr>lr_to_send = [cp_encode ConfigureReject 1 [200, 3, 1]], lr_up = lcp_is_up l'\<rparr>)"
proof -
  let ?data = "encode_options [Opt 200 [1], Opt 1 [5, 220]]"
  have ok: "opts_ok [Opt 200 [1], Opt 1 [5, 220]]" by (simp add: opt_ok_def)
  have ps: "[Opt 200 [1], Opt 1 [5, 220]] = options_of ?data"
    using options_of_encode [OF ok, of "[]"] by simp
  have "cp_decode (cp_encode ConfigureRequest 1 ?data) =
      Some (Some \<lparr>f_code = ConfigureRequest, f_id = 1, f_data = ?data\<rparr>)"
    by (rule cp_decode_encode_nil) simp_all
  from lcp_answers_config_request [OF this ps, of "\<lambda>n. 0" "lcp_new 7"] show ?thesis
    by (auto simp: lcp_rejects_def as_u8_def)
qed

text \<open>
  C12. A Configure-Nak or Configure-Reject of the request in flight is answered by one new
  request under the next identifier, with our direction down until that one is acknowledged:
  after a Nak it asks for the last value suggested for each of our options, after a Reject for
  exactly the options not named in it. A Nak or Reject under any other identifier is ignored.
\<close>

theorem lcp_renegotiates:
  assumes "cp_decode d = Some (Some \<lparr>f_code = c, f_id = i, f_data = data\<rparr>)"
    and "c = ConfigureNak \<or> c = ConfigureReject"
    and "distinct (map o_kind (lcp_desired l))"
  shows "\<exists>l'. (if lcp_last_sent_id l = Some i then
       lcp_receive rnd l d = Some (l', \<lparr>lr_to_send =
         [cp_encode ConfigureRequest (lcp_identifier l + 1) (encode_options (lcp_desired l'))],
         lr_up = False\<rparr>) \<and>
       lcp_desired l' =
         (if c = ConfigureNak then map (adopt (options_of data)) (lcp_desired l)
          else filter (\<lambda>p. o_kind p \<notin> o_kind ` set (options_of data)) (lcp_desired l)) \<and>
       \<not> lcp_local_up l' \<and> lcp_last_sent_id l' = Some (lcp_identifier l + 1)
     else lcp_receive rnd l d = Some (l, \<lparr>lr_to_send = [], lr_up = lcp_is_up l\<rparr>))"
proof -
  let ?f = "\<lparr>f_code = c, f_id = i, f_data = data\<rparr>"
  have retain: "retain_kinds (lcp_desired l) (options_of data) =
      filter (\<lambda>p. o_kind p \<notin> o_kind ` set (options_of data)) (lcp_desired l)"
    unfolding retain_kinds_def by (rule filter_cong) (auto simp: list_ex_iff, metis imageI)
  have recv: "lcp_receive rnd l d =
      map_option (\<lambda>(l', out). (l', \<lparr>lr_to_send = out, lr_up = lcp_is_up l'\<rparr>)) (lcp_handle rnd l ?f)"
    using assms(1) by (cases "lcp_handle rnd l ?f") (auto simp: lcp_receive_def)
  from assms(2) show ?thesis
  proof
    assume "c = ConfigureNak"
    then show ?thesis
      using assms(3)
      by (simp add: recv lcp_handle_def lcp_apply_nak_eq lcp_send_config_request_def Let_def
          lcp_is_up_def foldl_update_kind_adopt)
  next
    assume "c = ConfigureReject"
    then show ?thesis
      by (simp add: recv lcp_handle_def lcp_apply_reject_def lcp_send_config_request_def Let_def
          lcp_is_up_def retain)
  qed
qed

theorem lcp_renegotiates_witness:
  "\<exists>l'. lcp_receive (\<lambda>n. 0) (fst (lcp_start (lcp_new 7)))
      (cp_encode ConfigureReject 1 (encode_options [Opt 7 [], Opt 8 []])) =
    Some (l', \<lparr>lr_to_send = [cp_encode ConfigureRequest 2 [5, 6, 0, 0, 0, 7]], lr_up = False\<rparr>)"
proof -
  let ?data = "encode_options [Opt 7 [], Opt 8 []]"
  let ?l = "fst (lcp_start (lcp_new 7))"
  have "opts_ok [Opt 7 [], Opt 8 []]" by (simp add: opt_ok_def)
  from options_of_encode [OF this, of "[]"] have ps: "options_of ?data = [Opt 7 [], Opt 8 []]"
    by simp
  have l: "lcp_last_sent_id ?l = Some 1" "lcp_identifier ?l = 1"
    "lcp_desired ?l = [Opt 5 (u32_to_be 7), Opt 7 [], Opt 8 []]"
    by (simp_all add: lcp_start_def lcp_send_config_request_def lcp_new_def Let_def)
  have b: "u32_to_be 7 = [0, 0, 0, 7]" by code_simp
  have "cp_decode (cp_encode ConfigureReject 1 ?data) =
      Some (Some \<lparr>f_code = ConfigureReject, f_id = 1, f_data = ?data\<rparr>)"
    by (rule cp_decode_encode_nil) simp_all
  from lcp_renegotiates [OF this, of ?l "\<lambda>n. 0"] l ps show ?thesis
    by (auto simp: b as_u8_def)
qed

text \<open>
  LCP opens only by agreement: when it is up, the peer has acknowledged the very request
  of ours that is still in flight, and has sent a request that we could accept in full.
\<close>

theorem lcp_opens_by_agreement:
  assumes "neg_run lcp_rcv (fst (lcp_start (lcp_new magic))) ms = Some l" "lcp_is_up l"
  shows "(\<exists>xs m ys t. ms = xs @ m # ys \<and>
      neg_run lcp_rcv (fst (lcp_start (lcp_new magic))) xs = Some t \<and>
      acks_request (lcp_view t) (snd m) \<and> lcp_last_sent_id l = lcp_last_sent_id t) \<and>
    (\<exists>xs m ys t. ms = xs @ m # ys \<and>
      neg_run lcp_rcv (fst (lcp_start (lcp_new magic))) xs = Some t \<and>
      requests (lcp_accepts t) (snd m))"
proof -
  have "\<not> n_local (lcp_view (fst (lcp_start (lcp_new magic))))"
    "\<not> n_remote (lcp_view (fst (lcp_start (lcp_new magic))))"
    by (simp_all add: lcp_view_def lcp_start_def lcp_send_config_request_def lcp_new_def Let_def)
  from lcp_neg.up_history [OF assms(1) this] assms(2) show ?thesis
    by (simp add: lcp_is_up_view) (simp add: lcp_view_def)
qed

theorem lcp_opens_by_agreement_witness:
  "\<exists>l. neg_run lcp_rcv (fst (lcp_start (lcp_new 7)))
       [(\<lambda>n. 0, cp_encode ConfigureAck 1 []), (\<lambda>n. 0, cp_encode ConfigureRequest 5 [])] = Some l \<and>
     lcp_is_up l \<and> lcp_last_sent_id l = Some 1 \<and>
     (\<exists>xs m ys. [(\<lambda>n::nat. 0::u32, cp_encode ConfigureAck 1 []), (\<lambda>n. 0, cp_encode ConfigureRequest 5 [])] =
         xs @ m # ys)"
proof -
  let ?ms = "[(\<lambda>n::nat. 0::u32, cp_encode ConfigureAck 1 []), (\<lambda>n. 0, cp_encode ConfigureRequest 5 [])]"
  obtain l where l: "neg_run lcp_rcv (fst (lcp_start (lcp_new 7))) ?ms = Some l" "lcp_is_up l"
    "lcp_last_sent_id l = Some 1"
    by (auto simp: lcp_rcv_def lcp_receive_def lcp_handle_def lcp_on_config_request_def
        lcp_start_def lcp_send_config_request_def lcp_new_def lcp_is_up_def Let_def)
  from lcp_opens_by_agreement [OF l(1,2)] l show ?thesis by blast
qed

end
