(* ===== verification/Ipcp.thy ===== *)
theory Ipcp
  imports Negotiation
begin

text \<open>
  IPCP (\<open>sstp-proto/src/ipcp.rs\<close>): the state of the \<open>Ipcp\<close> struct and each of its methods.
  An \<open>Ipv4Addr\<close> is its four octets.
\<close>

definition OPT_IP_ADDRESS :: u8 where "OPT_IP_ADDRESS = 3"
definition OPT_PRIMARY_DNS :: u8 where "OPT_PRIMARY_DNS = 129"
definition OPT_SECONDARY_DNS :: u8 where "OPT_SECONDARY_DNS = 131"

lemmas ipcp_options [simp] = OPT_IP_ADDRESS_def OPT_PRIMARY_DNS_def OPT_SECONDARY_DNS_def

type_synonym ipv4 = "u8 \<times> u8 \<times> u8 \<times> u8"

fun octets :: "ipv4 \<Rightarrow> bytes" where
  "octets (a, b, c, d) = [a, b, c, d]"

definition UNSPECIFIED :: ipv4 where "UNSPECIFIED = (0, 0, 0, 0)"

definition ip_opt :: "u8 \<Rightarrow> ipv4 \<Rightarrow> opt" where
  "ip_opt kind addr = Opt kind (octets addr)"

definition parse_ip_opt :: "opt \<Rightarrow> ipv4 option" where
  "parse_ip_opt p =
     (if length (o_data p) = 4
      then Some (o_data p ! 0, o_data p ! 1, o_data p ! 2, o_data p ! 3) else None)"

record negotiated_config =
  nc_local_ip :: "ipv4 option"
  nc_peer_ip :: "ipv4 option"
  nc_dns1 :: "ipv4 option"
  nc_dns2 :: "ipv4 option"

record ipcp_result =
  ir_to_send :: "bytes list"
  ir_up :: bool

record ipcp =
  ipcp_identifier :: u8
  ipcp_desired :: "opt list"
  ipcp_last_sent_id :: "u8 option"
  ipcp_local_up :: bool
  ipcp_remote_up :: bool
  ipcp_negotiated :: negotiated_config

definition ipcp_new :: ipcp where
  "ipcp_new =
     \<lparr>ipcp_identifier = 0,
      ipcp_desired = [ip_opt OPT_IP_ADDRESS UNSPECIFIED, ip_opt OPT_PRIMARY_DNS UNSPECIFIED,
                      ip_opt OPT_SECONDARY_DNS UNSPECIFIED],
      ipcp_last_sent_id = None, ipcp_local_up = False, ipcp_remote_up = False,
      ipcp_negotiated =
        \<lparr>nc_local_ip = None, nc_peer_ip = None, nc_dns1 = None, nc_dns2 = None\<rparr>\<rparr>"

definition ipcp_is_up :: "ipcp \<Rightarrow> bool" where
  "ipcp_is_up s \<longleftrightarrow> ipcp_local_up s \<and> ipcp_remote_up s"

definition ipcp_send_config_request :: "ipcp \<Rightarrow> ipcp \<times> bytes" where
  "ipcp_send_config_request s0 =
     (let s1 = s0\<lparr>ipcp_identifier := ipcp_identifier s0 + 1\<rparr>;
          s2 = s1\<lparr>ipcp_last_sent_id := Some (ipcp_identifier s1)\<rparr>;
          data = encode_options (ipcp_desired s2)
      in (s2, cp_encode ConfigureRequest (ipcp_identifier s2) data))"

definition ipcp_start :: "ipcp \<Rightarrow> ipcp \<times> bytes" where
  "ipcp_start s = ipcp_send_config_request s"

primrec ipcp_evaluate_peer_options ::
  "opt list \<Rightarrow> ipcp \<Rightarrow> opt list \<Rightarrow> ipcp \<times> opt list \<times> opt list" where
  \<comment> \<open>\<open>nak\<close> stays empty\<close>
  "ipcp_evaluate_peer_options [] s reject = (s, [], reject)"
| "ipcp_evaluate_peer_options (p # ps) s reject =
     (if o_kind p = OPT_IP_ADDRESS then
        (case parse_ip_opt p of
           Some addr \<Rightarrow> ipcp_evaluate_peer_options ps
             (s\<lparr>ipcp_negotiated := ipcp_negotiated s\<lparr>nc_peer_ip := Some addr\<rparr>\<rparr>) reject
         | None \<Rightarrow> ipcp_evaluate_peer_options ps s (reject @ [p]))
      else ipcp_evaluate_peer_options ps s (reject @ [p]))"

primrec ipcp_apply_nak :: "opt list \<Rightarrow> ipcp \<Rightarrow> ipcp" where
  "ipcp_apply_nak [] st = st"
| "ipcp_apply_nak (s # ss) st =
     ipcp_apply_nak ss (st\<lparr>ipcp_desired := update_kind (ipcp_desired st) s\<rparr>)"

definition ipcp_apply_reject :: "opt list \<Rightarrow> ipcp \<Rightarrow> ipcp" where
  "ipcp_apply_reject rejected s = s\<lparr>ipcp_desired := retain_kinds (ipcp_desired s) rejected\<rparr>"

primrec capture_from :: "opt list \<Rightarrow> negotiated_config \<Rightarrow> negotiated_config" where
  \<comment> \<open>the loop of \<open>capture_accepted_values\<close>\<close>
  "capture_from [] nc = nc"
| "capture_from (p # ps) nc =
     (case parse_ip_opt p of
        None \<Rightarrow> capture_from ps nc
      | Some addr \<Rightarrow>
          capture_from ps
            (if o_kind p = OPT_IP_ADDRESS then nc\<lparr>nc_local_ip := Some addr\<rparr>
             else if o_kind p = OPT_PRIMARY_DNS then nc\<lparr>nc_dns1 := Some addr\<rparr>
             else if o_kind p = OPT_SECONDARY_DNS then nc\<lparr>nc_dns2 := Some addr\<rparr>
             else nc))"

definition capture_accepted_values :: "ipcp \<Rightarrow> ipcp" where
  "capture_accepted_values s =
     s\<lparr>ipcp_negotiated := capture_from (ipcp_desired s) (ipcp_negotiated s)\<rparr>"

definition ipcp_handle :: "ipcp \<Rightarrow> cp_frame \<Rightarrow> (ipcp \<times> bytes list) option" where
  \<comment> \<open>the \<open>match frame.code\<close> of \<open>receive\<close>\<close>
  "ipcp_handle s f =
     (case f_code f of
        ConfigureRequest \<Rightarrow> do {
          peer_opts \<leftarrow> decode_options (f_data f);
          let (s1, nak, reject) = ipcp_evaluate_peer_options peer_opts s [];
          Some (if reject \<noteq> [] then
                  (s1\<lparr>ipcp_remote_up := False\<rparr>,
                   [cp_encode ConfigureReject (f_id f) (encode_options reject)])
                else if nak \<noteq> [] then
                  (s1\<lparr>ipcp_remote_up := False\<rparr>,
                   [cp_encode ConfigureNak (f_id f) (encode_options nak)])
                else
                  (s1\<lparr>ipcp_remote_up := True\<rparr>,
                   [cp_encode ConfigureAck (f_id f) (f_data f)]))
        }
      | ConfigureAck \<Rightarrow>
          Some (if ipcp_last_sent_id s = Some (f_id f)
                then (capture_accepted_values s)\<lparr>ipcp_local_up := True\<rparr> else s, [])
      | ConfigureNak \<Rightarrow>
          if ipcp_last_sent_id s = Some (f_id f) then do {
            suggested \<leftarrow> decode_options (f_data f);
            let s1 = ipcp_apply_nak suggested s;
            let (s2, request) = ipcp_send_config_request (s1\<lparr>ipcp_local_up := False\<rparr>);
            Some (s2, [request])
          } else Some (s, [])
      | ConfigureReject \<Rightarrow>
          if ipcp_last_sent_id s = Some (f_id f) then do {
            rejected \<leftarrow> decode_options (f_data f);
            let s1 = ipcp_apply_reject rejected s;
            let (s2, request) = ipcp_send_config_request (s1\<lparr>ipcp_local_up := False\<rparr>);
            Some (s2, [request])
          } else Some (s, [])
      | TerminateRequest \<Rightarrow>
          Some (s\<lparr>ipcp_local_up := False, ipcp_remote_up := False\<rparr>,
                [cp_encode TerminateAck (f_id f) []])
      | _ \<Rightarrow> Some (s, []))"

definition ipcp_receive :: "ipcp \<Rightarrow> bytes \<Rightarrow> (ipcp \<times> ipcp_result) option" where
  "ipcp_receive s0 data = do {
     decoded \<leftarrow> cp_decode data;
     case decoded of
       None \<Rightarrow> Some (s0, \<lparr>ir_to_send = [], ir_up = ipcp_is_up s0\<rparr>)
     | Some f \<Rightarrow> do {
         (s, to_send) \<leftarrow> ipcp_handle s0 f;
         Some (s, \<lparr>ir_to_send = to_send, ir_up = ipcp_is_up s\<rparr>)
       }
   }"

section \<open>Facts\<close>

definition ipcp_accepts_opt :: "opt \<Rightarrow> bool" where
  "ipcp_accepts_opt p \<longleftrightarrow> o_kind p = OPT_IP_ADDRESS \<and> length (o_data p) = 4"

definition ipcp_accepts :: "ipcp \<Rightarrow> opt list \<Rightarrow> bool" where
  "ipcp_accepts s ps \<longleftrightarrow> list_all ipcp_accepts_opt ps"

definition peer_ip_after :: "opt list \<Rightarrow> ipv4 option \<Rightarrow> ipv4 option" where
  \<comment> \<open>the last well-formed address among the options\<close>
  "peer_ip_after ps old =
     foldl (\<lambda>a p. if ipcp_accepts_opt p then parse_ip_opt p else a) old ps"

lemma parse_ip_opt [simp]: "parse_ip_opt (ip_opt k a) = Some a"
  by (cases a) (simp add: parse_ip_opt_def ip_opt_def)

lemma ip_opt_simps [simp]: "o_kind (ip_opt k a) = k" "length (o_data (ip_opt k a)) = 4"
  by (cases a; simp add: ip_opt_def)+

lemma ip_opt_ok [simp]: "opt_ok (ip_opt k a)"
  by (simp add: opt_ok_def)

lemma ipcp_evaluate_eq:
  "ipcp_evaluate_peer_options ps s reject =
     (s\<lparr>ipcp_negotiated := (ipcp_negotiated s)
          \<lparr>nc_peer_ip := peer_ip_after ps (nc_peer_ip (ipcp_negotiated s))\<rparr>\<rparr>,
      [], reject @ filter (\<lambda>p. \<not> ipcp_accepts_opt p) ps)"
  by (induction ps arbitrary: s reject)
    (auto simp: peer_ip_after_def ipcp_accepts_opt_def parse_ip_opt_def)

lemma ipcp_apply_nak_eq:
  "ipcp_apply_nak ss st = st\<lparr>ipcp_desired := foldl update_kind (ipcp_desired st) ss\<rparr>"
  by (induction ss arbitrary: st) simp_all

lemma ipcp_accepts_iff: "ipcp_accepts s ps \<longleftrightarrow> filter (\<lambda>p. \<not> ipcp_accepts_opt p) ps = []"
  by (simp add: ipcp_accepts_def filter_empty_conv list_all_iff)

definition ipcp_view :: "ipcp \<Rightarrow> neg" where
  "ipcp_view s = \<lparr>n_last = ipcp_last_sent_id s, n_local = ipcp_local_up s, n_remote = ipcp_remote_up s\<rparr>"

definition ipcp_inv :: "ipcp \<Rightarrow> bool" where
  "ipcp_inv s \<longleftrightarrow> opts_ok (ipcp_desired s) \<and> length (ipcp_desired s) \<le> 3"

definition ipcp_rcv :: "unit \<Rightarrow> ipcp \<Rightarrow> bytes \<Rightarrow> (ipcp \<times> bytes list \<times> bool) option" where
  "ipcp_rcv u s d = map_option (\<lambda>(s', r). (s', ir_to_send r, ir_up r)) (ipcp_receive s d)"

lemma ipcp_is_up_view: "ipcp_is_up s = n_up (ipcp_view s)"
  by (simp add: ipcp_is_up_def n_up_def ipcp_view_def)

lemma ipcp_new_inv: "ipcp_inv ipcp_new"
  by (simp add: ipcp_inv_def ipcp_new_def)

lemma ipcp_send_config_request_length:
  "ipcp_inv s \<Longrightarrow> length (snd (ipcp_send_config_request s)) \<le> 769"
  using length_encode_options [of "ipcp_desired s"]
  by (auto simp: ipcp_send_config_request_def ipcp_inv_def Let_def)

lemmas ipcp_handle_simps = ipcp_handle_def Let_def ipcp_evaluate_eq ipcp_apply_nak_eq
  ipcp_apply_reject_def ipcp_send_config_request_def capture_accepted_values_def

lemma runs_ipcp_handle [runs_intro]: "runs (ipcp_handle s f)"
  by (cases "f_code f") (auto simp: ipcp_handle_simps runs_def)

lemma ipcp_handle_inv: "ipcp_inv s \<Longrightarrow> ipcp_handle s f = Some (s', out) \<Longrightarrow> ipcp_inv s'"
  using retain_kinds_length [of "ipcp_desired s" "options_of (f_data f)"]
  by (cases "f_code f")
    (auto simp: ipcp_handle_simps ipcp_inv_def foldl_update_kind_ok retain_kinds_ok split: if_splits)

lemma ipcp_handle_step:
  "ipcp_handle s f = Some (s', out) \<Longrightarrow>
   ipcp_view s' = neg_step (ipcp_accepts s (options_of (f_data f))) (ipcp_identifier s + 1) f (ipcp_view s)"
  by (cases "f_code f")
    (auto simp: ipcp_handle_simps ipcp_view_def neg_step_def ipcp_accepts_iff split: if_splits)

lemma ipcp_handle_reply:
  assumes "ipcp_handle s f = Some (s', out)"
  shows "reply_ok (ipcp_accepts s (options_of (f_data f))) (ipcp_identifier s + 1) f (ipcp_view s) out"
proof (cases "f_code f")
  case ConfigureRequest
  then show ?thesis
    using assms
    by (auto simp: ipcp_handle_simps reply_ok_def ipcp_accepts_iff split: if_splits)
      (metis encode_options_eq_Nil)
qed (use assms in \<open>auto simp: ipcp_handle_simps ipcp_view_def reply_ok_def split: if_splits\<close>)

lemma ipcp_handle_sized:
  assumes "ipcp_inv s" "ipcp_handle s f = Some (s', out)" "w \<in> set out"
  shows "length w \<le> 800 + 2 * length (f_data f)"
proof (cases "f_code f")
  case ConfigureRequest
  then show ?thesis
    using assms options_of_length [of "f_data f"]
      length_encode_options_filter [of "\<lambda>p. \<not> ipcp_accepts_opt p" "options_of (f_data f)"]
    by (auto simp: ipcp_handle_simps split: if_splits)
next
  case ConfigureNak
  then show ?thesis
    using assms length_encode_options [of "foldl update_kind (ipcp_desired s) (options_of (f_data f))"]
    by (auto simp: ipcp_handle_simps ipcp_inv_def foldl_update_kind_ok split: if_splits)
next
  case ConfigureReject
  then show ?thesis
    using assms length_encode_options [of "retain_kinds (ipcp_desired s) (options_of (f_data f))"]
      retain_kinds_length [of "ipcp_desired s" "options_of (f_data f)"]
    by (auto simp: ipcp_handle_simps ipcp_inv_def retain_kinds_ok split: if_splits)
qed (use assms in \<open>auto simp: ipcp_handle_def split: if_splits\<close>)

lemma runs_ipcp_receive [runs_intro]: "runs (ipcp_receive s d)"
  unfolding ipcp_receive_def by (intro runs_intro)

lemma ipcp_receive_frame:
  "cp_decode d = Some (Some f) \<Longrightarrow> ipcp_receive s d = Some (s', r) \<longleftrightarrow>
   (\<exists>out. ipcp_handle s f = Some (s', out) \<and> r = \<lparr>ir_to_send = out, ir_up = ipcp_is_up s'\<rparr>)"
  by (auto simp: ipcp_receive_def bind_eq_Some_conv)

lemma ipcp_receive_garbage:
  "cp_decode d = Some None \<Longrightarrow>
   ipcp_receive s d = Some (s, \<lparr>ir_to_send = [], ir_up = ipcp_is_up s\<rparr>)"
  by (simp add: ipcp_receive_def)

lemma ipcp_rcv_Some:
  "ipcp_rcv x s d = Some (s', out, u) \<longleftrightarrow>
   ipcp_receive s d = Some (s', \<lparr>ir_to_send = out, ir_up = u\<rparr>)"
  by (auto simp: ipcp_rcv_def)

interpretation ipcp_neg: negotiator ipcp_rcv ipcp_view ipcp_identifier ipcp_accepts ipcp_inv
proof
  fix x s d
  show "ipcp_rcv x s d \<noteq> None"
    using runs_ipcp_receive [of s d] by (simp add: ipcp_rcv_def runs_def)
next
  fix x s d
  assume "cp_decode d = Some None"
  then show "ipcp_rcv x s d = Some (s, [], n_up (ipcp_view s))"
    by (simp add: ipcp_rcv_def ipcp_receive_garbage ipcp_is_up_view)
next
  fix x s d f s' out u
  assume f: "cp_decode d = Some (Some f)" and r: "ipcp_rcv x s d = Some (s', out, u)"
  then have h: "ipcp_handle s f = Some (s', out)" "u = n_up (ipcp_view s')"
    by (auto simp: ipcp_rcv_Some ipcp_receive_frame ipcp_is_up_view)
  then show "ipcp_view s' = neg_step (ipcp_accepts s (options_of (f_data f))) (ipcp_identifier s + 1)
      f (ipcp_view s) \<and> u = n_up (ipcp_view s')"
    using ipcp_handle_step by blast
  show "reply_ok (ipcp_accepts s (options_of (f_data f))) (ipcp_identifier s + 1) f (ipcp_view s) out"
    using h(1) by (rule ipcp_handle_reply)
next
  fix x s d s' out u
  assume i: "ipcp_inv s" and r: "ipcp_rcv x s d = Some (s', out, u)"
  obtain y where y: "cp_decode d = Some y"
    using runs_cp_decode [of d] by (auto simp: runs_def)
  show "ipcp_inv s'"
  proof (cases y)
    case None
    with y r i show ?thesis by (auto simp: ipcp_rcv_Some ipcp_receive_garbage)
  next
    case (Some f)
    with y r i show ?thesis by (auto simp: ipcp_rcv_Some ipcp_receive_frame ipcp_handle_inv)
  qed
  show "length w \<le> 800 + 2 * length d" if "w \<in> set out" for w
  proof (cases y)
    case None
    with y r that show ?thesis by (auto simp: ipcp_rcv_Some ipcp_receive_garbage)
  next
    case (Some f)
    with y r have "ipcp_handle s f = Some (s', out)"
      by (auto simp: ipcp_rcv_Some ipcp_receive_frame)
    from ipcp_handle_sized [OF i this that] y Some cp_decode_data_length [of d f] show ?thesis
      by simp
  qed
qed

definition asked_for :: "u8 \<Rightarrow> opt list \<Rightarrow> ipv4 option \<Rightarrow> ipv4 option" where
  \<comment> \<open>the address that the options ask for under a kind, \<open>old\<close> when there is none\<close>
  "asked_for k ps old =
     foldl (\<lambda>a p. if o_kind p = k \<and> length (o_data p) = 4 then parse_ip_opt p else a) old ps"

lemma capture_from_eq:
  "capture_from ps nc =
     nc\<lparr>nc_local_ip := asked_for OPT_IP_ADDRESS ps (nc_local_ip nc),
        nc_dns1 := asked_for OPT_PRIMARY_DNS ps (nc_dns1 nc),
        nc_dns2 := asked_for OPT_SECONDARY_DNS ps (nc_dns2 nc)\<rparr>"
  by (induction ps arbitrary: nc) (simp_all add: asked_for_def parse_ip_opt_def)

section \<open>Properties\<close>

text \<open>
  C13. IPCP refines the abstract negotiation in the same way as LCP: \<open>receive\<close> never panics,
  ignores what is no frame, and otherwise moves the flags as \<open>neg_step\<close> says and answers as
  \<open>reply_ok\<close> says, at most once.
\<close>

theorem ipcp_refines_negotiation:
  "\<exists>s' r. ipcp_receive s d = Some (s', r) \<and> ir_up r = ipcp_is_up s' \<and> length (ir_to_send r) \<le> 1 \<and>
     (case cp_decode d of
        Some (Some f) \<Rightarrow>
          (let acceptable = ipcp_accepts s (options_of (f_data f));
               fresh = ipcp_identifier s + 1
           in ipcp_view s' = neg_step acceptable fresh f (ipcp_view s) \<and>
              reply_ok acceptable fresh f (ipcp_view s) (ir_to_send r))
      | _ \<Rightarrow> s' = s \<and> ir_to_send r = [])"
proof -
  obtain s' r where r: "ipcp_receive s d = Some (s', r)"
    using runs_ipcp_receive [of s d] by (auto simp: runs_def)
  then have rcv: "ipcp_rcv () s d = Some (s', ir_to_send r, ir_up r)"
    by (simp add: ipcp_rcv_def)
  obtain x where x: "cp_decode d = Some x"
    using runs_cp_decode [of d] by (auto simp: runs_def)
  have "ir_up r = ipcp_is_up s' \<and> length (ir_to_send r) \<le> 1"
    using ipcp_neg.up_flag [OF rcv] ipcp_neg.at_most_one_reply [OF rcv] by (simp add: ipcp_is_up_view)
  moreover have "case cp_decode d of
        Some (Some f) \<Rightarrow>
          (let acceptable = ipcp_accepts s (options_of (f_data f));
               fresh = ipcp_identifier s + 1
           in ipcp_view s' = neg_step acceptable fresh f (ipcp_view s) \<and>
              reply_ok acceptable fresh f (ipcp_view s) (ir_to_send r))
      | _ \<Rightarrow> s' = s \<and> ir_to_send r = []"
    using x r ipcp_neg.step [OF _ rcv] ipcp_neg.reply [OF _ rcv]
    by (cases x) (auto simp: Let_def ipcp_receive_garbage)
  ultimately show ?thesis using r by blast
qed

text \<open>
  C14. The addresses handed to the tunnel are the negotiated ones: our own address and the DNS
  servers change only when the peer acknowledges the request in flight, and then to what that
  request asks for; the peer's address changes only with a request of the peer, to the last
  well-formed address in it.
\<close>

theorem ipcp_captures_negotiated_values:
  assumes "ipcp_receive s d = Some (s', r)"
  shows "(let old = ipcp_negotiated s; new = ipcp_negotiated s'; ps = ipcp_desired s in
    (if acks_request (ipcp_view s) d
     then nc_local_ip new = asked_for OPT_IP_ADDRESS ps (nc_local_ip old) \<and>
       nc_dns1 new = asked_for OPT_PRIMARY_DNS ps (nc_dns1 old) \<and>
       nc_dns2 new = asked_for OPT_SECONDARY_DNS ps (nc_dns2 old) \<and> ipcp_local_up s'
     else nc_local_ip new = nc_local_ip old \<and> nc_dns1 new = nc_dns1 old \<and> nc_dns2 new = nc_dns2 old) \<and>
    (case cp_decode d of
       Some (Some f) \<Rightarrow> nc_peer_ip new =
         (if f_code f = ConfigureRequest then peer_ip_after (options_of (f_data f)) (nc_peer_ip old)
          else nc_peer_ip old)
     | _ \<Rightarrow> nc_peer_ip new = nc_peer_ip old))"
proof -
  obtain x where x: "cp_decode d = Some x"
    using runs_cp_decode [of d] by (auto simp: runs_def)
  show ?thesis
  proof (cases x)
    case None
    with x assms show ?thesis
      by (auto simp: ipcp_receive_garbage acks_request_def Let_def)
  next
    case (Some f)
    then have f: "cp_decode d = Some (Some f)" using x by simp
    then obtain out where h: "ipcp_handle s f = Some (s', out)"
      using assms by (auto simp: ipcp_receive_frame)
    have a: "acks_request (ipcp_view s) d \<longleftrightarrow>
        f_code f = ConfigureAck \<and> ipcp_last_sent_id s = Some (f_id f)"
      by (auto simp: acks_request_def f ipcp_view_def)
    show ?thesis
      using h unfolding a by (cases "f_code f")
        (auto simp: ipcp_handle_simps f capture_from_eq split: if_splits)
  qed
qed

theorem ipcp_captures_negotiated_values_witness:
  "\<exists>s' r. ipcp_receive (fst (ipcp_start ipcp_new)) (cp_encode ConfigureAck 1 []) = Some (s', r) \<and>
     nc_local_ip (ipcp_negotiated s') = Some UNSPECIFIED"
proof -
  let ?s = "fst (ipcp_start ipcp_new)"
  obtain s' r where r: "ipcp_receive ?s (cp_encode ConfigureAck 1 []) = Some (s', r)"
    using runs_ipcp_receive [of ?s "cp_encode ConfigureAck 1 []"] by (auto simp: runs_def)
  have s: "ipcp_last_sent_id ?s = Some 1"
    "ipcp_desired ?s = [ip_opt 3 UNSPECIFIED, ip_opt 129 UNSPECIFIED, ip_opt 131 UNSPECIFIED]"
    by (simp_all add: ipcp_start_def ipcp_send_config_request_def ipcp_new_def Let_def)
  then have "acks_request (ipcp_view ?s) (cp_encode ConfigureAck 1 [])"
    by (simp add: acks_request_def ipcp_view_def)
  with ipcp_captures_negotiated_values [OF r] have
    "nc_local_ip (ipcp_negotiated s') = Some UNSPECIFIED"
    by (simp add: Let_def s asked_for_def)
  with r show ?thesis by blast
qed

text \<open>
  The exchange with a server that assigns addresses succeeds, whatever the addresses, the
  identifier of the server's own request, and whether that request comes first or last: after
  a Configure-Nak with the assignment, the acknowledgement of the request that follows, and a
  request with the server's address, IPCP is up with exactly these addresses.
\<close>

theorem ipcp_assigns_addresses:
  "let assigned = encode_options [ip_opt OPT_IP_ADDRESS ip, ip_opt OPT_PRIMARY_DNS dns1,
                                  ip_opt OPT_SECONDARY_DNS dns2];
       nak = ((), cp_encode ConfigureNak 1 assigned);
       ack = ((), cp_encode ConfigureAck 2 assigned);
       req = ((), cp_encode ConfigureRequest q (encode_options [ip_opt OPT_IP_ADDRESS peer]));
       start = fst (ipcp_start ipcp_new)
   in \<exists>s s'. neg_run ipcp_rcv start [nak, ack, req] = Some s \<and>
        neg_run ipcp_rcv start [req, nak, ack] = Some s' \<and>
        ipcp_is_up s \<and> ipcp_is_up s' \<and> ipcp_negotiated s' = ipcp_negotiated s \<and>
        ipcp_negotiated s = \<lparr>nc_local_ip = Some ip, nc_peer_ip = Some peer,
                             nc_dns1 = Some dns1, nc_dns2 = Some dns2\<rparr>"
proof -
  let ?as = "[ip_opt 3 ip, ip_opt 129 dns1, ip_opt 131 dns2]"
  have o: "options_of (encode_options ?as) = ?as"
    "options_of (encode_options [ip_opt 3 peer]) = [ip_opt 3 peer]"
    using options_of_encode [of ?as "[]"] options_of_encode [of "[ip_opt 3 peer]" "[]"]
    by (simp_all del: encode_options.simps)
  have l: "length (encode_options ?as) \<le> 65531" "length (encode_options [ip_opt 3 peer]) \<le> 65531"
    by simp_all
  have u: "(ip_opt k a)\<lparr>o_data := o_data (ip_opt j b)\<rparr> = ip_opt k b" for k j a b
    by (simp add: ip_opt_def Opt_def)
  note sims = ipcp_rcv_def ipcp_receive_def ipcp_handle_simps ipcp_start_def ipcp_new_def
    ipcp_is_up_def o l capture_from_eq asked_for_def peer_ip_after_def ipcp_accepts_opt_def
  show ?thesis
    by (simp add: sims u del: encode_options.simps)
qed

text \<open>
  IPCP opens only by agreement: when it is up, the peer has acknowledged the very request
  of ours that is still in flight, and has sent a request for nothing but an address.
\<close>

theorem ipcp_opens_by_agreement:
  assumes "neg_run ipcp_rcv (fst (ipcp_start ipcp_new)) ms = Some s" "ipcp_is_up s"
  shows "(\<exists>xs m ys t. ms = xs @ m # ys \<and>
      neg_run ipcp_rcv (fst (ipcp_start ipcp_new)) xs = Some t \<and>
      acks_request (ipcp_view t) (snd m) \<and> ipcp_last_sent_id s = ipcp_last_sent_id t) \<and>
    (\<exists>xs m ys t. ms = xs @ m # ys \<and>
      neg_run ipcp_rcv (fst (ipcp_start ipcp_new)) xs = Some t \<and>
      requests (ipcp_accepts t) (snd m))"
proof -
  have "\<not> n_local (ipcp_view (fst (ipcp_start ipcp_new)))"
    "\<not> n_remote (ipcp_view (fst (ipcp_start ipcp_new)))"
    by (simp_all add: ipcp_view_def ipcp_start_def ipcp_send_config_request_def ipcp_new_def Let_def)
  from ipcp_neg.up_history [OF assms(1) this] assms(2) show ?thesis
    by (simp add: ipcp_is_up_view) (simp add: ipcp_view_def)
qed

theorem ipcp_opens_by_agreement_witness:
  "\<exists>s. neg_run ipcp_rcv (fst (ipcp_start ipcp_new))
       [((), cp_encode ConfigureAck 1 []), ((), cp_encode ConfigureRequest 5 [])] = Some s \<and>
     ipcp_is_up s \<and> ipcp_last_sent_id s = Some 1 \<and>
     (\<exists>xs m ys. [((), cp_encode ConfigureAck 1 []), ((), cp_encode ConfigureRequest 5 [])] = xs @ m # ys)"
proof -
  let ?ms = "[((), cp_encode ConfigureAck 1 []), ((), cp_encode ConfigureRequest 5 [])]"
  obtain s where s: "neg_run ipcp_rcv (fst (ipcp_start ipcp_new)) ?ms = Some s" "ipcp_is_up s"
    "ipcp_last_sent_id s = Some 1"
    by (auto simp: ipcp_rcv_def ipcp_receive_def ipcp_handle_simps ipcp_start_def ipcp_new_def ipcp_is_up_def)
  from ipcp_opens_by_agreement [OF s(1,2)] s show ?thesis by blast
qed

end
