(* ===== verification/Chap.thy ===== *)
theory Chap
  imports Rust_Str
begin

text \<open>
  MS-CHAPv2 (\<open>sstp-proto/src/chap.rs\<close>). The hash functions and the cipher are crates that the
  code calls: a record of functions, of which the code relies on the output lengths alone
  (\<open>crypto_ok\<close>). An array of a fixed size is a byte list of that length; feeding a hasher
  piece by piece digests the concatenation.
\<close>

record crypto =
  c_md4 :: "bytes \<Rightarrow> bytes"
  c_sha1 :: "bytes \<Rightarrow> bytes"
  c_sha256 :: "bytes \<Rightarrow> bytes"
  c_hmac_sha1 :: "bytes \<Rightarrow> bytes \<Rightarrow> bytes"
  c_hmac_sha256 :: "bytes \<Rightarrow> bytes \<Rightarrow> bytes"
  c_des :: "bytes \<Rightarrow> bytes \<Rightarrow> bytes"

definition crypto_ok :: "crypto \<Rightarrow> bool" where
  "crypto_ok cr \<longleftrightarrow>
     (\<forall>m. length (c_md4 cr m) = 16) \<and> (\<forall>m. length (c_sha1 cr m) = 20) \<and>
     (\<forall>m. length (c_sha256 cr m) = 32) \<and>
     (\<forall>k m. length (c_hmac_sha1 cr k m) = 20) \<and> (\<forall>k m. length (c_hmac_sha256 cr k m) = 32) \<and>
     (\<forall>k m. length (c_des cr k m) = 8)"

definition u16_to_le :: "u16 \<Rightarrow> bytes" where
  "u16_to_le v = [ucast v, ucast (drop_bit 8 v)]"

definition nt_hash_input :: "rstr \<Rightarrow> bytes" where
  \<comment> \<open>the password re-encoded as UTF-16LE\<close>
  "nt_hash_input password = concat (map u16_to_le (utf16 password))"

definition nt_password_hash :: "crypto \<Rightarrow> rstr \<Rightarrow> bytes" where
  "nt_password_hash cr password = c_md4 cr (nt_hash_input password)"

definition BACKSLASH :: nat where "BACKSLASH = 92"

definition challenge_hash :: "crypto \<Rightarrow> bytes \<Rightarrow> bytes \<Rightarrow> rstr \<Rightarrow> bytes option" where
  "challenge_hash cr peer_challenge auth_challenge username =
     (let user = after_last BACKSLASH username;
          digest = c_sha1 cr (peer_challenge @ auth_challenge @ utf8 user)
      in do {
        first \<leftarrow> subslice digest 0 8;
        copy_into (replicate 8 0) 0 8 first
      })"

definition get7bits :: "bytes \<Rightarrow> nat \<Rightarrow> u8 option" where
  "get7bits input start_bit =
     (let byte_idx = start_bit div 8
      in do {
        hi \<leftarrow> idx input byte_idx;
        lo \<leftarrow> idx input (byte_idx + 1);
        let word = u16_from_be hi lo;
        let shifted = drop_bit (15 - (start_bit mod 8 + 7)) word;
        Some (ucast (shifted AND 0xFE))
      })"

definition count_ones :: "u8 \<Rightarrow> nat" where
  "count_ones b = length (filter (bit b) [0..<8])"

definition set_odd_parity :: "u8 \<Rightarrow> u8" where
  "set_odd_parity b = (if even (count_ones b) then b OR 1 else b)"

primrec make_key_slots :: "bytes \<Rightarrow> nat list \<Rightarrow> bytes option" where
  \<comment> \<open>the loop over the slots of the key\<close>
  "make_key_slots key [] = Some []"
| "make_key_slots key (i # ks) = do {
     b \<leftarrow> get7bits key (i * 7);
     slots \<leftarrow> make_key_slots key ks;
     Some (set_odd_parity b # slots)
   }"

definition make_key :: "bytes \<Rightarrow> bytes option" where
  "make_key key_with_lookahead = make_key_slots key_with_lookahead [0, 1, 2, 3, 4, 5, 6, 7]"

definition des_encrypt_block :: "crypto \<Rightarrow> bytes \<Rightarrow> bytes \<Rightarrow> bytes option" where
  \<comment> \<open>\<open>Des::new_from_slice(key).expect(..)\<close> panics on a key of another length\<close>
  "des_encrypt_block cr key clear = (if length key = 8 then Some (c_des cr key clear) else None)"

primrec response_blocks :: "crypto \<Rightarrow> bytes \<Rightarrow> bytes \<Rightarrow> (nat \<times> nat) list \<Rightarrow> bytes \<Rightarrow> bytes option" where
  \<comment> \<open>the loop over the three keys\<close>
  "response_blocks cr challenge zpadded [] response = Some response"
| "response_blocks cr challenge zpadded (p # ps) response = do {
     tail \<leftarrow> subslice zpadded (snd p) (length zpadded);
     key \<leftarrow> make_key tail;
     block \<leftarrow> des_encrypt_block cr key challenge;
     response' \<leftarrow> copy_into response (fst p * 8) (fst p * 8 + 8) block;
     response_blocks cr challenge zpadded ps response'
   }"

definition challenge_response :: "crypto \<Rightarrow> bytes \<Rightarrow> bytes \<Rightarrow> bytes option" where
  "challenge_response cr challenge password_hash = do {
     zpadded \<leftarrow> copy_into (replicate 24 0) 0 16 password_hash;
     response_blocks cr challenge zpadded [(0, 0), (1, 7), (2, 14)] (replicate 24 0)
   }"

definition generate_nt_response :: "crypto \<Rightarrow> bytes \<Rightarrow> bytes \<Rightarrow> rstr \<Rightarrow> rstr \<Rightarrow> bytes option" where
  "generate_nt_response cr auth_challenge peer_challenge username password = do {
     challenge \<leftarrow> challenge_hash cr peer_challenge auth_challenge username;
     let pw_hash = nt_password_hash cr password;
     challenge_response cr challenge pw_hash
   }"

definition AUTH_RESPONSE_MAGIC1 :: bytes where
  "AUTH_RESPONSE_MAGIC1 =
    [0x4D, 0x61, 0x67, 0x69, 0x63, 0x20, 0x73, 0x65, 0x72, 0x76, 0x65, 0x72, 0x20, 0x74, 0x6F, 0x20,
     0x63, 0x6C, 0x69, 0x65, 0x6E, 0x74, 0x20, 0x73, 0x69, 0x67, 0x6E, 0x69, 0x6E, 0x67, 0x20, 0x63,
     0x6F, 0x6E, 0x73, 0x74, 0x61, 0x6E, 0x74]"

definition AUTH_RESPONSE_MAGIC2 :: bytes where
  "AUTH_RESPONSE_MAGIC2 =
    [0x50, 0x61, 0x64, 0x20, 0x74, 0x6F, 0x20, 0x6D, 0x61, 0x6B, 0x65, 0x20, 0x69, 0x74, 0x20, 0x64,
     0x6F, 0x20, 0x6D, 0x6F, 0x72, 0x65, 0x20, 0x74, 0x68, 0x61, 0x6E, 0x20, 0x6F, 0x6E, 0x65, 0x20,
     0x69, 0x74, 0x65, 0x72, 0x61, 0x74, 0x69, 0x6F, 0x6E]"

definition generate_authenticator_response ::
  "crypto \<Rightarrow> rstr \<Rightarrow> bytes \<Rightarrow> bytes \<Rightarrow> bytes \<Rightarrow> rstr \<Rightarrow> rstr option" where
  "generate_authenticator_response cr password nt_response peer_challenge auth_challenge username =
     (let pw_hash = nt_password_hash cr password;
          pw_hash_hash = c_md4 cr pw_hash;
          digest1 = c_sha1 cr (pw_hash_hash @ nt_response @ AUTH_RESPONSE_MAGIC1)
      in do {
        challenge \<leftarrow> challenge_hash cr peer_challenge auth_challenge username;
        let digest2 = c_sha1 cr (digest1 @ challenge @ AUTH_RESPONSE_MAGIC2);
        Some (lit ''S='' @ concat (map hex_upper digest2))
      })"

section \<open>Facts\<close>

lemma crypto_lengths:
  assumes "crypto_ok cr"
  shows "length (c_md4 cr m) = 16" "length (c_sha1 cr m) = 20" "length (c_sha256 cr m) = 32"
    "length (c_hmac_sha1 cr k m) = 20"
    "length (c_hmac_sha256 cr k m) = 32" "length (c_des cr k m) = 8"
  using assms by (simp_all add: crypto_ok_def)

definition toy_crypto :: crypto where
  \<comment> \<open>a record with these lengths, to run the definitions on\<close>
  "toy_crypto =
     \<lparr>c_md4 = \<lambda>m. take 16 (m @ replicate 16 4), c_sha1 = \<lambda>m. take 20 (m @ replicate 20 1),
      c_sha256 = \<lambda>m. take 32 (m @ replicate 32 2),
      c_hmac_sha1 = \<lambda>k m. take 20 (k @ replicate 20 11),
      c_hmac_sha256 = \<lambda>k m. take 32 (k @ replicate 32 25),
      c_des = \<lambda>k m. take 8 (k @ replicate 8 0)\<rparr>"

lemma toy_crypto_ok: "crypto_ok toy_crypto"
  by (auto simp: crypto_ok_def toy_crypto_def)

subsection \<open>The DES keys\<close>

definition msb_bit :: "bytes \<Rightarrow> nat \<Rightarrow> bool" where
  \<comment> \<open>the \<open>n\<close>-th bit of a byte string, the most significant bit of the first byte first\<close>
  "msb_bit xs n = bit (xs ! (n div 8)) (7 - n mod 8)"

lemma divmod8: "n = a * 8 + b \<Longrightarrow> b < 8 \<Longrightarrow> n div 8 = a \<and> n mod 8 = (b :: nat)"
  by simp

lemma divmod7: "n = a * 7 + b \<Longrightarrow> b < 7 \<Longrightarrow> n div 7 = a \<and> n mod 7 = (b :: nat)"
  by simp

lemma get7bits_Some:
  assumes "start_bit div 8 + 1 < length input"
  obtains b where "get7bits input start_bit = Some b" "\<not> bit b 0"
    "\<And>j. j < 7 \<Longrightarrow> bit b (7 - j) = msb_bit input (start_bit + j)"
proof -
  define q where "q = start_bit div 8"
  define r where "r = start_bit mod 8"
  have s: "start_bit = q * 8 + r" "r < 8"
    by (simp_all add: q_def r_def)
  define w where "w = u16_from_be (input ! q) (input ! Suc q)"
  define b where "b = (ucast (drop_bit (8 - r) w AND 0xFE) :: u8)"
  have "get7bits input start_bit = Some b"
    using assms by (simp add: get7bits_def b_def w_def q_def r_def Let_def)
  moreover have fe: "bit (0xFE :: u16) n \<longleftrightarrow> 1 \<le> n \<and> n \<le> 7" for n
  proof -
    have "(0xFE :: u16) = mask 8 AND NOT 1" by code_simp
    moreover have "bit (mask 8 AND NOT 1 :: u16) n \<longleftrightarrow> 1 \<le> n \<and> n \<le> 7"
      unfolding bit_and_iff bit_not_iff bit_mask_iff bit_1_iff by auto
    ultimately show ?thesis by metis
  qed
  then have "\<not> bit b 0"
    by (simp add: b_def bit_simps)
  moreover have "bit b (7 - j) = msb_bit input (start_bit + j)" if "j < 7" for j
  proof -
    have "bit b (7 - j) = bit w (8 - r + (7 - j))"
      using that unfolding b_def bit_ucast_iff bit_and_iff bit_drop_bit_eq fe comp_def by auto
    also have "\<dots> = msb_bit input (start_bit + j)"
    proof (cases "r + j < 8")
      case True
      then have "(start_bit + j) div 8 = q" "(start_bit + j) mod 8 = r + j"
        using divmod8 [of "start_bit + j" q "r + j"] by (simp_all add: s)
      moreover have "8 - r + (7 - j) = 8 + (7 - (r + j))"
        using True that by linarith
      ultimately show ?thesis
        using True by (auto simp: w_def u16_from_be_def msb_bit_def bit_simps)
    next
      case False
      then have e: "start_bit + j = Suc q * 8 + (r + j - 8)" "r + j - 8 < 8"
        using s that by auto
      then have "(start_bit + j) div 8 = Suc q" "(start_bit + j) mod 8 = r + j - 8"
        using divmod8 [OF e] by simp_all
      moreover have "8 - r + (7 - j) = 7 - (r + j - 8)" "8 - r + (7 - j) < 8"
        using False that s(2) by linarith+
      ultimately show ?thesis
        by (auto simp: w_def u16_from_be_def msb_bit_def bit_simps)
    qed
    finally show ?thesis .
  qed
  ultimately show thesis by (intro that) auto
qed


lemma set_odd_parity_bit: "0 < n \<Longrightarrow> bit (set_odd_parity b) n = bit b n"
  by (auto simp: set_odd_parity_def bit_simps)

lemma odd_set_odd_parity:
  assumes "\<not> bit b 0"
  shows "odd (count_ones (set_odd_parity b))"
proof (cases "even (count_ones b)")
  case True
  have u: "[0..<8] = 0 # [1..<8]" by (simp add: upt_rec)
  have "filter (bit (b OR 1)) [1..<8] = filter (bit b) [1..<8]"
    by (rule filter_cong) (auto simp: bit_simps)
  then have "count_ones (b OR 1) = Suc (count_ones b)"
    unfolding count_ones_def u using assms by (simp add: bit_simps)
  with True show ?thesis by (simp add: set_odd_parity_def)
qed (simp add: set_odd_parity_def)

definition des_key_of :: "bytes \<Rightarrow> bytes \<Rightarrow> bool" where
  \<comment> \<open>\<open>out\<close> holds the first 56 bits of \<open>key\<close>, seven to a byte above an odd parity bit\<close>
  "des_key_of key out \<longleftrightarrow>
     length out = 8 \<and> (\<forall>i. i < 8 \<longrightarrow> odd (count_ones (out ! i))) \<and>
     (\<forall>n. n < 56 \<longrightarrow> msb_bit out (n div 7 * 8 + n mod 7) = msb_bit key n)"

lemma make_key_slots_Some:
  assumes "\<forall>i\<in>set ks. i < 8" "8 \<le> length key"
  shows "\<exists>slots. make_key_slots key ks = Some slots \<and> length slots = length ks \<and>
    (\<forall>m. m < length ks \<longrightarrow> odd (count_ones (slots ! m)) \<and>
      (\<forall>j. j < 7 \<longrightarrow> bit (slots ! m) (7 - j) = msb_bit key (ks ! m * 7 + j)))"
  using assms(1)
proof (induction ks)
  case (Cons i ks)
  have "i * 7 div 8 + 1 < length key"
    using Cons.prems assms(2) by auto
  then obtain b where b: "get7bits key (i * 7) = Some b" "\<not> bit b 0"
    "\<And>j. j < 7 \<Longrightarrow> bit b (7 - j) = msb_bit key (i * 7 + j)"
    by (rule get7bits_Some) (rule that)
  from Cons obtain slots where s: "make_key_slots key ks = Some slots" "length slots = length ks"
    "\<forall>m. m < length ks \<longrightarrow> odd (count_ones (slots ! m)) \<and>
      (\<forall>j. j < 7 \<longrightarrow> bit (slots ! m) (7 - j) = msb_bit key (ks ! m * 7 + j))"
    by auto
  show ?case
  proof (intro exI conjI allI impI)
    show "make_key_slots key (i # ks) = Some (set_odd_parity b # slots)"
      by (simp add: b(1) s(1))
    show "length (set_odd_parity b # slots) = length (i # ks)"
      by (simp add: s(2))
    fix m
    assume m: "m < length (i # ks)"
    show "odd (count_ones ((set_odd_parity b # slots) ! m))"
      using m s(3) b(2) by (cases m) (simp_all add: odd_set_odd_parity)
    fix j :: nat
    assume "j < 7"
    then show "bit ((set_odd_parity b # slots) ! m) (7 - j) = msb_bit key ((i # ks) ! m * 7 + j)"
      using m s(3) b(3) by (cases m) (simp_all add: set_odd_parity_bit)
  qed
qed simp

lemma make_key_Some:
  assumes "8 \<le> length key"
  shows "\<exists>out. make_key key = Some out \<and> des_key_of key out"
proof -
  let ?ks = "[0, 1, 2, 3, 4, 5, 6, 7] :: nat list"
  obtain out where o: "make_key_slots key ?ks = Some out" "length out = 8"
    and p: "\<And>m. m < 8 \<Longrightarrow> odd (count_ones (out ! m))"
    and b: "\<And>m j. m < 8 \<Longrightarrow> j < 7 \<Longrightarrow> bit (out ! m) (7 - j) = msb_bit key (?ks ! m * 7 + j)"
    using make_key_slots_Some [of ?ks key] assms by auto
  have k: "?ks ! m = m" if "m < 8" for m
  proof -
    have "?ks = [0..<8]" by (simp add: upt_rec)
    then show ?thesis using that by simp
  qed
  have "msb_bit out (n div 7 * 8 + n mod 7) = msb_bit key n" if "n < 56" for n
  proof -
    have "n div 7 < 8" "n mod 7 < 7" using that by auto
    from b [OF this] k [OF this(1)] show ?thesis
      using divmod8 [of "n div 7 * 8 + n mod 7" "n div 7" "n mod 7"] \<open>n mod 7 < 7\<close>
      by (simp add: msb_bit_def)
  qed
  with o p show ?thesis
    by (auto simp: make_key_def des_key_of_def)
qed

lemma odd_parity_eqI:
  assumes "odd (count_ones a)" "odd (count_ones b)" "\<And>n. 0 < n \<Longrightarrow> n < 8 \<Longrightarrow> bit a n = bit b n"
  shows "a = b"
proof -
  have u: "[0..<8] = 0 # [1..<8]" by (simp add: upt_rec)
  have "filter (bit a) [1..<8] = filter (bit b) [1..<8]"
    by (rule filter_cong) (auto simp: assms(3))
  moreover from assms(1, 2) have "bit a 0 = bit b 0" if "length (filter (bit a) [1..<8]) = length (filter (bit b) [1..<8])"
    using that unfolding count_ones_def u by (auto split: if_splits)
  ultimately have "bit a 0 = bit b 0" by simp
  then have "bit a n = bit b n" if "n < 8" for n
    using assms(3) that by (cases n) auto
  then show ?thesis
    by (intro bit_word_eqI) simp
qed

lemma des_key_of_unique:
  assumes "des_key_of key out" "des_key_of key' out'" "\<And>n. n < 56 \<Longrightarrow> msb_bit key n = msb_bit key' n"
  shows "out = out'"
proof (rule nth_equalityI)
  show "length out = length out'"
    using assms(1, 2) by (simp add: des_key_of_def)
  fix i
  assume "i < length out"
  then have i: "i < 8"
    using assms(1) by (simp add: des_key_of_def)
  show "out ! i = out' ! i"
  proof (rule odd_parity_eqI)
    show "odd (count_ones (out ! i))" "odd (count_ones (out' ! i))"
      using assms(1, 2) i by (auto simp: des_key_of_def)
    fix n :: nat
    assume n: "0 < n" "n < 8"
    define m where "m = i * 7 + (7 - n)"
    have m: "m < 56" "m div 7 = i" "m mod 7 = 7 - n"
      using i n divmod7 [of m i "7 - n"] by (simp_all add: m_def)
    then have "msb_bit out (i * 8 + (7 - n)) = msb_bit out' (i * 8 + (7 - n))"
      using assms by (metis des_key_of_def)
    then show "bit (out ! i) n = bit (out' ! i) n"
      using n divmod8 [of "i * 8 + (7 - n)" i "7 - n"] by (simp add: msb_bit_def)
  qed
qed

subsection \<open>The responses\<close>

lemma challenge_hash_eq:
  "crypto_ok cr \<Longrightarrow> challenge_hash cr pc ac username =
     Some (take 8 (c_sha1 cr (pc @ ac @ utf8 (after_last BACKSLASH username))))"
  by (simp add: challenge_hash_def crypto_lengths Let_def)

lemma runs_challenge_hash [runs_intro]: "crypto_ok cr \<Longrightarrow> runs (challenge_hash cr pc ac username)"
  by (simp add: challenge_hash_eq)

lemma response_blocks_eq:
  assumes "crypto_ok cr" "length z = 24"
    and "make_key z = Some k1" "make_key (drop 7 z) = Some k2" "make_key (drop 14 z) = Some k3"
    and "length k1 = 8" "length k2 = 8" "length k3 = 8"
  shows "response_blocks cr ch z [(0, 0), (1, 7), (2, 14)] (replicate 24 0) =
    Some (c_des cr k1 ch @ c_des cr k2 ch @ c_des cr k3 ch)"
  using assms by (simp add: des_encrypt_block_def crypto_lengths)

lemma challenge_response_eq:
  assumes "crypto_ok cr" "length hash = 16"
  shows "\<exists>k1 k2 k3. challenge_response cr ch hash = Some (c_des cr k1 ch @ c_des cr k2 ch @ c_des cr k3 ch) \<and>
    des_key_of (hash @ replicate 8 0) k1 \<and> des_key_of (drop 7 (hash @ replicate 8 0)) k2 \<and>
    des_key_of (drop 14 (hash @ replicate 8 0)) k3"
proof -
  let ?z = "hash @ replicate 8 0"
  obtain k1 where k1: "make_key ?z = Some k1" "des_key_of ?z k1"
    using make_key_Some [of ?z] assms(2) by auto
  obtain k2 where k2: "make_key (drop 7 ?z) = Some k2" "des_key_of (drop 7 ?z) k2"
    using make_key_Some [of "drop 7 ?z"] assms(2) by auto
  obtain k3 where k3: "make_key (drop 14 ?z) = Some k3" "des_key_of (drop 14 ?z) k3"
    using make_key_Some [of "drop 14 ?z"] assms(2) by auto
  have l: "length k1 = 8" "length k2 = 8" "length k3 = 8"
    using k1 k2 k3 by (simp_all add: des_key_of_def)
  have z: "copy_into (replicate 24 0) 0 16 hash = Some ?z"
    using assms(2) by simp
  have "challenge_response cr ch hash = Some (c_des cr k1 ch @ c_des cr k2 ch @ c_des cr k3 ch)"
    using response_blocks_eq [OF assms(1) _ k1(1) k2(1) k3(1) l] assms(2)
    by (simp only: challenge_response_def z Option.bind.bind_lunit) simp
  with k1 k2 k3 show ?thesis by blast
qed

lemma generate_nt_response_eq:
  assumes "crypto_ok cr"
  shows "generate_nt_response cr ac pc username password =
    challenge_response cr (take 8 (c_sha1 cr (pc @ ac @ utf8 (after_last BACKSLASH username))))
      (nt_password_hash cr password)"
  by (simp add: generate_nt_response_def challenge_hash_eq assms Let_def)

lemma generate_nt_response_length:
  assumes "crypto_ok cr"
  obtains r where "generate_nt_response cr ac pc username password = Some r" "length r = 24"
proof -
  have "length (nt_password_hash cr password) = 16"
    by (simp add: nt_password_hash_def crypto_lengths assms)
  from challenge_response_eq [OF assms this] obtain k1 k2 k3 where
    "generate_nt_response cr ac pc username password =
      Some (c_des cr k1 (take 8 (c_sha1 cr (pc @ ac @ utf8 (after_last BACKSLASH username)))) @
        c_des cr k2 (take 8 (c_sha1 cr (pc @ ac @ utf8 (after_last BACKSLASH username)))) @
        c_des cr k3 (take 8 (c_sha1 cr (pc @ ac @ utf8 (after_last BACKSLASH username)))))"
    by (metis generate_nt_response_eq [OF assms])
  then show thesis by (rule that) (simp add: crypto_lengths assms)
qed

lemma generate_authenticator_response_eq:
  assumes "crypto_ok cr"
  shows "generate_authenticator_response cr password nt pc ac username =
    Some (lit ''S='' @ concat (map hex_upper (c_sha1 cr
      (c_sha1 cr (c_md4 cr (nt_password_hash cr password) @ nt @ AUTH_RESPONSE_MAGIC1) @
       take 8 (c_sha1 cr (pc @ ac @ utf8 (after_last BACKSLASH username))) @ AUTH_RESPONSE_MAGIC2))))"
  by (simp add: generate_authenticator_response_def challenge_hash_eq assms Let_def)

lemma generate_authenticator_response_Some:
  assumes "crypto_ok cr"
  obtains digest where
    "generate_authenticator_response cr password nt pc ac username = Some (lit ''S='' @ concat (map hex_upper digest))"
    "length digest = 20"
  using that [OF generate_authenticator_response_eq [OF assms]] by (simp add: crypto_lengths assms)

lemma runs_generate_nt_response [runs_intro]:
  "crypto_ok cr \<Longrightarrow> runs (generate_nt_response cr ac pc username password)"
  by (metis generate_nt_response_length runs_Some)

lemma runs_generate_authenticator_response [runs_intro]:
  "crypto_ok cr \<Longrightarrow> runs (generate_authenticator_response cr password nt pc ac username)"
  by (metis generate_authenticator_response_Some runs_Some)

section \<open>Properties\<close>

text \<open>
  \<open>make_key\<close> expands seven key bytes, with at least one byte behind them, into a DES key:
  eight bytes of odd parity that carry the 56 key bits in order, seven to a byte. It reads
  nothing out of bounds, and the bytes behind the seven have no effect.
\<close>

theorem make_key_expands_key:
  assumes "length key7 = 7" "lookahead \<noteq> []" "lookahead' \<noteq> []"
  shows "\<exists>out. make_key (key7 @ lookahead) = Some out \<and> make_key (key7 @ lookahead') = Some out \<and>
    length out = 8 \<and> (\<forall>i. i < 8 \<longrightarrow> odd (count_ones (out ! i))) \<and>
    (\<forall>n. n < 56 \<longrightarrow> msb_bit out (n div 7 * 8 + n mod 7) = msb_bit key7 n)"
proof -
  have "8 \<le> length (key7 @ lookahead)" "8 \<le> length (key7 @ lookahead')"
    using assms by (cases lookahead; cases lookahead'; simp)+
  then obtain out out' where o: "make_key (key7 @ lookahead) = Some out" "des_key_of (key7 @ lookahead) out"
    and o': "make_key (key7 @ lookahead') = Some out'" "des_key_of (key7 @ lookahead') out'"
    using make_key_Some by meson
  have k: "msb_bit (key7 @ x) n = msb_bit key7 n" if "n < 56" for n x
  proof -
    have "n div 8 < length key7" using that assms(1) by auto
    then show ?thesis by (simp add: msb_bit_def nth_append)
  qed
  have "out = out'"
    using o(2) o'(2) k des_key_of_unique by blast
  with o o' k show ?thesis by (auto simp: des_key_of_def)
qed

theorem make_key_expands_key_witness:
  "\<exists>out. make_key [1, 2, 3, 4, 5, 6, 7, 8] = Some out \<and> make_key [1, 2, 3, 4, 5, 6, 7, 0xFF] = Some out \<and>
    length out = 8"
  using make_key_expands_key [of "[1, 2, 3, 4, 5, 6, 7]" "[8]" "[0xFF]"] by auto

text \<open>
  C21. The NT response is 24 bytes: the challenge hash under the three DES keys cut from the
  zero-padded password hash, whose bits each key carries. A \<open>DOMAIN\\user\<close> name answers like
  the bare user name. No step panics.
\<close>

theorem nt_response_is_three_des_blocks:
  assumes "crypto_ok cr"
  shows "\<exists>r k1 k2 k3. generate_nt_response cr ac pc username password = Some r \<and> length r = 24 \<and>
    (let padded = nt_password_hash cr password @ replicate 8 0;
         ch = take 8 (c_sha1 cr (pc @ ac @ utf8 (after_last BACKSLASH username)))
     in r = c_des cr k1 ch @ c_des cr k2 ch @ c_des cr k3 ch \<and>
        des_key_of padded k1 \<and> des_key_of (drop 7 padded) k2 \<and> des_key_of (drop 14 padded) k3) \<and>
    (BACKSLASH \<notin> set user \<longrightarrow>
       generate_nt_response cr ac pc (domain @ BACKSLASH # user) password =
       generate_nt_response cr ac pc user password)"
proof -
  have "length (nt_password_hash cr password) = 16"
    by (simp add: nt_password_hash_def crypto_lengths assms)
  note c = challenge_response_eq [OF assms this]
  obtain r where "generate_nt_response cr ac pc username password = Some r" "length r = 24"
    using assms by (rule generate_nt_response_length)
  moreover have "BACKSLASH \<notin> set user \<Longrightarrow>
      generate_nt_response cr ac pc (domain @ BACKSLASH # user) password =
      generate_nt_response cr ac pc user password"
    by (simp add: generate_nt_response_eq assms)
  ultimately show ?thesis
    using c [of "take 8 (c_sha1 cr (pc @ ac @ utf8 (after_last BACKSLASH username)))"]
    by (auto simp: generate_nt_response_eq assms Let_def)
qed

theorem nt_response_is_three_des_blocks_witness:
  "\<exists>r. generate_nt_response toy_crypto (replicate 16 1) (replicate 16 2)
       (lit ''CORP'' @ BACKSLASH # lit ''bob'') (lit ''pw'') = Some r \<and> length r = 24 \<and>
     generate_nt_response toy_crypto (replicate 16 1) (replicate 16 2) (lit ''bob'') (lit ''pw'') = Some r"
proof -
  have "BACKSLASH \<notin> set (lit ''bob'')" by code_simp
  then show ?thesis
    using nt_response_is_three_des_blocks [OF toy_crypto_ok, of "replicate 16 1" "replicate 16 2"
        "lit ''CORP'' @ BACKSLASH # lit ''bob''" "lit ''pw''" "lit ''bob''" "lit ''CORP''"]
    by auto
qed

text \<open>
  The authenticator response that a server must present is \<open>S=\<close> and 40 upper-case hex
  digits, computed from the password, the NT response, both challenges and the user name
  without its domain.
\<close>

theorem authenticator_response_format:
  assumes "crypto_ok cr"
  shows "\<exists>digits. generate_authenticator_response cr password nt pc ac username =
      Some (lit ''S='' @ digits) \<and> length digits = 40 \<and> list_all is_hex_upper digits \<and>
    (BACKSLASH \<notin> set user \<longrightarrow>
       generate_authenticator_response cr password nt pc ac (domain @ BACKSLASH # user) =
       generate_authenticator_response cr password nt pc ac user)"
proof -
  obtain digest where d: "generate_authenticator_response cr password nt pc ac username =
      Some (lit ''S='' @ concat (map hex_upper digest))" "length digest = 20"
    using assms by (rule generate_authenticator_response_Some)
  have "list_all is_hex_upper (concat (map hex_upper digest))"
    by (auto simp: list_all_iff dest: hex_upper_chars)
  with d show ?thesis
    by (intro exI [of _ "concat (map hex_upper digest)"])
      (simp add: generate_authenticator_response_eq assms)
qed

theorem authenticator_response_format_witness:
  "\<exists>digits. generate_authenticator_response toy_crypto (lit ''pw'') (replicate 24 1) (replicate 16 2)
      (replicate 16 3) (lit ''bob'') = Some (lit ''S='' @ digits) \<and> length digits = 40"
  using authenticator_response_format [OF toy_crypto_ok] by blast

end
