(* ===== verification/Chap_Fsm.thy ===== *)
theory Chap_Fsm
  imports Chap
begin

text \<open>
  CHAP frames and the client's side of MS-CHAPv2 (\<open>sstp-proto/src/chap_fsm.rs\<close>). The random
  peer challenge that \<open>build_response\<close> draws is its argument.
\<close>

datatype chap_code = Challenge | Response | Success | Failure | UnknownChap u8

fun chap_to_u8 :: "chap_code \<Rightarrow> u8" where
  "chap_to_u8 Challenge = 1"
| "chap_to_u8 Response = 2"
| "chap_to_u8 Success = 3"
| "chap_to_u8 Failure = 4"
| "chap_to_u8 (UnknownChap v) = v"

definition chap_from_u8 :: "u8 \<Rightarrow> chap_code" where
  "chap_from_u8 v =
     (if v = 1 then Challenge else if v = 2 then Response else if v = 3 then Success
      else if v = 4 then Failure else UnknownChap v)"

record chap_frame =
  cf_code :: chap_code
  cf_id :: u8
  cf_data :: bytes

definition chap_encode :: "chap_code \<Rightarrow> u8 \<Rightarrow> bytes \<Rightarrow> bytes" where
  "chap_encode code ident data =
     (let len = 4 + length data
      in [chap_to_u8 code, ident] @ u16_to_be (as_u16 len) @ data)"

definition chap_decode :: "bytes \<Rightarrow> chap_frame option option" where
  "chap_decode buf =
     (if length buf < 4 then Some None
      else do {
        b0 \<leftarrow> idx buf 0;
        let code = chap_from_u8 b0;
        ident \<leftarrow> idx buf 1;
        b2 \<leftarrow> idx buf 2;
        b3 \<leftarrow> idx buf 3;
        let len = unat (u16_from_be b2 b3);
        if len < 4 \<or> len > length buf then Some None
        else do {
          data \<leftarrow> subslice buf 4 len;
          Some (Some \<lparr>cf_code = code, cf_id = ident, cf_data = data\<rparr>)
        }
      })"

record challenge_info =
  ci_id :: u8
  ci_value :: bytes
  ci_name :: rstr

definition parse_challenge :: "chap_frame \<Rightarrow> challenge_info option option" where
  "parse_challenge frame =
     (if cf_data frame = [] then Some None
      else do {
        b \<leftarrow> idx (cf_data frame) 0;
        let value_size = unat b;
        if length (cf_data frame) < 1 + value_size then Some None
        else do {
          value \<leftarrow> subslice (cf_data frame) 1 (1 + value_size);
          rest \<leftarrow> subslice (cf_data frame) (1 + value_size) (length (cf_data frame));
          Some (Some \<lparr>ci_id = cf_id frame, ci_value = value, ci_name = from_utf8_lossy rest\<rparr>)
        }
      })"

datatype response_error = BadChallengeLength nat

record pending_response =
  pr_peer_challenge :: bytes
  pr_nt_response :: bytes

definition build_response ::
  "crypto \<Rightarrow> bytes \<Rightarrow> challenge_info \<Rightarrow> rstr \<Rightarrow> rstr \<Rightarrow>
   (response_error + bytes \<times> pending_response) option" where
  "build_response cr peer_challenge challenge username password =
     (if length (ci_value challenge) \<noteq> 16
      then Some (Inl (BadChallengeLength (length (ci_value challenge))))
      else do {
        let auth_challenge = ci_value challenge;
        nt_response \<leftarrow> generate_nt_response cr auth_challenge peer_challenge username password;
        let value = peer_challenge @ replicate 8 0 @ nt_response @ [0];
        let data = [as_u8 (length value)] @ value @ utf8 username;
        let wire = chap_encode Response (ci_id challenge) data;
        Some (Inr (wire, \<lparr>pr_peer_challenge = peer_challenge, pr_nt_response = nt_response\<rparr>))
      })"

definition verify_success ::
  "crypto \<Rightarrow> bytes \<Rightarrow> rstr \<Rightarrow> pending_response \<Rightarrow> bytes \<Rightarrow> rstr \<Rightarrow> bool option" where
  "verify_success cr success_data password pending auth_challenge username = do {
     expected \<leftarrow> generate_authenticator_response cr password (pr_nt_response pending)
       (pr_peer_challenge pending) auth_challenge username;
     let text = from_utf8_lossy success_data;
     Some (case first_token text of
       Some token \<Rightarrow> eq_ignore_ascii_case token expected
     | None \<Rightarrow> False)
   }"

section \<open>Facts\<close>

fun chap_code_ok :: "chap_code \<Rightarrow> bool" where
  "chap_code_ok (UnknownChap v) = (v \<notin> {1, 2, 3, 4})"
| "chap_code_ok c = True"

interpretation chap_codes: wire_code chap_to_u8 chap_from_u8 chap_code_ok
proof
  show "chap_from_u8 (chap_to_u8 c) = c" if "chap_code_ok c" for c
    using that by (cases c) (auto simp: chap_from_u8_def)
qed (auto simp: chap_from_u8_def)

lemma length_chap_encode [simp, wire]: "length (chap_encode c i d) = 4 + length d"
  by (simp add: chap_encode_def Let_def)

lemma runs_chap_decode [runs_intro]: "runs (chap_decode buf)"
  unfolding chap_decode_def by (intro runs_intro) auto

lemma runs_parse_challenge [runs_intro]: "runs (parse_challenge f)"
  unfolding parse_challenge_def by (intro runs_intro) auto

lemma runs_build_response [runs_intro]: "crypto_ok cr \<Longrightarrow> runs (build_response cr pc ch user pw)"
  unfolding build_response_def by (intro runs_intro)

lemma runs_verify_success [runs_intro]: "crypto_ok cr \<Longrightarrow> runs (verify_success cr d pw p ac user)"
  unfolding verify_success_def by (intro runs_intro)

lemma chap_decode_eq:
  "chap_decode buf = Some
     (if length buf < 4 then None
      else let len = unat (u16_from_be (buf ! 2) (buf ! 3))
           in if len < 4 \<or> len > length buf then None
              else Some \<lparr>cf_code = chap_from_u8 (buf ! 0), cf_id = buf ! 1,
                         cf_data = take (len - 4) (drop 4 buf)\<rparr>)"
proof (cases "length buf < 4")
  case False
  then have "0 < length buf" "1 < length buf" by linarith+
  with False show ?thesis by (simp add: chap_decode_def Let_def)
qed (simp add: chap_decode_def)

lemma chap_decode_encode:
  "chap_code_ok c \<Longrightarrow> length d \<le> 65531 \<Longrightarrow>
   chap_decode (chap_encode c i d @ rest) = Some (Some \<lparr>cf_code = c, cf_id = i, cf_data = d\<rparr>)"
  by (simp add: chap_decode_eq chap_encode_def Let_def u16_to_be_def chap_codes.from_to)

lemma chap_decode_encode_nil [simp]:
  "chap_code_ok c \<Longrightarrow> length d \<le> 65531 \<Longrightarrow>
   chap_decode (chap_encode c i d) = Some (Some \<lparr>cf_code = c, cf_id = i, cf_data = d\<rparr>)"
  using chap_decode_encode [of c d i "[]"] by simp

definition chap_dec :: "bytes \<Rightarrow> (chap_code \<times> u8 \<times> bytes) option" where
  "chap_dec buf =
     (case chap_decode buf of Some (Some f) \<Rightarrow> Some (cf_code f, cf_id f, cf_data f) | _ \<Rightarrow> None)"

interpretation chap_frames: frame_codec chap_to_u8 chap_from_u8 chap_code_ok chap_encode chap_dec
  by unfold_locales (simp add: chap_dec_def chap_decode_encode)

lemma chap_decode_length: "chap_decode buf = Some (Some f) \<Longrightarrow> 4 + length (cf_data f) \<le> length buf"
  by (auto simp: chap_decode_eq Let_def split: if_splits)

lemma parse_challenge_eq:
  "parse_challenge f = Some
     (case cf_data f of
        [] \<Rightarrow> None
      | b # rest \<Rightarrow>
          if length rest < unat b then None
          else Some \<lparr>ci_id = cf_id f, ci_value = take (unat b) rest,
                     ci_name = from_utf8_lossy (drop (unat b) rest)\<rparr>)"
  by (cases "cf_data f") (simp_all add: parse_challenge_def Let_def)

lemma build_response_cases:
  assumes "crypto_ok cr"
  obtains (bad) "length (ci_value ch) \<noteq> 16"
      "build_response cr pc ch user pw = Some (Inl (BadChallengeLength (length (ci_value ch))))"
    | (ok) nt where "length (ci_value ch) = 16" "length nt = 24"
      "generate_nt_response cr (ci_value ch) pc user pw = Some nt"
      "build_response cr pc ch user pw = Some (Inr (chap_encode Response (ci_id ch)
         ([as_u8 (33 + length pc)] @ pc @ replicate 8 0 @ nt @ [0] @ utf8 user),
         \<lparr>pr_peer_challenge = pc, pr_nt_response = nt\<rparr>))"
proof (cases "length (ci_value ch) = 16")
  case True
  obtain nt where nt: "generate_nt_response cr (ci_value ch) pc user pw = Some nt" "length nt = 24"
    using assms by (rule generate_nt_response_length)
  show thesis
    by (rule ok [OF True nt(2,1)]) (simp add: build_response_def True nt add.commute)
next
  case False
  then show thesis by (rule bad) (simp add: build_response_def False)
qed

lemma verify_success_eq:
  assumes "generate_authenticator_response cr pw (pr_nt_response p) (pr_peer_challenge p) ac user = Some e"
  shows "verify_success cr d pw p ac user = Some
    (case first_token (from_utf8_lossy d) of Some t \<Rightarrow> eq_ignore_ascii_case t e | None \<Rightarrow> False)"
  by (simp add: verify_success_def assms)

lemma response_chars:
  assumes "crypto_ok cr" "generate_authenticator_response cr pw nt pc ac user = Some e"
  shows "e \<noteq> []" "\<forall>c\<in>set e. rchar c \<and> \<not> is_whitespace c \<and> ascii_upper c = c"
proof -
  obtain digest where e: "e = lit ''S='' @ concat (map hex_upper digest)"
    using assms by (metis generate_authenticator_response_Some option.inject)
  have l: "lit ''S='' = [83, 61]" by code_simp
  show "e \<noteq> []" by (simp add: e l)
  have "rchar c \<and> \<not> is_whitespace c \<and> ascii_upper c = c" if "c \<in> set e" for c
  proof -
    have "c = 83 \<or> c = 61 \<or> is_hex_upper c"
      using that by (auto simp: e l dest: hex_upper_chars)
    then show ?thesis
      by (auto simp: is_hex_upper_def rchar_def is_whitespace_def ascii_upper_def)
  qed
  then show "\<forall>c\<in>set e. rchar c \<and> \<not> is_whitespace c \<and> ascii_upper c = c" by blast
qed

lemma first_token_prefix:
  assumes "t \<noteq> []" "\<forall>c\<in>set t. \<not> is_whitespace c" "is_whitespace w"
  shows "first_token (t @ w # rest) = Some t" "first_token t = Some t"
proof -
  have d: "dropWhile is_whitespace (t @ u) = t @ u" for u
    using assms(1,2) by (cases t) auto
  have "takeWhile (Not \<circ> is_whitespace) (t @ w # rest) = t"
    "takeWhile (Not \<circ> is_whitespace) t = t"
    using assms(2,3) by (auto simp: takeWhile_append takeWhile_eq_all_conv)
  moreover have "dropWhile is_whitespace t = t"
    using d [of "[]"] by simp
  ultimately show "first_token (t @ w # rest) = Some t" "first_token t = Some t"
    by (simp_all only: first_token_def Let_def d assms(1) if_False)
qed

section \<open>Properties\<close>

text \<open>
  A Challenge frame decodes and parses to the identifier, the value and the name that the
  authenticator put into it.
\<close>

theorem challenge_roundtrip:
  assumes "length value \<le> 255" "list_all rchar name" "1 + length value + length (utf8 name) \<le> 65531"
  shows "\<exists>f. chap_decode (chap_encode Challenge i ([as_u8 (length value)] @ value @ utf8 name)) = Some (Some f) \<and>
    parse_challenge f = Some (Some \<lparr>ci_id = i, ci_value = value, ci_name = name\<rparr>)"
proof -
  let ?d = "[as_u8 (length value)] @ value @ utf8 name"
  have "chap_decode (chap_encode Challenge i ?d) = Some (Some \<lparr>cf_code = Challenge, cf_id = i, cf_data = ?d\<rparr>)"
    using assms(3) by (intro chap_decode_encode_nil) simp_all
  moreover have "from_utf8_lossy (utf8 name) = name"
    using assms(2) by (simp add: list_all_iff)
  ultimately show ?thesis
    using assms(1) by (simp add: parse_challenge_eq)
qed

theorem challenge_roundtrip_witness:
  "\<exists>f. chap_decode (chap_encode Challenge 3 ([16] @ replicate 16 7 @ utf8 [115, 233])) = Some (Some f) \<and>
    parse_challenge f = Some (Some \<lparr>ci_id = 3, ci_value = replicate 16 7, ci_name = [115, 233]\<rparr>)"
proof -
  have "length (utf8 [115, 233]) = 3" by code_simp
  then have "length (replicate 16 (7 :: u8)) \<le> 255" "list_all rchar [115, 233]"
    "1 + length (replicate 16 (7 :: u8)) + length (utf8 [115, 233]) \<le> 65531"
    "as_u8 (length (replicate 16 (7 :: u8))) = 16"
    by (simp_all add: rchar_def as_u8_def)
  then show ?thesis
    using challenge_roundtrip [of "replicate 16 7" "[115, 233]" 3] by (simp only:)
qed

text \<open>
  The answer to a Challenge: a value that is not 16 bytes long is refused; otherwise the
  Response has the identifier of the Challenge and, laid out as RFC 2759 asks, the 49 bytes of
  peer challenge, zeros, NT response and flags, then the user name. The NT response kept for
  later is the one sent.
\<close>

theorem response_layout:
  assumes "crypto_ok cr" "length pc = 16" "length (utf8 user) \<le> 65481"
  shows "if length (ci_value ch) \<noteq> 16
    then build_response cr pc ch user pw = Some (Inl (BadChallengeLength (length (ci_value ch))))
    else \<exists>wire nt f. build_response cr pc ch user pw =
        Some (Inr (wire, \<lparr>pr_peer_challenge = pc, pr_nt_response = nt\<rparr>)) \<and>
      generate_nt_response cr (ci_value ch) pc user pw = Some nt \<and>
      length wire = 54 + length (utf8 user) \<and>
      chap_decode wire = Some (Some f) \<and> cf_code f = Response \<and> cf_id f = ci_id ch \<and>
      cf_data f = 49 # pc @ replicate 8 0 @ nt @ 0 # utf8 user"
  using assms(1)
proof (cases rule: build_response_cases [of cr ch pc user pw])
  case bad
  then show ?thesis by simp
next
  case (ok nt)
  let ?d = "49 # pc @ replicate 8 0 @ nt @ 0 # utf8 user"
  have d: "[as_u8 (33 + length pc)] @ pc @ replicate 8 0 @ nt @ [0] @ utf8 user = ?d"
    using assms(2) by (simp add: as_u8_def)
  have "chap_decode (chap_encode Response (ci_id ch) ?d) =
      Some (Some \<lparr>cf_code = Response, cf_id = ci_id ch, cf_data = ?d\<rparr>)"
    using assms(2,3) ok(2) by (intro chap_decode_encode_nil) simp_all
  moreover have "build_response cr pc ch user pw = Some (Inr (chap_encode Response (ci_id ch) ?d,
      \<lparr>pr_peer_challenge = pc, pr_nt_response = nt\<rparr>))"
    using ok(4) unfolding d .
  ultimately show ?thesis
    using ok(1-3) assms(2) by simp
qed

theorem response_layout_witness:
  "\<exists>wire nt. build_response toy_crypto (replicate 16 1)
      \<lparr>ci_id = 9, ci_value = replicate 16 2, ci_name = []\<rparr> (lit ''bob'') (lit ''pw'') =
      Some (Inr (wire, \<lparr>pr_peer_challenge = replicate 16 1, pr_nt_response = nt\<rparr>)) \<and> length wire = 57"
proof -
  have u: "length (utf8 (lit ''bob'')) = 3" by code_simp
  then have "length (replicate 16 (1 :: u8)) = 16" "length (utf8 (lit ''bob'')) \<le> 65481" by simp_all
  from response_layout [OF toy_crypto_ok this,
      of "\<lparr>ci_id = 9, ci_value = replicate 16 2, ci_name = []\<rparr>" "lit ''pw''"] u
  show ?thesis by auto
qed

text \<open>
  C25. A Success message is accepted only when its first word is, but for the case of letters,
  the authenticator response computed from the password; every message made of that response
  and, behind a space, any further fields is accepted. Verifying never panics.
\<close>

theorem success_proves_authenticator_response:
  assumes "crypto_ok cr"
    and "generate_authenticator_response cr pw (pr_nt_response p) (pr_peer_challenge p) ac user = Some e"
  shows "(verify_success cr d pw p ac user = Some True \<longleftrightarrow>
      (\<exists>t. first_token (from_utf8_lossy d) = Some t \<and> map ascii_upper t = e)) \<and>
    verify_success cr (utf8 e) pw p ac user = Some True \<and>
    (list_all rchar words \<longrightarrow> verify_success cr (utf8 (e @ 32 # words)) pw p ac user = Some True) \<and>
    verify_success cr d pw p ac user \<noteq> None"
proof -
  note c = response_chars [OF assms]
  have w: "is_whitespace 32" by (simp add: is_whitespace_def)
  have up: "map ascii_upper e = e"
    using c(2) by (intro map_idI) blast
  have "\<forall>c\<in>set e. \<not> is_whitespace c" using c(2) by blast
  note t = first_token_prefix [OF c(1) this w]
  have r: "\<forall>c\<in>set e. rchar c" using c(2) by blast
  then have "from_utf8_lossy (utf8 e) = e" by simp
  moreover have "from_utf8_lossy (utf8 (e @ 32 # words)) = e @ 32 # words" if "list_all rchar words"
    using that r by (intro from_utf8_lossy_utf8) (auto simp: list_all_iff rchar_def)
  ultimately show ?thesis
    using t by (auto simp: verify_success_eq [OF assms(2)] eq_ignore_ascii_case_def up
        simp del: utf8_append split: option.splits)
qed

theorem success_proves_authenticator_response_witness:
  "\<exists>e. verify_success toy_crypto (utf8 e) (lit ''pw'')
      \<lparr>pr_peer_challenge = replicate 16 1, pr_nt_response = replicate 24 2\<rparr> (replicate 16 3) (lit ''bob'') = Some True \<and>
    verify_success toy_crypto (utf8 (e @ 32 # lit ''M=OK'')) (lit ''pw'')
      \<lparr>pr_peer_challenge = replicate 16 1, pr_nt_response = replicate 24 2\<rparr> (replicate 16 3) (lit ''bob'') = Some True"
proof -
  let ?p = "\<lparr>pr_peer_challenge = replicate 16 1, pr_nt_response = replicate 24 (2 :: u8)\<rparr>"
  obtain digest where e: "generate_authenticator_response toy_crypto (lit ''pw'') (pr_nt_response ?p)
      (pr_peer_challenge ?p) (replicate 16 3) (lit ''bob'') = Some (lit ''S='' @ concat (map hex_upper digest))"
    using toy_crypto_ok by (rule generate_authenticator_response_Some)
  have "lit ''M=OK'' = [77, 61, 79, 75]" by code_simp
  then have "list_all rchar (lit ''M=OK'')" by (simp add: rchar_def)
  with success_proves_authenticator_response [OF toy_crypto_ok e, of "[]" "lit ''M=OK''"]
  show ?thesis by blast
qed

end
