(* ===== verification/Mppe.thy ===== *)
theory Mppe
  imports Chap
begin

text \<open>
  The MPPE session keys of RFC 3079 (\<open>sstp-proto/src/mppe.rs\<close>), derived from the password and
  the NT response of the MS-CHAPv2 exchange.
\<close>

definition ascii_bytes :: "string \<Rightarrow> bytes" where
  \<comment> \<open>a byte-string literal\<close>
  "ascii_bytes s = map of_char s"

definition MASTER_KEY_MAGIC :: bytes where
  "MASTER_KEY_MAGIC = ascii_bytes ''This is the MPPE Master Key''"

definition SESSION_KEY_MAGIC_CLIENT_SEND :: bytes where
  "SESSION_KEY_MAGIC_CLIENT_SEND = ascii_bytes
     ''On the client side, this is the send key; on the server side, it is the receive key.''"

definition SESSION_KEY_MAGIC_CLIENT_RECV :: bytes where
  "SESSION_KEY_MAGIC_CLIENT_RECV = ascii_bytes
     ''On the client side, this is the receive key; on the server side, it is the send key.''"

primrec doubled :: "bytes \<Rightarrow> bytes" where
  \<comment> \<open>each byte, followed by a zero\<close>
  "doubled [] = []"
| "doubled (b # bs) = b # 0 # doubled bs"

definition password_hash_hash :: "crypto \<Rightarrow> rstr \<Rightarrow> bytes" where
  "password_hash_hash cr password =
     (let utf16le = doubled (utf8 password);
          nt_hash = c_md4 cr utf16le
      in c_md4 cr nt_hash)"

definition master_key :: "crypto \<Rightarrow> bytes \<Rightarrow> bytes \<Rightarrow> bytes option" where
  "master_key cr phash nt_response = do {
     let digest = c_sha1 cr (phash @ nt_response @ MASTER_KEY_MAGIC);
     first \<leftarrow> subslice digest 0 16;
     copy_into (replicate 16 0) 0 16 first
   }"

definition session_key :: "crypto \<Rightarrow> bytes \<Rightarrow> bool \<Rightarrow> bool \<Rightarrow> bytes option" where
  "session_key cr master sending is_server =
     (let use_send_magic = (sending \<noteq> is_server);
          magic = (if use_send_magic then SESSION_KEY_MAGIC_CLIENT_SEND
                   else SESSION_KEY_MAGIC_CLIENT_RECV);
          digest = c_sha1 cr (master @ replicate 40 0 @ magic @ replicate 40 0xf2)
      in do {
        first \<leftarrow> subslice digest 0 16;
        copy_into (replicate 16 0) 0 16 first
      })"

record mppe_keys =
  send_key :: bytes
  recv_key :: bytes

definition mppe_get_keys :: "crypto \<Rightarrow> rstr \<Rightarrow> bytes \<Rightarrow> bool \<Rightarrow> mppe_keys option" where
  "mppe_get_keys cr password nt_response is_server = do {
     let phash = password_hash_hash cr password;
     master \<leftarrow> master_key cr phash nt_response;
     recv \<leftarrow> session_key cr master False is_server;
     send \<leftarrow> session_key cr master True is_server;
     Some \<lparr>send_key = send, recv_key = recv\<rparr>
   }"

section \<open>Facts\<close>

lemma master_key_eq:
  "crypto_ok cr \<Longrightarrow> master_key cr phash nt = Some (take 16 (c_sha1 cr (phash @ nt @ MASTER_KEY_MAGIC)))"
  by (simp add: master_key_def crypto_lengths)

lemma session_key_eq:
  "crypto_ok cr \<Longrightarrow> session_key cr master sending is_server =
     Some (take 16 (c_sha1 cr (master @ replicate 40 0 @
       (if sending \<noteq> is_server then SESSION_KEY_MAGIC_CLIENT_SEND else SESSION_KEY_MAGIC_CLIENT_RECV) @
       replicate 40 0xf2)))"
  by (simp add: session_key_def crypto_lengths Let_def)

lemma mppe_get_keys_Some:
  assumes "crypto_ok cr"
  obtains k where "mppe_get_keys cr password nt is_server = Some k"
    "length (send_key k) = 16" "length (recv_key k) = 16"
proof -
  have "\<exists>k. mppe_get_keys cr password nt is_server = Some k \<and>
      length (send_key k) = 16 \<and> length (recv_key k) = 16"
    by (simp add: mppe_get_keys_def master_key_eq session_key_eq assms crypto_lengths Let_def)
  with that show thesis by blast
qed

lemma runs_mppe_get_keys [runs_intro]: "crypto_ok cr \<Longrightarrow> runs (mppe_get_keys cr password nt is_server)"
  by (metis mppe_get_keys_Some runs_Some)

lemma length_doubled [simp]: "length (doubled bs) = 2 * length bs"
  by (induction bs) simp_all

lemma doubled_append: "doubled (bs @ cs) = doubled bs @ doubled cs"
  by (induction bs) simp_all

lemma length_nt_hash_input: "length (nt_hash_input pw) = 2 * length (utf16 pw)"
proof -
  have "length (concat (map u16_to_le us)) = 2 * length us" for us
    by (induction us) (simp_all add: u16_to_le_def)
  then show ?thesis by (simp add: nt_hash_input_def)
qed

lemma utf8_length_ge: "length (utf16 pw) \<le> length (utf8 pw)"
  by (induction pw) (auto simp: utf16_def utf16_char_def utf8_Cons utf8_char_def)

lemma utf8_length_gt:
  "\<exists>c\<in>set pw. 128 \<le> c \<Longrightarrow> length (utf16 pw) < length (utf8 pw)"
proof (induction pw)
  case (Cons c pw)
  have g: "length (utf16 pw) \<le> length (utf8 pw)" by (rule utf8_length_ge)
  have u: "length (utf16 (c # pw)) = length (utf16_char c) + length (utf16 pw)"
    "length (utf8 (c # pw)) = length (utf8_char c) + length (utf8 pw)"
    by (simp_all add: utf16_def utf8_Cons)
  show ?case
  proof (cases "128 \<le> c")
    case True
    then have "length (utf16_char c) < length (utf8_char c)"
      by (auto simp: utf16_char_def utf8_char_def)
    with g u show ?thesis by linarith
  next
    case False
    then have "length (utf16_char c) = length (utf8_char c)"
      by (auto simp: utf16_char_def utf8_char_def)
    moreover have "length (utf16 pw) < length (utf8 pw)"
      using Cons False by auto
    ultimately show ?thesis using u by linarith
  qed
qed simp

lemma doubled_utf8_ascii:
  "\<forall>c\<in>set pw. c < 128 \<Longrightarrow> doubled (utf8 pw) = nt_hash_input pw"
proof (induction pw)
  case (Cons c pw)
  have c: "unat (of_nat c :: u16) = c"
    using Cons.prems by (simp add: unat_of_nat)
  have "(ucast (of_nat c :: u16) :: u8) = of_nat c"
    by (intro bit_word_eqI) (simp add: bit_simps)
  moreover have "drop_bit 8 (of_nat c :: u16) = 0"
  proof -
    have "unat (drop_bit 8 (of_nat c :: u16)) = c div 256"
      by (simp only: unat_drop_bit_eq c) (simp add: drop_bit_eq_div)
    also have "\<dots> = 0" using Cons.prems by simp
    finally show ?thesis by (simp only: unat_eq_0)
  qed
  ultimately show ?case
    using Cons by (simp add: utf8_Cons utf8_char_def doubled_append nt_hash_input_def utf16_def
        utf16_char_def u16_to_le_def)
qed (simp add: nt_hash_input_def utf16_def)

section \<open>Properties\<close>

text \<open>
  C27. For a password of ASCII characters the MPPE keys start from the hash of the NT password
  hash, as RFC 3079 asks. What is hashed equals the UTF-16LE encoding that MS-CHAPv2 hashes for these
  passwords only: for every other password the two hashes agree only by a collision of MD4, on the two
  different inputs or on their two different hashes.
\<close>

theorem mppe_hashes_nt_password_for_ascii:
  "((\<forall>c\<in>set pw. c < 128) \<longrightarrow> password_hash_hash cr pw = c_md4 cr (nt_password_hash cr pw)) \<and>
   (doubled (utf8 pw) = nt_hash_input pw \<longleftrightarrow> (\<forall>c\<in>set pw. c < 128)) \<and>
   (password_hash_hash cr pw = c_md4 cr (nt_password_hash cr pw) \<and> (\<exists>c\<in>set pw. 128 \<le> c) \<longrightarrow>
      c_md4 cr (doubled (utf8 pw)) = c_md4 cr (nt_hash_input pw) \<and> doubled (utf8 pw) \<noteq> nt_hash_input pw \<or>
      c_md4 cr (c_md4 cr (doubled (utf8 pw))) = c_md4 cr (nt_password_hash cr pw) \<and>
        c_md4 cr (doubled (utf8 pw)) \<noteq> nt_password_hash cr pw)"
proof -
  have "\<forall>c\<in>set pw. c < 128" if "doubled (utf8 pw) = nt_hash_input pw"
  proof (rule ccontr)
    assume "\<not> (\<forall>c\<in>set pw. c < 128)"
    then have "length (utf16 pw) < length (utf8 pw)"
      by (intro utf8_length_gt) (meson not_less)
    moreover have "2 * length (utf8 pw) = 2 * length (utf16 pw)"
      using that by (metis length_doubled length_nt_hash_input)
    ultimately show False by simp
  qed
  then have ascii: "doubled (utf8 pw) = nt_hash_input pw \<longleftrightarrow> (\<forall>c\<in>set pw. c < 128)"
    using doubled_utf8_ascii [of pw] by blast
  have hashes: "password_hash_hash cr pw = c_md4 cr (c_md4 cr (doubled (utf8 pw)))"
    "nt_password_hash cr pw = c_md4 cr (nt_hash_input pw)"
    by (simp_all add: password_hash_hash_def nt_password_hash_def Let_def)
  show ?thesis
    using ascii unfolding hashes by (metis not_less)
qed

theorem mppe_hashes_nt_password_for_ascii_witness:
  "password_hash_hash toy_crypto (lit ''DukeNuke3D'') =
     c_md4 toy_crypto (nt_password_hash toy_crypto (lit ''DukeNuke3D'')) \<and>
   doubled (utf8 [233]) \<noteq> nt_hash_input [233]"
proof -
  have "\<forall>c\<in>set (lit ''DukeNuke3D''). c < 128" by code_simp
  then show ?thesis
    using mppe_hashes_nt_password_for_ascii [of "lit ''DukeNuke3D''" toy_crypto]
      mppe_hashes_nt_password_for_ascii [of "[233]" toy_crypto]
    by auto
qed

text \<open>
  Both ends derive the same two 16-byte keys from the same password and NT response: what
  the client sends with is what the server receives with, and the other way round.
\<close>

theorem mppe_keys_agree:
  assumes "crypto_ok cr"
  shows "\<exists>client server. mppe_get_keys cr password nt False = Some client \<and>
    mppe_get_keys cr password nt True = Some server \<and>
    send_key client = recv_key server \<and> recv_key client = send_key server \<and>
    length (send_key client) = 16 \<and> length (recv_key client) = 16 \<and>
    (let master = take 16 (c_sha1 cr (password_hash_hash cr password @ nt @ MASTER_KEY_MAGIC))
     in send_key client = take 16 (c_sha1 cr
          (master @ replicate 40 0 @ SESSION_KEY_MAGIC_CLIENT_SEND @ replicate 40 0xf2)))"
  by (simp add: mppe_get_keys_def master_key_eq session_key_eq assms crypto_lengths Let_def)

theorem mppe_keys_agree_witness:
  "\<exists>client server. mppe_get_keys toy_crypto (lit ''pw'') (replicate 24 5) False = Some client \<and>
    mppe_get_keys toy_crypto (lit ''pw'') (replicate 24 5) True = Some server \<and>
    send_key client = recv_key server \<and> recv_key client = send_key server"
  using mppe_keys_agree [OF toy_crypto_ok, of "lit ''pw''" "replicate 24 5"] by blast

end
