(* ===== verification/Cmac.thy ===== *)
theory Cmac
  imports Chap Packet
begin

text \<open>
  The crypto-bind message (\<open>sstp-proto/src/cmac.rs\<close>): the compound MAC that ties the PPP
  authentication to the server's certificate, and the \<open>SSTP_MSG_CONNECTED\<close> packet that
  carries it.
\<close>

definition SEED :: bytes where
  "SEED = map of_char ''SSTP inner method derived CMK''"

datatype hash_algo = AlgoSha1 | AlgoSha256

fun digest_len_byte :: "hash_algo \<Rightarrow> u8" where
  "digest_len_byte AlgoSha1 = 20"
| "digest_len_byte AlgoSha256 = 32"

definition make_hlak :: "bytes \<Rightarrow> bytes \<Rightarrow> bytes option" where
  "make_hlak send_key recv_key = do {
     hlak1 \<leftarrow> copy_into (replicate 32 0) 0 16 send_key;
     copy_into hlak1 16 32 recv_key
   }"

definition hmac_sha1 :: "crypto \<Rightarrow> bytes \<Rightarrow> bytes list \<Rightarrow> bytes" where
  \<comment> \<open>the chunks are fed to the MAC one after the other\<close>
  "hmac_sha1 cr key data = c_hmac_sha1 cr key (concat data)"

definition hmac_sha256 :: "crypto \<Rightarrow> bytes \<Rightarrow> bytes list \<Rightarrow> bytes" where
  "hmac_sha256 cr key data = c_hmac_sha256 cr key (concat data)"

definition compound_mac :: "crypto \<Rightarrow> hash_algo \<Rightarrow> bytes \<Rightarrow> bytes \<Rightarrow> bytes \<Rightarrow> bytes option" where
  "compound_mac cr algo send_key recv_key message = do {
     hlak \<leftarrow> make_hlak send_key recv_key;
     let len0 = digest_len_byte algo;
     let derive_input = [len0, 0, 1];
     Some (case algo of
         AlgoSha1 \<Rightarrow> (let t1 = hmac_sha1 cr hlak [SEED, derive_input]
                     in hmac_sha1 cr t1 [message])
       | AlgoSha256 \<Rightarrow> (let t1 = hmac_sha256 cr hlak [SEED, derive_input]
                       in hmac_sha256 cr t1 [message]))
   }"

fun wire_byte :: "hash_algo \<Rightarrow> u8" where
  "wire_byte AlgoSha1 = 1"
| "wire_byte AlgoSha256 = 2"

definition MAC_FIELD_OFFSET_IN_PACKET :: nat where
  "MAC_FIELD_OFFSET_IN_PACKET = 4 + 4 + 4 + 68"

definition build_connected_message ::
  "crypto \<Rightarrow> hash_algo \<Rightarrow> bytes \<Rightarrow> bytes \<Rightarrow> bytes \<Rightarrow> bytes \<Rightarrow> bytes option" where
  "build_connected_message cr algo nonce cert_hash32 send_key recv_key = do {
     let attr_data0 = (replicate 100 0)[3 := wire_byte algo];
     attr_data1 \<leftarrow> copy_into attr_data0 4 36 nonce;
     attr_data \<leftarrow> copy_into attr_data1 36 68 cert_hash32;
     let pkt = encode_ctrl Connected [(CryptoBind, attr_data)];
     mac \<leftarrow> compound_mac cr algo send_key recv_key pkt;
     copy_into pkt MAC_FIELD_OFFSET_IN_PACKET (MAC_FIELD_OFFSET_IN_PACKET + length mac) mac
   }"

section \<open>Facts\<close>

definition connected_header :: "hash_algo \<Rightarrow> bytes" where
  "connected_header algo = [0x10, 0x01, 0, 0x70, 0, 4, 0, 1, 0, 3, 0, 0x68, 0, 0, 0, wire_byte algo]"

lemma connected_numbers:
  "u16_to_be (msg_to_u16 Connected) = [0, 4]" "u16_to_be (as_u16 112) = [0, 0x70]"
  "u16_to_be (as_u16 104) = [0, 0x68]" "u16_to_be (as_u16 1) = [0, 1]" "attr_to_u8 CryptoBind = 3"
  by code_simp+

lemma encode_connected:
  assumes "length data = 100"
  shows "encode_ctrl Connected [(CryptoBind, data)] = [0x10, 1, 0, 0x70, 0, 4, 0, 1, 0, 3, 0, 0x68] @ data"
  using assms connected_numbers
  by (simp add: encode_ctrl_def Let_def header_lens PROTO_VERSION_def FLAG_CTRL_def)

lemma decode_connected:
  "length data = 100 \<Longrightarrow> packet_decode (encode_ctrl Connected [(CryptoBind, data)]) =
     Some (Inr (Ctrl Connected [\<lparr>attr_type = CryptoBind, attr_data = data\<rparr>]))"
  using packet_decode_ctrl [of Connected "[(CryptoBind, data)]" "[]"] by simp

definition mac_len :: "hash_algo \<Rightarrow> nat" where
  "mac_len algo = unat (digest_len_byte algo)"

lemma mac_len_simps [simp]: "mac_len AlgoSha1 = 20" "mac_len AlgoSha256 = 32"
  by (simp_all add: mac_len_def)

lemma compound_mac_Some:
  assumes "crypto_ok cr" "length sk = 16" "length rk = 16"
  obtains mac where "compound_mac cr algo sk rk m = Some mac" "length mac = mac_len algo"
  using assms that
  by (cases algo) (simp_all add: compound_mac_def hmac_sha1_def hmac_sha256_def make_hlak_def crypto_lengths Let_def)

lemma build_connected_message_eq:
  assumes "length nonce = 32" "length cert = 32"
    and "compound_mac cr algo sk rk (connected_header algo @ nonce @ cert @ replicate 32 0) = Some mac"
    and "length mac = mac_len algo"
  shows "build_connected_message cr algo nonce cert sk rk =
    Some (connected_header algo @ nonce @ cert @ mac @ replicate (32 - mac_len algo) 0)"
proof -
  let ?z = "[0, 0, 0, wire_byte algo]"
  have r: "replicate 100 0 = replicate 4 0 @ replicate 32 0 @ replicate 32 0 @ replicate 32 (0 :: u8)"
    by (simp flip: replicate_add)
  have z: "(replicate 100 0)[3 := wire_byte algo] =
      ?z @ replicate 32 0 @ replicate 32 0 @ replicate 32 (0 :: u8)"
    unfolding r by (simp add: numeral_eq_Suc list_update_append)
  have c1: "copy_into (?z @ replicate 32 0 @ replicate 32 0 @ replicate 32 0) 4 36 nonce =
      Some (?z @ nonce @ replicate 32 0 @ replicate 32 0)"
    using assms(1) by (simp add: copy_into_def)
  have c2: "copy_into (?z @ nonce @ replicate 32 0 @ replicate 32 0) 36 68 cert =
      Some (?z @ nonce @ cert @ replicate 32 0)"
    using assms(1, 2) by (simp add: copy_into_def)
  have e: "encode_ctrl Connected [(CryptoBind, ?z @ nonce @ cert @ replicate 32 0)] =
      connected_header algo @ nonce @ cert @ replicate 32 0"
    using assms(1, 2) by (subst encode_connected) (simp_all add: connected_header_def)
  have m: "copy_into (connected_header algo @ nonce @ cert @ replicate 32 0) MAC_FIELD_OFFSET_IN_PACKET
      (MAC_FIELD_OFFSET_IN_PACKET + length mac) mac =
      Some (connected_header algo @ nonce @ cert @ mac @ replicate (32 - mac_len algo) 0)"
    using assms by (cases algo)
      (simp_all add: copy_into_def MAC_FIELD_OFFSET_IN_PACKET_def connected_header_def)
  show ?thesis
    unfolding build_connected_message_def
    by (simp only: Let_def z c1 c2 e assms(3) m Option.bind.bind_lunit)
qed

lemma runs_build_connected_message [runs_intro]:
  assumes "crypto_ok cr \<and> length nonce = 32 \<and> length cert = 32 \<and> length sk = 16 \<and> length rk = 16"
  shows "runs (build_connected_message cr algo nonce cert sk rk)"
proof -
  obtain mac where "compound_mac cr algo sk rk (connected_header algo @ nonce @ cert @ replicate 32 0) = Some mac"
    "length mac = mac_len algo"
    using assms compound_mac_Some by blast
  then show ?thesis
    using build_connected_message_eq assms by simp
qed

lemma connected_message_packet:
  assumes "crypto_ok cr" "length nonce = 32" "length cert = 32" "length sk = 16" "length rk = 16"
  shows "\<exists>pkt mac. build_connected_message cr algo nonce cert sk rk = Some pkt \<and>
    length pkt = 112 \<and> length mac = mac_len algo \<and>
    compound_mac cr algo sk rk (take 80 pkt @ replicate 32 0) = Some mac \<and>
    drop 80 pkt = mac @ replicate (32 - mac_len algo) 0 \<and>
    packet_decode pkt = Some (Inr (Ctrl Connected
      [\<lparr>attr_type = CryptoBind, attr_data = [0, 0, 0, wire_byte algo] @ nonce @ cert @ drop 80 pkt\<rparr>]))"
proof -
  obtain mac where mac: "compound_mac cr algo sk rk (connected_header algo @ nonce @ cert @ replicate 32 0) = Some mac"
    "length mac = mac_len algo"
    using assms compound_mac_Some by blast
  let ?tail = "mac @ replicate (32 - mac_len algo) 0"
  let ?pkt = "connected_header algo @ nonce @ cert @ ?tail"
  let ?data = "[0, 0, 0, wire_byte algo] @ nonce @ cert @ ?tail"
  have b: "build_connected_message cr algo nonce cert sk rk = Some ?pkt"
    using build_connected_message_eq [OF assms(2,3) mac] .
  have t: "length ?tail = 32"
    using mac(2) by (cases algo) simp_all
  have h: "length (connected_header algo) = 16"
    by (simp add: connected_header_def)
  have d: "take 80 ?pkt = connected_header algo @ nonce @ cert" "drop 80 ?pkt = ?tail"
    using assms(2,3) h by simp_all
  have "?pkt = encode_ctrl Connected [(CryptoBind, ?data)]"
    using assms(2,3) t by (subst encode_connected) (simp_all add: connected_header_def)
  moreover have "packet_decode (encode_ctrl Connected [(CryptoBind, ?data)]) =
      Some (Inr (Ctrl Connected [\<lparr>attr_type = CryptoBind, attr_data = ?data\<rparr>]))"
    using assms(2,3) t by (intro decode_connected) simp
  ultimately show ?thesis
    using b mac d t assms(2,3) h
    by (intro exI [of _ ?pkt] exI [of _ mac]) (simp only: append_assoc, simp)
qed

lemma connected_message_wire:
  assumes "crypto_ok cr" "length nonce = 32" "length cert = 32" "length sk = 16" "length rk = 16"
    "build_connected_message cr algo nonce cert sk rk = Some pkt"
  obtains a where "packet_ok (Ctrl Connected [a])" "pkt = encode_packet (Ctrl Connected [a])"
proof -
  obtain mac where mac: "compound_mac cr algo sk rk (connected_header algo @ nonce @ cert @ replicate 32 0) = Some mac"
    "length mac = mac_len algo"
    using assms(1-5) compound_mac_Some by blast
  let ?tail = "mac @ replicate (32 - mac_len algo) 0"
  let ?data = "[0, 0, 0, wire_byte algo] @ nonce @ cert @ ?tail"
  have t: "length ?tail = 32"
    using mac(2) by (cases algo) simp_all
  have "pkt = connected_header algo @ nonce @ cert @ ?tail"
    using build_connected_message_eq [OF assms(2,3) mac] assms(6) by simp
  also have "\<dots> = encode_ctrl Connected [(CryptoBind, ?data)]"
    using assms(2,3) t by (subst encode_connected) (simp_all add: connected_header_def)
  finally show thesis
    using assms(2,3) t
    by (intro that [of "\<lparr>attr_type = CryptoBind, attr_data = ?data\<rparr>"]) (simp_all add: attr_pair_def)
qed

section \<open>Properties\<close>

text \<open>
  C26. The crypto-bind message is the 112-byte Connected packet with the hash algorithm, the
  server's nonce and the certificate hash in their places; its MAC field holds the compound
  MAC of the same packet with that field zeroed, padded with zeros, and the packet decodes to
  its one CRYPTO_BIND attribute. Building it does not panic.
\<close>

theorem connected_message_layout:
  assumes "crypto_ok cr" "length nonce = 32" "length cert = 32" "length sk = 16" "length rk = 16"
  shows "\<exists>pkt mac. build_connected_message cr algo nonce cert sk rk = Some pkt \<and>
    length pkt = 112 \<and> length mac = mac_len algo \<and>
    compound_mac cr algo sk rk (take 80 pkt @ replicate 32 0) = Some mac \<and>
    drop 80 pkt = mac @ replicate (32 - mac_len algo) 0 \<and>
    packet_decode pkt = Some (Inr (Ctrl Connected
      [\<lparr>attr_type = CryptoBind, attr_data = [0, 0, 0, wire_byte algo] @ nonce @ cert @ drop 80 pkt\<rparr>]))"
  by (rule connected_message_packet [OF assms])

theorem connected_message_layout_witness:
  "\<exists>pkt. build_connected_message toy_crypto AlgoSha1 (replicate 32 1) (replicate 32 2)
      (replicate 16 3) (replicate 16 4) = Some pkt \<and> length pkt = 112 \<and>
    drop 100 pkt = replicate 12 0"
proof -
  obtain pkt mac where p: "build_connected_message toy_crypto AlgoSha1 (replicate 32 1) (replicate 32 2)
      (replicate 16 3) (replicate 16 4) = Some pkt" "length pkt = 112" "length mac = mac_len AlgoSha1"
    "drop 80 pkt = mac @ replicate (32 - mac_len AlgoSha1) 0"
    using connected_message_layout [OF toy_crypto_ok, of "replicate 32 1" "replicate 32 2"
        "replicate 16 3" "replicate 16 4" AlgoSha1] by auto
  have "drop 100 pkt = drop 20 (drop 80 pkt)" by simp
  also have "\<dots> = replicate 12 0" unfolding p(4) using p(3) by simp
  finally show ?thesis using p(1,2) by blast
qed

end
