(* ===== verification/Engine.thy ===== *)
theory Engine
  imports Lcp Ipcp Chap_Fsm Mppe Cmac
begin

text \<open>
  The protocol engine (\<open>sstp-proto/src/engine.rs\<close>): the \<open>Engine\<close> struct and every handler
  behind \<open>on_packet\<close>, with the \<open>expect\<close> calls that would panic. A handler returns the new
  engine and its events. Trace and Fatal strings are a constructor for each format string
  with the values it shows. \<open>draws\<close> is what \<open>rand::random\<close> returns while one packet is
  handled: magic numbers for LCP and the peer challenge for CHAP.
\<close>

datatype trace_msg =
    ConnectAckOk hash_algo
  | LcpRecv code u8 nat
  | LcpRecvMalformed nat
  | LcpSend code u8
  | ChapRecv chap_code u8 nat
  | ChapSendResponse u8 rstr
  | ChapSuccessVerified
  | IpcpRecv code u8 nat
  | IpcpSend code u8

datatype fatal_msg =
    ServerSentConnectNak rstr
  | ServerAborted rstr
  | MissingCryptoBindRequest
  | BadCryptoBindRequestLength nat
  | OtherAuthMethodRequired
  | NoAuthRequested
  | MalformedChap
  | MalformedChallenge
  | ChallengeNot16Bytes nat
  | CouldNotBuildResponse response_error
  | SuccessWithoutPending
  | AuthenticatorMismatch rstr
  | ChapAuthFailed rstr
  | UnexpectedChapCode chap_code

datatype event =
    Send bytes
  | Trace trace_msg
  | DeliverIpPacket bytes
  | Established negotiated_config mppe_keys
  | Disconnected
  | Fatal fatal_msg

datatype phase = WaitConnectAck | PhaseLcp | PhaseChap | PhaseIpcp | PhaseEstablished

record engine =
  e_username :: rstr
  e_password :: rstr
  e_cert_hash_sha1 :: bytes
  e_cert_hash_sha256 :: bytes
  e_lcp :: lcp
  e_ipcp :: ipcp
  e_phase :: phase
  e_hash_algo :: "hash_algo option"
  e_server_nonce :: "bytes option"
  e_pending_chap :: "pending_response option"
  e_auth_challenge :: "bytes option"
  e_mppe_keys :: "mppe_keys option"

record draws =
  rnd_u32 :: "nat \<Rightarrow> u32"
  rnd_16 :: bytes

definition engine_new :: "crypto \<Rightarrow> u32 \<Rightarrow> rstr \<Rightarrow> rstr \<Rightarrow> bytes \<Rightarrow> engine option" where
  "engine_new cr magic username password server_cert_der = do {
     cert_hash_sha1 \<leftarrow> copy_into (replicate 32 0) 0 20 (c_sha1 cr server_cert_der);
     let cert_hash_sha256 = c_sha256 cr server_cert_der;
     Some \<lparr>e_username = username, e_password = password,
           e_cert_hash_sha1 = cert_hash_sha1, e_cert_hash_sha256 = cert_hash_sha256,
           e_lcp = lcp_new magic, e_ipcp = ipcp_new, e_phase = WaitConnectAck,
           e_hash_algo = None, e_server_nonce = None, e_pending_chap = None,
           e_auth_challenge = None, e_mppe_keys = None\<rparr>
   }"

definition engine_start :: "engine \<Rightarrow> bytes" where
  "engine_start e = encode_ctrl ConnectRequest [(EncapProtocol, u16_to_be 0x0001)]"

definition build_disconnect :: "engine \<Rightarrow> bytes" where
  "build_disconnect e = encode_ctrl Disconnect []"

definition build_echo_request :: "engine \<Rightarrow> bytes" where
  "build_echo_request e = encode_ctrl msg_type.EchoRequest []"

definition wrap_data :: "protocol \<Rightarrow> bytes \<Rightarrow> bytes" where
  "wrap_data proto payload = encode_data (ppp_encode proto payload)"

definition on_connect_ack :: "engine \<Rightarrow> attr list \<Rightarrow> (engine \<times> event list) option" where
  "on_connect_ack e attrs =
     (if e_phase e \<noteq> WaitConnectAck then Some (e, [])
      else case List.find (\<lambda>a. attr_type a = CryptoBindRequest) attrs of
        None \<Rightarrow> Some (e, [Fatal MissingCryptoBindRequest])
      | Some a \<Rightarrow>
          if length (attr_data a) \<noteq> 36
          then Some (e, [Fatal (BadCryptoBindRequestLength (length (attr_data a)))])
          else do {
            hash_byte \<leftarrow> idx (attr_data a) 3;
            let algo = (if hash_byte AND 0x02 \<noteq> 0 then AlgoSha256 else AlgoSha1);
            nonce \<leftarrow> subslice (attr_data a) 4 36;
            let e1 = e\<lparr>e_hash_algo := Some algo, e_server_nonce := Some nonce, e_phase := PhaseLcp\<rparr>;
            let (lcp1, lcp_req) = lcp_start (e_lcp e1);
            Some (e1\<lparr>e_lcp := lcp1\<rparr>,
                  [Trace (ConnectAckOk algo), Send (wrap_data ProtoLcp lcp_req)])
          })"

definition on_ctrl :: "engine \<Rightarrow> msg_type \<Rightarrow> attr list \<Rightarrow> (engine \<times> event list) option" where
  "on_ctrl e m attrs =
     (case m of
        ConnectAck \<Rightarrow> on_connect_ack e attrs
      | ConnectNak \<Rightarrow> do {
          status \<leftarrow> describe_status attrs;
          let reason = (case status of Some r \<Rightarrow> r | None \<Rightarrow> lit ''no status info given'');
          Some (e, [Fatal (ServerSentConnectNak reason)])
        }
      | Abort \<Rightarrow> do {
          status \<leftarrow> describe_status attrs;
          let reason = (case status of Some r \<Rightarrow> r | None \<Rightarrow> lit ''no status info given'');
          Some (e, [Fatal (ServerAborted reason)])
        }
      | Disconnect \<Rightarrow> Some (e, [Send (encode_ctrl DisconnectAck []), Disconnected])
      | DisconnectAck \<Rightarrow> Some (e, [Disconnected])
      | msg_type.EchoRequest \<Rightarrow> Some (e, [Send (encode_ctrl msg_type.EchoReply [])])
      | msg_type.EchoReply \<Rightarrow> Some (e, [])
      | ConnectRequest \<Rightarrow> Some (e, [])
      | Connected \<Rightarrow> Some (e, [])
      | UnknownMsg v \<Rightarrow> Some (e, []))"

primrec send_events ::
  "(code \<Rightarrow> u8 \<Rightarrow> trace_msg) \<Rightarrow> protocol \<Rightarrow> bytes list \<Rightarrow> event list \<Rightarrow> event list option" where
  \<comment> \<open>the loops \<open>for d in &result.to_send\<close> of \<open>handle_lcp\<close> and \<open>handle_ipcp\<close>\<close>
  "send_events trace proto [] events = Some events"
| "send_events trace proto (d # ds) events = do {
     decoded \<leftarrow> cp_decode d;
     let events1 = (case decoded of
         Some f \<Rightarrow> events @ [Trace (trace (f_code f) (f_id f))]
       | None \<Rightarrow> events);
     send_events trace proto ds (events1 @ [Send (wrap_data proto d)])
   }"

definition handle_lcp :: "draws \<Rightarrow> engine \<Rightarrow> bytes \<Rightarrow> (engine \<times> event list) option" where
  "handle_lcp rnd e payload = do {
     decoded \<leftarrow> cp_decode payload;
     let events0 = (case decoded of
         Some f \<Rightarrow> [Trace (LcpRecv (f_code f) (f_id f) (length (f_data f)))]
       | None \<Rightarrow> [Trace (LcpRecvMalformed (length payload))]);
     (lcp1, result) \<leftarrow> lcp_receive (rnd_u32 rnd) (e_lcp e) payload;
     let e1 = e\<lparr>e_lcp := lcp1\<rparr>;
     events \<leftarrow> send_events LcpSend ProtoLcp (lr_to_send result) events0;
     Some (if lr_up result \<and> e_phase e1 = PhaseLcp then
             (case lcp_peer_auth (e_lcp e1) of
                Some req \<Rightarrow>
                  if is_mschapv2 req then (e1\<lparr>e_phase := PhaseChap\<rparr>, events)
                  else (e1, [Fatal OtherAuthMethodRequired])
              | None \<Rightarrow> (e1, [Fatal NoAuthRequested]))
           else (e1, events))
   }"

definition on_challenge :: "crypto \<Rightarrow> draws \<Rightarrow> engine \<Rightarrow> chap_frame \<Rightarrow> event \<Rightarrow> (engine \<times> event list) option" where
  \<comment> \<open>the \<open>Challenge\<close> arm of \<open>handle_chap\<close>; \<open>recv\<close> is the trace of the frame\<close>
  "on_challenge cr rnd e frame recv = do {
     parsed \<leftarrow> parse_challenge frame;
     case parsed of
       None \<Rightarrow> Some (e, [Fatal MalformedChallenge])
     | Some info \<Rightarrow>
         if length (ci_value info) \<noteq> 16
         then Some (e, [Fatal (ChallengeNot16Bytes (length (ci_value info)))])
         else do {
           let e1 = e\<lparr>e_auth_challenge := Some (ci_value info)\<rparr>;
           built \<leftarrow> build_response cr (rnd_16 rnd) info (e_username e1) (e_password e1);
           Some (case built of
             Inr (wire, pending) \<Rightarrow>
               (e1\<lparr>e_pending_chap := Some pending\<rparr>,
                [recv, Trace (ChapSendResponse (cf_id frame) (e_username e1)),
                 Send (wrap_data ProtoChap wire)])
           | Inl err \<Rightarrow> (e1, [recv, Fatal (CouldNotBuildResponse err)]))
         }
   }"

definition on_success :: "crypto \<Rightarrow> engine \<Rightarrow> chap_frame \<Rightarrow> event \<Rightarrow> (engine \<times> event list) option" where
  \<comment> \<open>the \<open>Success\<close> arm of \<open>handle_chap\<close>\<close>
  "on_success cr e frame recv =
     (let taken = e_pending_chap e;
          e1 = e\<lparr>e_pending_chap := None\<rparr>
      in case (taken, e_auth_challenge e1) of
           (Some pending, Some auth_challenge) \<Rightarrow> do {
             verified \<leftarrow> verify_success cr (cf_data frame) (e_password e1) pending auth_challenge (e_username e1);
             if \<not> verified
             then Some (e1, [Fatal (AuthenticatorMismatch (from_utf8_lossy (cf_data frame)))])
             else do {
               keys \<leftarrow> mppe_get_keys cr (e_password e1) (pr_nt_response pending) False;
               let e2 = e1\<lparr>e_mppe_keys := Some keys, e_phase := PhaseIpcp\<rparr>;
               let (ipcp1, ipcp_req) = ipcp_start (e_ipcp e2);
               Some (e2\<lparr>e_ipcp := ipcp1\<rparr>,
                     [recv, Trace ChapSuccessVerified, Send (wrap_data ProtoIpcp ipcp_req)])
             }
           }
         | _ \<Rightarrow> Some (e1, [Fatal SuccessWithoutPending]))"

definition handle_chap :: "crypto \<Rightarrow> draws \<Rightarrow> engine \<Rightarrow> bytes \<Rightarrow> (engine \<times> event list) option" where
  "handle_chap cr rnd e payload = do {
     decoded \<leftarrow> chap_decode payload;
     case decoded of
       None \<Rightarrow> Some (e, [Fatal MalformedChap])
     | Some frame \<Rightarrow>
         let recv = Trace (ChapRecv (cf_code frame) (cf_id frame) (length (cf_data frame)))
         in case cf_code frame of
              Challenge \<Rightarrow> on_challenge cr rnd e frame recv
            | Success \<Rightarrow> on_success cr e frame recv
            | Failure \<Rightarrow> Some (e, [recv, Fatal (ChapAuthFailed (from_utf8_lossy (cf_data frame)))])
            | _ \<Rightarrow> Some (e, [recv, Fatal (UnexpectedChapCode (cf_code frame))])
   }"

definition finish_handshake :: "crypto \<Rightarrow> engine \<Rightarrow> event list \<Rightarrow> (engine \<times> event list) option" where
  \<comment> \<open>the last block of \<open>handle_ipcp\<close>; each \<open>expect\<close> is a bind of the \<open>Option\<close> itself\<close>
  "finish_handshake cr e0 events = do {
     let e = e0\<lparr>e_phase := PhaseEstablished\<rparr>;
     algo \<leftarrow> e_hash_algo e;
     nonce \<leftarrow> e_server_nonce e;
     let cert_hash = (case algo of AlgoSha1 \<Rightarrow> e_cert_hash_sha1 e | AlgoSha256 \<Rightarrow> e_cert_hash_sha256 e);
     keys \<leftarrow> e_mppe_keys e;
     connected_pkt \<leftarrow> build_connected_message cr algo nonce cert_hash (send_key keys) (recv_key keys);
     Some (e, events @ [Send connected_pkt, Established (ipcp_negotiated (e_ipcp e)) keys])
   }"

definition handle_ipcp :: "crypto \<Rightarrow> engine \<Rightarrow> bytes \<Rightarrow> (engine \<times> event list) option" where
  "handle_ipcp cr e payload = do {
     decoded \<leftarrow> cp_decode payload;
     let events0 = (case decoded of
         Some f \<Rightarrow> [Trace (IpcpRecv (f_code f) (f_id f) (length (f_data f)))]
       | None \<Rightarrow> []);
     (ipcp1, result) \<leftarrow> ipcp_receive (e_ipcp e) payload;
     let e1 = e\<lparr>e_ipcp := ipcp1\<rparr>;
     events \<leftarrow> send_events IpcpSend ProtoIpcp (ir_to_send result) events0;
     if ir_up result \<and> e_phase e1 = PhaseIpcp then finish_handshake cr e1 events
     else Some (e1, events)
   }"

definition protocol_reject :: "engine \<Rightarrow> bytes \<Rightarrow> engine \<times> event list" where
  \<comment> \<open>the arm of \<open>on_ppp_frame\<close> for PAP and unknown protocols\<close>
  "protocol_reject e frame =
     (let (lcp1, reject) = lcp_build_protocol_reject (e_lcp e) (strip_address_control frame)
      in (e\<lparr>e_lcp := lcp1\<rparr>, [Send (wrap_data ProtoLcp reject)]))"

definition on_ppp_frame :: "crypto \<Rightarrow> draws \<Rightarrow> engine \<Rightarrow> bytes \<Rightarrow> (engine \<times> event list) option" where
  "on_ppp_frame cr rnd e frame = do {
     decoded \<leftarrow> ppp_decode frame;
     case decoded of
       None \<Rightarrow> Some (e, [])
     | Some (proto, payload) \<Rightarrow>
         (case proto of
            ProtoLcp \<Rightarrow> handle_lcp rnd e payload
          | ProtoChap \<Rightarrow> handle_chap cr rnd e payload
          | ProtoIpcp \<Rightarrow> handle_ipcp cr e payload
          | ProtoIp \<Rightarrow> Some (e, [DeliverIpPacket payload])
          | ProtoPap \<Rightarrow> Some (protocol_reject e frame)
          | UnknownProto v \<Rightarrow> Some (protocol_reject e frame))
   }"

definition on_packet :: "crypto \<Rightarrow> draws \<Rightarrow> engine \<Rightarrow> packet \<Rightarrow> (engine \<times> event list) option" where
  "on_packet cr rnd e pkt =
     (case pkt of
        Ctrl m attrs \<Rightarrow> on_ctrl e m attrs
      | Data ppp_frame \<Rightarrow> on_ppp_frame cr rnd e ppp_frame)"

section \<open>Facts\<close>

subsection \<open>The handlers in normal form\<close>

definition send_event :: "(code \<Rightarrow> u8 \<Rightarrow> trace_msg) \<Rightarrow> protocol \<Rightarrow> bytes \<Rightarrow> event list" where
  "send_event trace proto d =
     (case cp_decode d of Some (Some f) \<Rightarrow> [Trace (trace (f_code f) (f_id f))] | _ \<Rightarrow> []) @
     [Send (wrap_data proto d)]"

lemma send_events_eq:
  "send_events trace proto ds events = Some (events @ concat (map (send_event trace proto) ds))"
proof (induction ds arbitrary: events)
  case (Cons d ds)
  obtain x where "cp_decode d = Some x"
    using runs_cp_decode [of d] by (auto simp: runs_def)
  then show ?case
    using Cons by (simp add: send_event_def Let_def split: option.split)
qed simp

lemma runs_send_events [runs_intro]: "runs (send_events trace proto ds events)"
  by (simp add: send_events_eq)

lemma runs_describe_status [runs_intro]: "runs (describe_status attrs)"
  unfolding describe_status_def by (intro runs_intro) auto

lemma runs_on_connect_ack [runs_intro]: "runs (on_connect_ack e attrs)"
  unfolding on_connect_ack_def by (intro runs_intro) auto

lemma runs_on_ctrl [runs_intro]: "runs (on_ctrl e m attrs)"
  unfolding on_ctrl_def by (cases m) (simp_all add: runs_intro)

lemma runs_handle_lcp [runs_intro]: "runs (handle_lcp rnd e p)"
  unfolding handle_lcp_def by (intro runs_intro)

lemma runs_on_challenge [runs_intro]: "crypto_ok cr \<Longrightarrow> runs (on_challenge cr rnd e f recv)"
  unfolding on_challenge_def by (intro runs_intro)

lemma runs_on_success [runs_intro]: "crypto_ok cr \<Longrightarrow> runs (on_success cr e f recv)"
  unfolding on_success_def by (intro runs_intro)

lemma runs_handle_chap [runs_intro]:
  assumes "crypto_ok cr"
  shows "runs (handle_chap cr rnd e p)"
proof -
  have "runs (case cf_code f of
              Challenge \<Rightarrow> on_challenge cr rnd e f recv
            | Success \<Rightarrow> on_success cr e f recv
            | Failure \<Rightarrow> Some (e, [recv, Fatal (ChapAuthFailed (from_utf8_lossy (cf_data f)))])
            | _ \<Rightarrow> Some (e, [recv, Fatal (UnexpectedChapCode (cf_code f))]))" for f recv
    using assms by (cases "cf_code f") (simp_all add: runs_intro)
  then show ?thesis
    unfolding handle_chap_def Let_def by (intro runs_intro)
qed

definition lens :: "nat \<Rightarrow> bytes option \<Rightarrow> bool" where
  "lens n x \<longleftrightarrow> (case x of Some b \<Rightarrow> length b = n | None \<Rightarrow> True)"

text \<open>
  The invariant of the engine: fixed-size arrays have their size, the crypto-bind request is
  there from the LCP phase on, and the MPPE keys from the IPCP phase on.
\<close>

definition keys_ok :: "mppe_keys \<Rightarrow> bool" where
  "keys_ok k \<longleftrightarrow> length (send_key k) = 16 \<and> length (recv_key k) = 16"

definition engine_ok :: "engine \<Rightarrow> bool" where
  "engine_ok e \<longleftrightarrow>
     lcp_inv (e_lcp e) \<and> ipcp_inv (e_ipcp e) \<and>
     length (e_cert_hash_sha1 e) = 32 \<and> length (e_cert_hash_sha256 e) = 32 \<and>
     lens 32 (e_server_nonce e) \<and> (e_server_nonce e = None \<longleftrightarrow> e_hash_algo e = None) \<and>
     pred_option keys_ok (e_mppe_keys e) \<and>
     (e_phase e = PhaseIpcp \<or> e_phase e = PhaseEstablished \<longrightarrow> e_mppe_keys e \<noteq> None) \<and>
     (e_phase e = PhaseLcp \<or> e_phase e = PhaseChap \<longrightarrow> e_hash_algo e \<noteq> None)"

definition cert_hash_of :: "engine \<Rightarrow> hash_algo \<Rightarrow> bytes" where
  "cert_hash_of e algo =
     (case algo of AlgoSha1 \<Rightarrow> e_cert_hash_sha1 e | AlgoSha256 \<Rightarrow> e_cert_hash_sha256 e)"

lemma finish_handshake_eq:
  "finish_handshake cr e events =
    (case (e_hash_algo e, e_server_nonce e, e_mppe_keys e) of
       (Some algo, Some nonce, Some keys) \<Rightarrow>
         map_option (\<lambda>pkt. (e\<lparr>e_phase := PhaseEstablished\<rparr>,
             events @ [Send pkt, Established (ipcp_negotiated (e_ipcp e)) keys]))
           (build_connected_message cr algo nonce (cert_hash_of e algo) (send_key keys) (recv_key keys))
     | _ \<Rightarrow> None)"
proof -
  have "(case algo of AlgoSha1 \<Rightarrow> e_cert_hash_sha1 (e\<lparr>e_phase := PhaseEstablished\<rparr>)
      | AlgoSha256 \<Rightarrow> e_cert_hash_sha256 (e\<lparr>e_phase := PhaseEstablished\<rparr>)) = cert_hash_of e algo" for algo
    by (cases algo) (simp_all add: cert_hash_of_def)
  then show ?thesis
    by (auto simp: finish_handshake_def Let_def map_option_case split: option.splits bind_splits)
qed

lemma connected_message_runs:
  assumes "engine_ok e" "crypto_ok cr" "e_hash_algo e = Some algo" "e_mppe_keys e = Some keys"
  obtains nonce pkt where "e_server_nonce e = Some nonce" "length nonce = 32"
    "build_connected_message cr algo nonce (cert_hash_of e algo) (send_key keys) (recv_key keys) = Some pkt"
proof -
  obtain nonce where n: "e_server_nonce e = Some nonce" "length nonce = 32"
    using assms by (auto simp: engine_ok_def lens_def)
  have "runs (build_connected_message cr algo nonce (cert_hash_of e algo) (send_key keys) (recv_key keys))"
    using assms n by (intro runs_build_connected_message)
      (cases algo, auto simp: engine_ok_def keys_ok_def cert_hash_of_def)
  with n that show thesis by (auto simp: runs_def)
qed

lemma runs_finish_handshake:
  assumes "engine_ok e" "crypto_ok cr" "e_mppe_keys e \<noteq> None"
  shows "runs (finish_handshake cr e events) \<longleftrightarrow> e_hash_algo e \<noteq> None"
proof (cases "e_hash_algo e")
  case None
  then show ?thesis by (simp add: finish_handshake_eq runs_def)
next
  case (Some algo)
  moreover obtain keys where "e_mppe_keys e = Some keys" using assms(3) by blast
  ultimately show ?thesis
    using connected_message_runs [OF assms(1,2) Some] by (metis (no_types, lifting) finish_handshake_eq
      old.prod.case option.simps(3) option.simps(5) option.simps(9) runs_Some)
qed

text \<open>Which IPCP payload completes the handshake.\<close>

definition completes :: "engine \<Rightarrow> bytes \<Rightarrow> bool" where
  "completes e payload \<longleftrightarrow> e_phase e = PhaseIpcp \<and>
     (\<exists>s r. ipcp_receive (e_ipcp e) payload = Some (s, r) \<and> ir_up r)"

lemma handle_ipcp_eq:
  "\<exists>s r ts. ipcp_receive (e_ipcp e) payload = Some (s, r) \<and> ir_up r = ipcp_is_up s \<and>
    (ts = [] \<or> (\<exists>t. ts = [Trace t])) \<and>
    handle_ipcp cr e payload =
      (let events = ts @ concat (map (send_event IpcpSend ProtoIpcp) (ir_to_send r))
       in if completes e payload then finish_handshake cr (e\<lparr>e_ipcp := s\<rparr>) events
          else Some (e\<lparr>e_ipcp := s\<rparr>, events))"
proof -
  obtain d where d: "cp_decode payload = Some d"
    using runs_cp_decode [of payload] by (auto simp: runs_def)
  obtain s r where r: "ipcp_receive (e_ipcp e) payload = Some (s, r)"
    using runs_ipcp_receive [of "e_ipcp e" payload] by (auto simp: runs_def)
  then have "ipcp_rcv () (e_ipcp e) payload = Some (s, ir_to_send r, ir_up r)"
    by (simp add: ipcp_rcv_def)
  then have u: "ir_up r = ipcp_is_up s"
    using ipcp_neg.up_flag by (simp add: ipcp_is_up_view)
  define ts where "ts = (case d of
    Some f \<Rightarrow> [Trace (IpcpRecv (f_code f) (f_id f) (length (f_data f)))] | None \<Rightarrow> [])"
  have "ts = [] \<or> (\<exists>t. ts = [Trace t])"
    by (auto simp: ts_def split: option.split)
  moreover have "handle_ipcp cr e payload =
      (let events = ts @ concat (map (send_event IpcpSend ProtoIpcp) (ir_to_send r))
       in if completes e payload then finish_handshake cr (e\<lparr>e_ipcp := s\<rparr>) events
          else Some (e\<lparr>e_ipcp := s\<rparr>, events))"
    by (simp add: handle_ipcp_def d r send_events_eq Let_def completes_def ts_def)
  ultimately show ?thesis using r u by blast
qed

subsection \<open>Every handler preserves the invariant\<close>

lemma engine_new_ok:
  assumes "crypto_ok cr" "engine_new cr magic user pw cert = Some e"
  shows "engine_ok e"
  using assms lcp_new_inv [of magic] ipcp_new_inv
  by (auto simp: engine_new_def engine_ok_def crypto_lengths lens_def Let_def)

lemma lcp_start_inv: "lcp_inv l \<Longrightarrow> lcp_inv (fst (lcp_start l))"
  by (simp add: lcp_start_def lcp_send_config_request_def lcp_inv_def Let_def)

lemma ipcp_start_inv: "ipcp_inv s \<Longrightarrow> ipcp_inv (fst (ipcp_start s))"
  by (simp add: ipcp_start_def ipcp_send_config_request_def ipcp_inv_def Let_def)

lemma lcp_receive_inv: "lcp_inv l \<Longrightarrow> lcp_receive rnd l d = Some (l', r) \<Longrightarrow> lcp_inv l'"
  using lcp_neg.preserves [of l rnd d l' "lr_to_send r" "lr_up r"] by (simp add: lcp_rcv_def)

lemma ipcp_receive_inv: "ipcp_inv s \<Longrightarrow> ipcp_receive s d = Some (s', r) \<Longrightarrow> ipcp_inv s'"
  using ipcp_neg.preserves [of s "()" d s' "ir_to_send r" "ir_up r"] by (simp add: ipcp_rcv_def)

text \<open>The three outcomes of a CONNECT_ACK.\<close>

definition connect_ack_data :: "attr list \<Rightarrow> bytes option" where
  "connect_ack_data attrs =
     map_option attr_data (List.find (\<lambda>a. attr_type a = CryptoBindRequest) attrs)"

definition offered_algo :: "bytes \<Rightarrow> hash_algo" where
  "offered_algo d = (if d ! 3 AND 0x02 \<noteq> 0 then AlgoSha256 else AlgoSha1)"

lemma on_connect_ack_eq:
  "on_connect_ack e attrs = Some
     (if e_phase e \<noteq> WaitConnectAck then (e, [])
      else case connect_ack_data attrs of
        None \<Rightarrow> (e, [Fatal MissingCryptoBindRequest])
      | Some d \<Rightarrow>
          if length d \<noteq> 36 then (e, [Fatal (BadCryptoBindRequestLength (length d))])
          else (e\<lparr>e_hash_algo := Some (offered_algo d), e_server_nonce := Some (drop 4 d),
                  e_phase := PhaseLcp, e_lcp := fst (lcp_start (e_lcp e))\<rparr>,
                [Trace (ConnectAckOk (offered_algo d)),
                 Send (wrap_data ProtoLcp (snd (lcp_start (e_lcp e))))]))"
  by (auto simp: on_connect_ack_def connect_ack_data_def offered_algo_def Let_def
      split: option.split prod.split)

lemma on_connect_ack_ok: "engine_ok e \<Longrightarrow> on_connect_ack e attrs = Some (e', evs) \<Longrightarrow> engine_ok e'"
  by (auto simp: on_connect_ack_eq engine_ok_def lens_def lcp_start_inv
      split: if_splits option.splits)

lemma on_ctrl_ok: "engine_ok e \<Longrightarrow> on_ctrl e m attrs = Some (e', evs) \<Longrightarrow> engine_ok e'"
  by (cases m) (auto simp: on_ctrl_def on_connect_ack_ok bind_eq_Some_conv)

lemma handle_lcp_cases:
  assumes "handle_lcp rnd e p = Some (e', evs)"
  obtains l r where "lcp_receive (rnd_u32 rnd) (e_lcp e) p = Some (l, r)" "lr_up r = lcp_is_up l"
    "e' = e\<lparr>e_lcp := l\<rparr> \<or>
     e_phase e = PhaseLcp \<and> lcp_is_up l \<and> lcp_peer_auth l = Some MSCHAPV2 \<and>
       e' = e\<lparr>e_lcp := l, e_phase := PhaseChap\<rparr>"
    "\<exists>t. evs = Trace t # concat (map (send_event LcpSend ProtoLcp) (lr_to_send r)) \<or>
         evs = [Fatal OtherAuthMethodRequired] \<or> evs = [Fatal NoAuthRequested]"
proof -
  obtain d where d: "cp_decode p = Some d"
    using runs_cp_decode [of p] by (auto simp: runs_def)
  obtain l r where r: "lcp_receive (rnd_u32 rnd) (e_lcp e) p = Some (l, r)"
    using runs_lcp_receive [of "rnd_u32 rnd" "e_lcp e" p] by (auto simp: runs_def)
  then have "lcp_rcv (rnd_u32 rnd) (e_lcp e) p = Some (l, lr_to_send r, lr_up r)"
    by (simp add: lcp_rcv_def)
  then have u: "lr_up r = lcp_is_up l"
    using lcp_neg.up_flag by (simp add: lcp_is_up_view)
  have "(e' = e\<lparr>e_lcp := l\<rparr> \<or>
     e_phase e = PhaseLcp \<and> lcp_is_up l \<and> lcp_peer_auth l = Some MSCHAPV2 \<and>
       e' = e\<lparr>e_lcp := l, e_phase := PhaseChap\<rparr>) \<and>
    (\<exists>t. evs = Trace t # concat (map (send_event LcpSend ProtoLcp) (lr_to_send r)) \<or>
         evs = [Fatal OtherAuthMethodRequired] \<or> evs = [Fatal NoAuthRequested])"
    using assms u
    by (auto simp: handle_lcp_def d r send_events_eq is_mschapv2_iff Let_def
        split: if_splits option.splits)
  with r u show thesis by (intro that) auto
qed

lemma handle_lcp_ok:
  assumes "engine_ok e" "handle_lcp rnd e p = Some (e', evs)"
  shows "engine_ok e'"
proof -
  obtain l r where r: "lcp_receive (rnd_u32 rnd) (e_lcp e) p = Some (l, r)"
    and c: "e' = e\<lparr>e_lcp := l\<rparr> \<or> e_phase e = PhaseLcp \<and> lcp_is_up l \<and>
      lcp_peer_auth l = Some MSCHAPV2 \<and> e' = e\<lparr>e_lcp := l, e_phase := PhaseChap\<rparr>"
    by (rule handle_lcp_cases [OF assms(2)]) (rule that)
  have "lcp_inv l"
    using lcp_receive_inv [OF _ r] assms(1) by (simp add: engine_ok_def)
  with assms(1) have l: "engine_ok (e\<lparr>e_lcp := l\<rparr>)"
    by (simp add: engine_ok_def)
  from c show ?thesis
  proof (elim disjE conjE)
    assume "e' = e\<lparr>e_lcp := l\<rparr>"
    with l show ?thesis by simp
  next
    assume "e_phase e = PhaseLcp" "e' = e\<lparr>e_lcp := l, e_phase := PhaseChap\<rparr>"
    with l show ?thesis by (simp add: engine_ok_def)
  qed
qed

lemma on_challenge_simps:
  "parse_challenge f = Some None \<Longrightarrow> on_challenge cr rnd e f recv = Some (e, [Fatal MalformedChallenge])"
  "parse_challenge f = Some (Some info) \<Longrightarrow> length (ci_value info) \<noteq> 16 \<Longrightarrow>
   on_challenge cr rnd e f recv = Some (e, [Fatal (ChallengeNot16Bytes (length (ci_value info)))])"
  "parse_challenge f = Some (Some info) \<Longrightarrow> length (ci_value info) = 16 \<Longrightarrow>
   build_response cr (rnd_16 rnd) info (e_username e) (e_password e) = Some (Inr (wire, pending)) \<Longrightarrow>
   on_challenge cr rnd e f recv =
     Some (e\<lparr>e_auth_challenge := Some (ci_value info), e_pending_chap := Some pending\<rparr>,
       [recv, Trace (ChapSendResponse (cf_id f) (e_username e)), Send (wrap_data ProtoChap wire)])"
  unfolding on_challenge_def Let_def by simp_all

lemma build_response_16:
  assumes "crypto_ok cr" "length (ci_value info) = 16"
  obtains wire pending where "build_response cr pc info user pw = Some (Inr (wire, pending))"
  using assms(1) by (cases rule: build_response_cases [of cr info pc user pw]) (use assms(2) that in auto)

lemma on_challenge_cases:
  assumes "crypto_ok cr" "on_challenge cr rnd e f recv = Some (e', evs)"
  obtains (fatal) msg where "e' = e" "evs = [Fatal msg]"
    | (respond) info wire pending where "parse_challenge f = Some (Some info)"
      "length (ci_value info) = 16"
      "build_response cr (rnd_16 rnd) info (e_username e) (e_password e) = Some (Inr (wire, pending))"
      "e' = e\<lparr>e_auth_challenge := Some (ci_value info), e_pending_chap := Some pending\<rparr>"
      "evs = [recv, Trace (ChapSendResponse (cf_id f) (e_username e)), Send (wrap_data ProtoChap wire)]"
proof -
  consider (none) "parse_challenge f = Some None"
    | (bad) info where "parse_challenge f = Some (Some info)" "length (ci_value info) \<noteq> 16"
    | (ok) info where "parse_challenge f = Some (Some info)" "length (ci_value info) = 16"
    using runs_parse_challenge [of f] by (metis not_None_eq runs_def)
  then show thesis
  proof cases
    case none
    then show thesis using assms(2) on_challenge_simps(1) [OF none] fatal by fastforce
  next
    case (bad info)
    then show thesis using assms(2) on_challenge_simps(2) [OF bad] fatal by fastforce
  next
    case (ok info)
    obtain wire pending where
      b: "build_response cr (rnd_16 rnd) info (e_username e) (e_password e) = Some (Inr (wire, pending))"
      using assms(1) ok(2) by (rule build_response_16)
    show thesis
      using respond [OF ok b] on_challenge_simps(3) [OF ok b, of recv] assms(2) by simp
  qed
qed

lemma on_success_cases:
  assumes "crypto_ok cr" "on_success cr e f recv = Some (e', evs)"
  obtains (fatal) msg where "e' = e\<lparr>e_pending_chap := None\<rparr>" "evs = [Fatal msg]"
    | (verified) pending ac keys where "e_pending_chap e = Some pending" "e_auth_challenge e = Some ac"
      "verify_success cr (cf_data f) (e_password e) pending ac (e_username e) = Some True"
      "mppe_get_keys cr (e_password e) (pr_nt_response pending) False = Some keys" "keys_ok keys"
      "e' = e\<lparr>e_pending_chap := None, e_mppe_keys := Some keys, e_phase := PhaseIpcp,
              e_ipcp := fst (ipcp_start (e_ipcp e))\<rparr>"
      "evs = [recv, Trace ChapSuccessVerified,
              Send (wrap_data ProtoIpcp (snd (ipcp_start (e_ipcp e))))]"
proof (cases "e_pending_chap e = None \<or> e_auth_challenge e = None")
  case True
  with assms(2) show thesis
    by (intro fatal) (auto simp: on_success_def Let_def split: option.splits)
next
  case False
  then obtain pending ac where p: "e_pending_chap e = Some pending" "e_auth_challenge e = Some ac"
    by auto
  obtain b where b: "verify_success cr (cf_data f) (e_password e) pending ac (e_username e) = Some b"
    using runs_verify_success [OF assms(1), of "cf_data f" "e_password e" pending ac "e_username e"]
    by (auto simp: runs_def)
  obtain keys where k: "mppe_get_keys cr (e_password e) (pr_nt_response pending) False = Some keys"
    "length (send_key keys) = 16" "length (recv_key keys) = 16"
    using assms(1) by (rule mppe_get_keys_Some)
  show thesis
  proof (cases b)
    case True
    with b have "verify_success cr (cf_data f) (e_password e) pending ac (e_username e) = Some True"
      by simp
    from verified [OF p this k(1)] assms(2) p b True k show thesis
      by (auto simp: on_success_def Let_def keys_ok_def split: prod.splits)
  next
    case False
    with assms(2) p b show thesis
      by (intro fatal) (auto simp: on_success_def Let_def)
  qed
qed

lemma on_challenge_ok:
  assumes "crypto_ok cr" "engine_ok e" "on_challenge cr rnd e f recv = Some (e', evs)"
  shows "engine_ok e'"
  using assms(1,3)
proof (cases rule: on_challenge_cases)
  case (fatal msg)
  with assms(2) show ?thesis by simp
next
  case (respond info wire pending)
  with assms(2) show ?thesis by (simp add: engine_ok_def)
qed

lemma on_success_ok:
  assumes "crypto_ok cr" "engine_ok e" "on_success cr e f recv = Some (e', evs)"
  shows "engine_ok e'"
  using assms(1,3)
proof (cases rule: on_success_cases)
  case (fatal msg)
  with assms(2) show ?thesis by (simp add: engine_ok_def)
next
  case (verified pending ac keys)
  have "ipcp_inv (fst (ipcp_start (e_ipcp e)))"
    using assms(2) by (intro ipcp_start_inv) (simp add: engine_ok_def)
  with verified assms(2) show ?thesis by (simp add: engine_ok_def)
qed

text \<open>What a CHAP frame can do to the engine.\<close>

lemma handle_chap_cases:
  assumes "handle_chap cr rnd e p = Some (e', evs)"
  obtains (other) "e' = e" "(\<exists>msg. evs = [Fatal msg]) \<or> (\<exists>t msg. evs = [Trace t, Fatal msg])"
    | (challenge) f t where "chap_decode p = Some (Some f)" "cf_code f = Challenge"
      "on_challenge cr rnd e f (Trace t) = Some (e', evs)"
    | (success) f t where "chap_decode p = Some (Some f)" "cf_code f = Success"
      "on_success cr e f (Trace t) = Some (e', evs)"
proof -
  obtain x where x: "chap_decode p = Some x"
    using runs_chap_decode [of p] by (auto simp: runs_def)
  show thesis
  proof (cases x)
    case None
    with x assms have "e' = e \<and> evs = [Fatal MalformedChap]" by (auto simp: handle_chap_def)
    then show thesis using other by blast
  next
    case (Some f)
    then have f: "chap_decode p = Some (Some f)" using x by simp
    show thesis
    proof (cases "cf_code f")
      case Challenge
      with f assms challenge show thesis by (simp add: handle_chap_def Let_def)
    next
      case Success
      with f assms success show thesis by (simp add: handle_chap_def Let_def)
    qed (use f assms in \<open>auto simp: handle_chap_def Let_def intro: other\<close>)
  qed
qed

lemma handle_chap_ok:
  assumes "crypto_ok cr" "engine_ok e" "handle_chap cr rnd e p = Some (e', evs)"
  shows "engine_ok e'"
  using assms(3)
proof (cases rule: handle_chap_cases)
  case other
  with assms(2) show ?thesis by simp
next
  case (challenge f t)
  with assms show ?thesis using on_challenge_ok by blast
next
  case (success f t)
  with assms show ?thesis using on_success_ok by blast
qed

lemma finish_handshake_Some:
  assumes "finish_handshake cr e events = Some (e', evs)"
  obtains algo nonce keys pkt where "e_hash_algo e = Some algo" "e_server_nonce e = Some nonce"
    "e_mppe_keys e = Some keys"
    "build_connected_message cr algo nonce (cert_hash_of e algo) (send_key keys) (recv_key keys) = Some pkt"
    "e' = e\<lparr>e_phase := PhaseEstablished\<rparr>"
    "evs = events @ [Send pkt, Established (ipcp_negotiated (e_ipcp e)) keys]"
  using assms that by (auto simp: finish_handshake_eq split: option.splits)

text \<open>What an IPCP payload can do: update IPCP, and complete the handshake.\<close>

lemma handle_ipcp_cases:
  assumes "handle_ipcp cr e p = Some (e', evs)"
  obtains (update) s r ts where "ipcp_receive (e_ipcp e) p = Some (s, r)" "\<not> completes e p"
      "e' = e\<lparr>e_ipcp := s\<rparr>" "ts = [] \<or> (\<exists>t. ts = [Trace t])"
      "evs = ts @ concat (map (send_event IpcpSend ProtoIpcp) (ir_to_send r))"
    | (finish) s r ts algo nonce keys pkt where "ipcp_receive (e_ipcp e) p = Some (s, r)" "completes e p"
      "ipcp_is_up s" "e_hash_algo e = Some algo" "e_server_nonce e = Some nonce" "e_mppe_keys e = Some keys"
      "build_connected_message cr algo nonce (cert_hash_of e algo) (send_key keys) (recv_key keys) = Some pkt"
      "e' = e\<lparr>e_ipcp := s, e_phase := PhaseEstablished\<rparr>" "ts = [] \<or> (\<exists>t. ts = [Trace t])"
      "evs = ts @ concat (map (send_event IpcpSend ProtoIpcp) (ir_to_send r)) @
        [Send pkt, Established (ipcp_negotiated s) keys]"
proof -
  obtain s r ts where r: "ipcp_receive (e_ipcp e) p = Some (s, r)" and u: "ir_up r = ipcp_is_up s"
    and ts: "ts = [] \<or> (\<exists>t. ts = [Trace t])"
    and h: "handle_ipcp cr e p =
      (let events = ts @ concat (map (send_event IpcpSend ProtoIpcp) (ir_to_send r))
       in if completes e p then finish_handshake cr (e\<lparr>e_ipcp := s\<rparr>) events
          else Some (e\<lparr>e_ipcp := s\<rparr>, events))"
    using handle_ipcp_eq [of e p cr] by blast
  have cert: "cert_hash_of (e\<lparr>e_ipcp := s\<rparr>) a = cert_hash_of e a" for a
    by (cases a) (simp_all add: cert_hash_of_def)
  show thesis
  proof (cases "completes e p")
    case False
    with h assms ts r show thesis by (intro update [of s r ts]) simp_all
  next
    case True
    then have "ipcp_is_up s" using r u by (auto simp: completes_def)
    moreover have "finish_handshake cr (e\<lparr>e_ipcp := s\<rparr>)
        (ts @ concat (map (send_event IpcpSend ProtoIpcp) (ir_to_send r))) = Some (e', evs)"
      using h assms True by (simp add: Let_def)
    ultimately show thesis
      using finish [OF r True _ _ _ _ _ _ ts] cert by (auto elim!: finish_handshake_Some)
  qed
qed

lemma handle_ipcp_ok:
  assumes "engine_ok e" "handle_ipcp cr e p = Some (e', evs)"
  shows "engine_ok e'"
  using assms(2)
proof (cases rule: handle_ipcp_cases)
  case (update s r ts)
  have "ipcp_inv s"
    using ipcp_receive_inv [OF _ update(1)] assms(1) by (simp add: engine_ok_def)
  with update(3) assms(1) show ?thesis by (simp add: engine_ok_def)
next
  case (finish s r ts algo nonce keys pkt)
  have "ipcp_inv s"
    using ipcp_receive_inv [OF _ finish(1)] assms(1) by (simp add: engine_ok_def)
  with finish assms(1) show ?thesis by (simp add: engine_ok_def)
qed

lemma protocol_reject_ok: "engine_ok e \<Longrightarrow> engine_ok (fst (protocol_reject e frame))"
  by (simp add: protocol_reject_def lcp_build_protocol_reject_def engine_ok_def lcp_inv_def Let_def)

lemma on_ppp_frame_cases:
  assumes "on_ppp_frame cr rnd e frame = Some (e', evs)"
  obtains (short) "ppp_decode frame = Some None" "e' = e" "evs = []"
    | (lcp) p where "ppp_decode frame = Some (Some (ProtoLcp, p))" "handle_lcp rnd e p = Some (e', evs)"
    | (chap) p where "ppp_decode frame = Some (Some (ProtoChap, p))" "handle_chap cr rnd e p = Some (e', evs)"
    | (ipcp) p where "ppp_decode frame = Some (Some (ProtoIpcp, p))" "handle_ipcp cr e p = Some (e', evs)"
    | (ip) p where "ppp_decode frame = Some (Some (ProtoIp, p))" "e' = e" "evs = [DeliverIpPacket p]"
    | (reject) proto p where "ppp_decode frame = Some (Some (proto, p))"
      "e' = fst (protocol_reject e frame)" "evs = snd (protocol_reject e frame)"
proof -
  obtain x where x: "ppp_decode frame = Some x"
    using runs_ppp_decode [of frame] by (auto simp: runs_def)
  show thesis
  proof (cases x)
    case None
    with x assms show thesis by (intro short) (auto simp: on_ppp_frame_def)
  next
    case (Some y)
    then obtain proto p where y: "ppp_decode frame = Some (Some (proto, p))"
      using x by (cases y) auto
    show thesis
      using assms y by (cases proto) (auto simp: on_ppp_frame_def intro: lcp chap ipcp ip reject)
  qed
qed

lemma on_packet_ok:
  assumes "crypto_ok cr" "engine_ok e" "on_packet cr rnd e pkt = Some (e', evs)"
  shows "engine_ok e'"
proof (cases pkt)
  case (Ctrl m attrs)
  with assms show ?thesis using on_ctrl_ok by (auto simp: on_packet_def)
next
  case (Data frame)
  with assms(3) have "on_ppp_frame cr rnd e frame = Some (e', evs)"
    by (simp add: on_packet_def)
  then show ?thesis
  proof (cases rule: on_ppp_frame_cases)
    case short
    with assms(2) show ?thesis by simp
  next
    case (lcp p)
    with assms(2) show ?thesis using handle_lcp_ok by blast
  next
    case (chap p)
    with assms(1,2) show ?thesis using handle_chap_ok by blast
  next
    case (ipcp p)
    with assms(2) show ?thesis using handle_ipcp_ok by blast
  next
    case (ip p)
    with assms(2) show ?thesis by simp
  next
    case (reject proto p)
    with assms(2) show ?thesis using protocol_reject_ok by blast
  qed
qed

lemma handle_ipcp_None:
  assumes "crypto_ok cr" "engine_ok e"
  shows "handle_ipcp cr e p = None \<longleftrightarrow> completes e p \<and> e_hash_algo e = None"
proof -
  obtain s r ts where r: "ipcp_receive (e_ipcp e) p = Some (s, r)"
    and h: "handle_ipcp cr e p =
      (let events = ts @ concat (map (send_event IpcpSend ProtoIpcp) (ir_to_send r))
       in if completes e p then finish_handshake cr (e\<lparr>e_ipcp := s\<rparr>) events
          else Some (e\<lparr>e_ipcp := s\<rparr>, events))"
    using handle_ipcp_eq [of e p cr] by blast
  have "ipcp_inv s"
    using ipcp_receive_inv [OF _ r] assms(2) by (simp add: engine_ok_def)
  then have ok: "engine_ok (e\<lparr>e_ipcp := s\<rparr>)"
    using assms(2) by (simp add: engine_ok_def)
  show ?thesis
  proof (cases "completes e p")
    case True
    then have "e_mppe_keys (e\<lparr>e_ipcp := s\<rparr>) \<noteq> None"
      using assms(2) by (auto simp: completes_def engine_ok_def)
    from runs_finish_handshake [OF ok assms(1) this,
        of "ts @ concat (map (send_event IpcpSend ProtoIpcp) (ir_to_send r))"]
    have "finish_handshake cr (e\<lparr>e_ipcp := s\<rparr>)
        (ts @ concat (map (send_event IpcpSend ProtoIpcp) (ir_to_send r))) = None \<longleftrightarrow> e_hash_algo e = None"
      unfolding runs_def by auto
    with h True show ?thesis by (simp add: Let_def)
  qed (simp add: h Let_def)
qed

lemma on_packet_None:
  assumes "crypto_ok cr" "engine_ok e"
  shows "on_packet cr rnd e pkt = None \<longleftrightarrow>
    e_hash_algo e = None \<and>
    (\<exists>frame p. pkt = Data frame \<and> ppp_decode frame = Some (Some (ProtoIpcp, p)) \<and> completes e p)"
proof (cases pkt)
  case (Ctrl m attrs)
  then show ?thesis
    using runs_on_ctrl [of e m attrs] by (simp add: on_packet_def runs_def)
next
  case (Data frame)
  obtain x where x: "ppp_decode frame = Some x"
    using runs_ppp_decode [of frame] by (auto simp: runs_def)
  show ?thesis
  proof (cases "\<exists>p. x = Some (ProtoIpcp, p)")
    case False
    have "runs (on_ppp_frame cr rnd e frame)"
    proof (cases x)
      case None
      with x show ?thesis by (simp add: on_ppp_frame_def)
    next
      case (Some y)
      obtain proto p where "y = (proto, p)" by (cases y)
      with x Some False show ?thesis
        using runs_handle_lcp [of rnd e p] runs_handle_chap [OF assms(1), of rnd e p]
        by (cases proto) (simp_all add: on_ppp_frame_def)
    qed
    with x Data False show ?thesis by (auto simp: on_packet_def runs_def)
  next
    case True
    with x Data handle_ipcp_None [OF assms] show ?thesis
      by (auto simp: on_packet_def on_ppp_frame_def)
  qed
qed

lemma wrap_data_decode:
  "length p \<le> 65527 \<Longrightarrow> packet_decode (wrap_data proto p @ rest) = Some (Inr (Data (ppp_encode proto p)))"
  by (simp add: wrap_data_def packet_decode_data)

lemma length_wrap_data [simp, wire]: "length (wrap_data proto p) = 8 + length p"
  by (simp add: wrap_data_def)

section \<open>Properties\<close>

text \<open>
  C6. The engine panics on a packet exactly when it is an IPCP frame that brings IPCP up in
  the IPCP phase of a session whose CONNECT_ACK was never handled; on every other packet, in
  every state that satisfies the invariant, it returns, and the invariant holds again.
\<close>

theorem engine_panics_only_without_connect_ack:
  assumes "crypto_ok cr" "engine_ok e"
  shows "(on_packet cr rnd e pkt = None \<longleftrightarrow>
      e_hash_algo e = None \<and>
      (\<exists>frame p. pkt = Data frame \<and> ppp_decode frame = Some (Some (ProtoIpcp, p)) \<and> completes e p)) \<and>
    (\<forall>e' evs. on_packet cr rnd e pkt = Some (e', evs) \<longrightarrow> engine_ok e')"
proof (intro conjI allI impI)
  show "on_packet cr rnd e pkt = None \<longleftrightarrow>
      e_hash_algo e = None \<and>
      (\<exists>frame p. pkt = Data frame \<and> ppp_decode frame = Some (Some (ProtoIpcp, p)) \<and> completes e p)"
    by (rule on_packet_None [OF assms])
qed (rule on_packet_ok [OF assms])

theorem engine_panics_only_without_connect_ack_witness:
  "\<exists>e e' evs. engine_new toy_crypto 7 (lit ''bob'') (lit ''pw'') [1, 2, 3] = Some e \<and>
     on_packet toy_crypto \<lparr>rnd_u32 = \<lambda>n. 0, rnd_16 = replicate 16 0\<rparr> e (Ctrl Disconnect []) = Some (e', evs) \<and>
     engine_ok e'"
proof -
  let ?rnd = "\<lparr>rnd_u32 = \<lambda>n::nat. 0 :: u32, rnd_16 = replicate 16 (0 :: u8)\<rparr>"
  obtain e where e: "engine_new toy_crypto 7 (lit ''bob'') (lit ''pw'') [1, 2, 3] = Some e"
    using toy_crypto_ok by (auto simp: engine_new_def crypto_lengths Let_def)
  note p = engine_panics_only_without_connect_ack [OF toy_crypto_ok engine_new_ok [OF toy_crypto_ok e],
      of ?rnd "Ctrl Disconnect []"]
  then obtain e' evs where "on_packet toy_crypto ?rnd e (Ctrl Disconnect []) = Some (e', evs)"
    by (cases "on_packet toy_crypto ?rnd e (Ctrl Disconnect [])") auto
  with p e show ?thesis by blast
qed

text \<open>
  The first CONNECT_ACK is honoured in the first phase only and at most once. Without a
  36-byte crypto-bind request it is fatal and changes nothing; with one it fixes the nonce and
  the hash algorithm, SHA-256 whenever bit 1 of the mask offers it, and starts LCP with a
  Configure-Request on the wire that asks for the options LCP desires.
\<close>

theorem connect_ack_starts_lcp:
  assumes "lcp_inv (e_lcp e)"
  shows "\<exists>e' evs. on_packet cr rnd e (Ctrl ConnectAck attrs) = Some (e', evs) \<and>
    (if e_phase e \<noteq> WaitConnectAck then e' = e \<and> evs = []
     else case connect_ack_data attrs of
       None \<Rightarrow> e' = e \<and> evs = [Fatal MissingCryptoBindRequest]
     | Some d \<Rightarrow>
         if length d \<noteq> 36 then e' = e \<and> evs = [Fatal (BadCryptoBindRequestLength (length d))]
         else e_phase e' = PhaseLcp \<and> e_server_nonce e' = Some (drop 4 d) \<and>
           e_hash_algo e' = Some (if bit (d ! 3) 1 then AlgoSha256 else AlgoSha1) \<and>
           (\<exists>t w frame p. evs = [Trace t, Send w] \<and> packet_decode w = Some (Inr (Data frame)) \<and>
              ppp_decode frame = Some (Some (ProtoLcp, p)) \<and>
              cp_decode p = Some (Some \<lparr>f_code = ConfigureRequest, f_id = lcp_identifier (e_lcp e) + 1,
                f_data = encode_options (lcp_desired (e_lcp e))\<rparr>) \<and>
              lcp_last_sent_id (e_lcp e') = Some (lcp_identifier (e_lcp e) + 1)))"
proof -
  have two: "(x AND 2 \<noteq> 0) = bit x 1" for x :: u8
  proof -
    have "(x AND 2 \<noteq> 0) \<longleftrightarrow> bit (x AND 2) 1"
    proof
      assume "x AND 2 \<noteq> 0"
      then obtain n where "bit (x AND 2) n" by (auto simp: bit_eq_iff)
      moreover have "bit (2 :: u8) n \<longleftrightarrow> n = 1" using bit_push_bit_iff [of 1 "1 :: u8" n]
        by (auto simp: bit_simps push_bit_eq_mult)
      ultimately show "bit (x AND 2) 1" by (auto simp: bit_and_iff)
    qed auto
    then show ?thesis by (simp add: bit_and_iff bit_simps)
  qed
  let ?req = "snd (lcp_start (e_lcp e))"
  have len: "length (encode_options (lcp_desired (e_lcp e))) \<le> 765"
    using assms length_encode_options [of "lcp_desired (e_lcp e)"] by (auto simp: lcp_inv_def)
  have req: "?req = cp_encode ConfigureRequest (lcp_identifier (e_lcp e) + 1)
      (encode_options (lcp_desired (e_lcp e)))"
    "lcp_last_sent_id (fst (lcp_start (e_lcp e))) = Some (lcp_identifier (e_lcp e) + 1)"
    by (simp_all add: lcp_start_def lcp_send_config_request_def Let_def)
  have w: "packet_decode (wrap_data ProtoLcp ?req) = Some (Inr (Data (ppp_encode ProtoLcp ?req)))"
    using wrap_data_decode [of ?req ProtoLcp "[]"] len by (simp add: req)
  have d: "ppp_decode (ppp_encode ProtoLcp ?req) = Some (Some (ProtoLcp, ?req))"
    by (simp add: ppp_decode_encode)
  have c: "cp_decode ?req = Some (Some \<lparr>f_code = ConfigureRequest, f_id = lcp_identifier (e_lcp e) + 1,
      f_data = encode_options (lcp_desired (e_lcp e))\<rparr>)"
    using len by (simp add: req)
  show ?thesis
    using w d c req(2)
    by (simp add: on_packet_def on_ctrl_def on_connect_ack_eq offered_algo_def two
        split: option.split)
qed

theorem connect_ack_starts_lcp_witness:
  "\<exists>e e' evs. engine_new toy_crypto 7 (lit ''bob'') (lit ''pw'') [1, 2, 3] = Some e \<and>
     on_packet toy_crypto \<lparr>rnd_u32 = \<lambda>n. 0, rnd_16 = replicate 16 0\<rparr> e
       (Ctrl ConnectAck [\<lparr>attr_type = CryptoBindRequest, attr_data = [0, 0, 0, 3] @ replicate 32 9\<rparr>]) =
       Some (e', evs) \<and>
     e_hash_algo e' = Some AlgoSha256 \<and> e_server_nonce e' = Some (replicate 32 9)"
proof -
  let ?a = "[\<lparr>attr_type = CryptoBindRequest, attr_data = [0, 0, 0, 3] @ replicate 32 (9 :: u8)\<rparr>]"
  obtain e where e: "engine_new toy_crypto 7 (lit ''bob'') (lit ''pw'') [1, 2, 3] = Some e"
    using toy_crypto_ok by (auto simp: engine_new_def crypto_lengths Let_def)
  then have w: "e_phase e = WaitConnectAck"
    by (auto simp: engine_new_def bind_eq_Some_conv Let_def)
  have d: "connect_ack_data ?a = Some ([0, 0, 0, 3] @ replicate 32 9)"
    "length ([0, 0, 0, 3] @ replicate 32 (9 :: u8)) = 36"
    "drop 4 ([0, 0, 0, 3] @ replicate 32 (9 :: u8)) = replicate 32 9"
    "bit (([0, 0, 0, 3] @ replicate 32 (9 :: u8)) ! 3) 1"
    by (simp_all add: connect_ack_data_def bit_iff_odd)
  have "lcp_inv (e_lcp e)"
    using engine_new_ok [OF toy_crypto_ok e] by (simp add: engine_ok_def)
  from connect_ack_starts_lcp [OF this, of toy_crypto "\<lparr>rnd_u32 = \<lambda>n. 0, rnd_16 = replicate 16 0\<rparr>" ?a]
  show ?thesis
    using e by (simp only: w d not_True_eq_False if_False option.case if_True simp_thms) blast
qed

end
