(* ===== verification/Session.thy ===== *)
theory Session
  imports Engine
begin

text \<open>
  What one packet can do to the engine, and what follows for a whole session: a run of
  \<open>on_packet\<close> over the packets that the server sends, each with the random draws made while it
  is handled. The phases move along \<open>phase_step\<close>; the history theorems say what must have
  happened before the tunnel is reported established.
\<close>

section \<open>Runs\<close>

primrec engine_run :: "crypto \<Rightarrow> engine \<Rightarrow> (draws \<times> packet) list \<Rightarrow> (engine \<times> event list) option" where
  "engine_run cr e [] = Some (e, [])"
| "engine_run cr e (m # ms) = do {
     (e1, evs) \<leftarrow> on_packet cr (fst m) e (snd m);
     (e2, evs') \<leftarrow> engine_run cr e1 ms;
     Some (e2, evs @ evs')
   }"

lemma engine_run_append:
  "engine_run cr e (xs @ ys) = do {
     (e1, evs) \<leftarrow> engine_run cr e xs;
     (e2, evs') \<leftarrow> engine_run cr e1 ys;
     Some (e2, evs @ evs')
   }"
proof (induction xs arbitrary: e)
  case Nil
  show ?case by (cases "engine_run cr e ys") auto
next
  case (Cons m xs)
  show ?case
    by (cases "on_packet cr (fst m) e (snd m)")
      (auto simp: Cons.IH split: prod.split bind_split)
qed

lemma engine_run_snoc:
  assumes "engine_run cr e (ms @ [m]) = Some (e', evs)"
  obtains t evs1 evs2 where "engine_run cr e ms = Some (t, evs1)"
    "on_packet cr (fst m) t (snd m) = Some (e', evs2)" "evs = evs1 @ evs2"
  using assms by (auto simp: engine_run_append bind_eq_Some_conv)

lemma engine_run_ok:
  "crypto_ok cr \<Longrightarrow> engine_ok e \<Longrightarrow> engine_run cr e ms = Some (e', evs) \<Longrightarrow> engine_ok e'"
proof (induction ms arbitrary: e evs)
  case (Cons m ms)
  then show ?case
    by (auto simp: bind_eq_Some_conv) (metis on_packet_ok)
qed simp

section \<open>One packet\<close>

lemma on_packet_cases:
  assumes "on_packet cr rnd e pkt = Some (e', evs)"
  obtains (ctrl) m attrs where "pkt = Ctrl m attrs" "on_ctrl e m attrs = Some (e', evs)"
    | (short) frame where "pkt = Data frame" "ppp_decode frame = Some None" "e' = e" "evs = []"
    | (lcp) frame p where "pkt = Data frame" "ppp_decode frame = Some (Some (ProtoLcp, p))"
      "handle_lcp rnd e p = Some (e', evs)"
    | (chap) frame p where "pkt = Data frame" "ppp_decode frame = Some (Some (ProtoChap, p))"
      "handle_chap cr rnd e p = Some (e', evs)"
    | (ipcp) frame p where "pkt = Data frame" "ppp_decode frame = Some (Some (ProtoIpcp, p))"
      "handle_ipcp cr e p = Some (e', evs)"
    | (ip) frame p where "pkt = Data frame" "ppp_decode frame = Some (Some (ProtoIp, p))"
      "e' = e" "evs = [DeliverIpPacket p]"
    | (reject) frame proto p where "pkt = Data frame" "ppp_decode frame = Some (Some (proto, p))"
      "e' = fst (protocol_reject e frame)" "evs = snd (protocol_reject e frame)"
proof (cases pkt)
  case (Ctrl m attrs)
  with assms show thesis by (intro ctrl) (simp_all add: on_packet_def)
next
  case (Data frame)
  with assms have "on_ppp_frame cr rnd e frame = Some (e', evs)"
    by (simp add: on_packet_def)
  then show thesis
    using Data by (cases rule: on_ppp_frame_cases) (auto intro: short lcp chap ipcp ip reject)
qed

text \<open>The parts of the engine that no packet changes.\<close>

definition same_identity :: "engine \<Rightarrow> engine \<Rightarrow> bool" where
  "same_identity e e' \<longleftrightarrow> e_username e' = e_username e \<and> e_password e' = e_password e \<and>
     e_cert_hash_sha1 e' = e_cert_hash_sha1 e \<and> e_cert_hash_sha256 e' = e_cert_hash_sha256 e"

lemma same_identity_trans: "same_identity a b \<Longrightarrow> same_identity b c \<Longrightarrow> same_identity a c"
  by (simp add: same_identity_def)

definition success_verified :: "crypto \<Rightarrow> engine \<Rightarrow> packet \<Rightarrow> pending_response \<Rightarrow> bytes \<Rightarrow> mppe_keys \<Rightarrow> bool" where
  \<comment> \<open>a Success that verifies against the pending response, and the keys that follow from it\<close>
  "success_verified cr e pkt pending ac keys \<longleftrightarrow>
     (\<exists>frame p f. pkt = Data frame \<and> ppp_decode frame = Some (Some (ProtoChap, p)) \<and>
        chap_decode p = Some (Some f) \<and> cf_code f = Success \<and>
        e_pending_chap e = Some pending \<and> e_auth_challenge e = Some ac \<and>
        verify_success cr (cf_data f) (e_password e) pending ac (e_username e) = Some True \<and>
        mppe_get_keys cr (e_password e) (pr_nt_response pending) False = Some keys)"

definition challenge_answered :: "crypto \<Rightarrow> engine \<Rightarrow> draws \<times> packet \<Rightarrow> pending_response \<Rightarrow> bytes \<Rightarrow> bool" where
  \<comment> \<open>a Challenge, and the response to it with this packet's random peer challenge\<close>
  "challenge_answered cr e m pending ac \<longleftrightarrow>
     (\<exists>frame p f info wire. snd m = Data frame \<and> ppp_decode frame = Some (Some (ProtoChap, p)) \<and>
        chap_decode p = Some (Some f) \<and> cf_code f = Challenge \<and>
        parse_challenge f = Some (Some info) \<and> ci_value info = ac \<and> length ac = 16 \<and>
        build_response cr (rnd_16 (fst m)) info (e_username e) (e_password e) = Some (Inr (wire, pending)))"

datatype input = InCtrl msg_type | InPpp protocol | InShort

definition input_of :: "packet \<Rightarrow> input" where
  "input_of pkt =
     (case pkt of Ctrl m attrs \<Rightarrow> InCtrl m
      | Data frame \<Rightarrow> (case ppp_decode frame of Some (Some (proto, p)) \<Rightarrow> InPpp proto | _ \<Rightarrow> InShort))"

text \<open>The phases in the order in which a handshake goes through them.\<close>

primrec phase_rank :: "phase \<Rightarrow> nat" where
  "phase_rank WaitConnectAck = 0"
| "phase_rank PhaseLcp = 1"
| "phase_rank PhaseChap = 2"
| "phase_rank PhaseIpcp = 3"
| "phase_rank PhaseEstablished = 4"

lemma phase_rank_inj: "phase_rank a = phase_rank b \<Longrightarrow> a = b"
  by (cases a; cases b) simp_all

instantiation phase :: linorder
begin

definition less_eq_phase_def: "a \<le> b \<longleftrightarrow> phase_rank a \<le> phase_rank b"
definition less_phase_def: "a < b \<longleftrightarrow> phase_rank a < phase_rank b"

instance
  by standard (auto simp: less_eq_phase_def less_phase_def intro: phase_rank_inj)

end

inductive phase_step :: "input \<Rightarrow> phase \<Rightarrow> phase \<Rightarrow> bool" where
  stay: "phase_step i ph ph"
| connect_ack: "phase_step (InCtrl ConnectAck) WaitConnectAck PhaseLcp"
| lcp_up: "phase_step (InPpp ProtoLcp) PhaseLcp PhaseChap"
| chap_success: "phase_step (InPpp ProtoChap) ph PhaseIpcp"
| ipcp_up: "phase_step (InPpp ProtoIpcp) PhaseIpcp PhaseEstablished"

lemma phase_step_forward:
  "phase_step i ph ph' \<Longrightarrow> ph \<le> ph' \<or> ph = PhaseEstablished \<and> ph' = PhaseIpcp"
  by (cases ph; cases ph') (auto simp: less_eq_phase_def elim: phase_step.cases)

inductive_cases establishedE: "phase_step i ph PhaseEstablished"
inductive_cases chapE: "phase_step i ph PhaseChap"
inductive_cases lcpE: "phase_step i ph PhaseLcp"
inductive_cases waitE: "phase_step i ph WaitConnectAck"

lemma set_send_events: "x \<in> set (concat (map (send_event tr proto) ds)) \<Longrightarrow> (\<exists>t. x = Trace t) \<or> (\<exists>w. x = Send w)"
  by (auto simp: send_event_def split: option.splits)

text \<open>
  The summary of a step: who may change the crypto-bind data, the keys and the pending
  response, where the phase goes, and when the tunnel is reported established.
\<close>

definition step_ok :: "crypto \<Rightarrow> draws \<Rightarrow> engine \<Rightarrow> packet \<Rightarrow> engine \<Rightarrow> event list \<Rightarrow> bool" where
  "step_ok cr rnd e pkt e' evs \<longleftrightarrow>
     same_identity e e' \<and> phase_step (input_of pkt) (e_phase e) (e_phase e') \<and>
     (e_hash_algo e' = e_hash_algo e \<and> e_server_nonce e' = e_server_nonce e \<or>
      e_phase e = WaitConnectAck \<and> e_phase e' = PhaseLcp \<and> input_of pkt = InCtrl ConnectAck \<and>
      e_hash_algo e' \<noteq> None) \<and>
     (e_mppe_keys e' = e_mppe_keys e \<or>
      (\<exists>pending ac keys. success_verified cr e pkt pending ac keys \<and> e_mppe_keys e' = Some keys)) \<and>
     (e_phase e' = e_phase e \<or> e_phase e' \<noteq> PhaseIpcp \<or>
      (\<exists>pending ac keys. success_verified cr e pkt pending ac keys \<and> e_mppe_keys e' = Some keys)) \<and>
     (e_pending_chap e' = None \<or>
      e_pending_chap e' = e_pending_chap e \<and> e_auth_challenge e' = e_auth_challenge e \<or>
      (\<exists>pending ac. challenge_answered cr e (rnd, pkt) pending ac \<and>
         e_pending_chap e' = Some pending \<and> e_auth_challenge e' = Some ac)) \<and>
     (\<forall>nc keys. Established nc keys \<in> set evs \<longrightarrow>
        e_phase e = PhaseIpcp \<and> e_phase e' = PhaseEstablished \<and> e_mppe_keys e = Some keys)"

subsection \<open>The summary holds for every step\<close>

lemma step_okI:
  assumes "same_identity e e'" "phase_step (input_of pkt) (e_phase e) (e_phase e')"
    "e_hash_algo e' = e_hash_algo e" "e_server_nonce e' = e_server_nonce e"
    "e_mppe_keys e' = e_mppe_keys e" "e_phase e' = e_phase e \<or> e_phase e' \<noteq> PhaseIpcp"
    "e_pending_chap e' = None \<or>
      e_pending_chap e' = e_pending_chap e \<and> e_auth_challenge e' = e_auth_challenge e"
    "\<And>nc keys. Established nc keys \<in> set evs \<Longrightarrow>
        e_phase e = PhaseIpcp \<and> e_phase e' = PhaseEstablished \<and> e_mppe_keys e = Some keys"
  shows "step_ok cr rnd e pkt e' evs"
  unfolding step_ok_def using assms by metis

lemma set_trace_sends:
  "Established nc keys \<notin> set (concat (map (send_event tr proto) ds))"
  using set_send_events by fastforce

lemma on_ctrl_step:
  assumes "on_ctrl e m attrs = Some (e', evs)"
  shows "step_ok cr rnd e (Ctrl m attrs) e' evs"
proof (cases "e' = e")
  case True
  have "Established nc keys \<notin> set evs" for nc keys
    using assms by (cases m)
      (auto simp: on_ctrl_def on_connect_ack_eq bind_eq_Some_conv split: if_splits option.splits)
  with True show ?thesis
    by (intro step_okI) (auto simp: same_identity_def intro: phase_step.stay)
next
  case False
  then have "m = ConnectAck" using assms
    by (cases m) (auto simp: on_ctrl_def bind_eq_Some_conv)
  with assms False show ?thesis
    by (auto simp: on_ctrl_def on_connect_ack_eq step_ok_def same_identity_def input_of_def
        split: if_splits option.splits intro: phase_step.connect_ack)
qed

lemma handle_lcp_step:
  assumes "pkt = Data frame" "ppp_decode frame = Some (Some (ProtoLcp, p))"
    "handle_lcp rnd e p = Some (e', evs)"
  shows "step_ok cr rnd e pkt e' evs"
proof -
  have i: "input_of pkt = InPpp ProtoLcp" using assms(1,2) by (simp add: input_of_def)
  obtain l and r :: lcp_result where c: "e' = e\<lparr>e_lcp := l\<rparr> \<or> e_phase e = PhaseLcp \<and> lcp_is_up l \<and>
      lcp_peer_auth l = Some MSCHAPV2 \<and> e' = e\<lparr>e_lcp := l, e_phase := PhaseChap\<rparr>"
    and v: "\<exists>t. evs = Trace t # concat (map (send_event LcpSend ProtoLcp) (lr_to_send r)) \<or>
         evs = [Fatal OtherAuthMethodRequired] \<or> evs = [Fatal NoAuthRequested]"
    by (rule handle_lcp_cases [OF assms(3)]) (rule that; assumption)
  have n: "Established nc keys \<notin> set evs" for nc keys
    using v set_trace_sends by auto
  from c show ?thesis
  proof (elim disjE conjE)
    assume "e' = e\<lparr>e_lcp := l\<rparr>"
    with n show ?thesis by (intro step_okI) (simp_all add: same_identity_def phase_step.stay)
  next
    assume "e_phase e = PhaseLcp" "e' = e\<lparr>e_lcp := l, e_phase := PhaseChap\<rparr>"
    with n i show ?thesis
      by (intro step_okI) (simp_all add: same_identity_def phase_step.lcp_up)
  qed
qed

lemma handle_chap_step:
  assumes "crypto_ok cr" "pkt = Data frame" "ppp_decode frame = Some (Some (ProtoChap, p))"
    "handle_chap cr rnd e p = Some (e', evs)"
  shows "step_ok cr rnd e pkt e' evs"
proof -
  have i: "input_of pkt = InPpp ProtoChap" using assms(2,3) by (simp add: input_of_def)
  show ?thesis
    using assms(4)
  proof (cases rule: handle_chap_cases)
    case other
    then have "Established nc keys \<notin> set evs" for nc keys by auto
    with other(1) show ?thesis by (intro step_okI) (simp_all add: same_identity_def phase_step.stay)
  next
    case (challenge f t)
    show ?thesis
      using assms(1) challenge(3)
    proof (cases rule: on_challenge_cases)
      case (fatal msg)
      then show ?thesis by (intro step_okI) (simp_all add: same_identity_def phase_step.stay)
    next
      case (respond info wire pending)
      then have "challenge_answered cr e (rnd, pkt) pending (ci_value info)"
        using assms(2,3) challenge by (auto simp: challenge_answered_def)
      with respond show ?thesis
        unfolding step_ok_def by (auto simp: same_identity_def phase_step.stay)
    qed
  next
    case (success f t)
    show ?thesis
      using assms(1) success(3)
    proof (cases rule: on_success_cases)
      case (fatal msg)
      then show ?thesis by (intro step_okI) (simp_all add: same_identity_def phase_step.stay)
    next
      case (verified pending ac keys)
      then have "success_verified cr e pkt pending ac keys"
        using assms(2,3) success by (auto simp: success_verified_def)
      with verified i show ?thesis
        unfolding step_ok_def by (auto simp: same_identity_def phase_step.chap_success)
    qed
  qed
qed

lemma handle_ipcp_step:
  assumes "pkt = Data frame" "ppp_decode frame = Some (Some (ProtoIpcp, p))"
    "handle_ipcp cr e p = Some (e', evs)"
  shows "step_ok cr rnd e pkt e' evs"
proof -
  have i: "input_of pkt = InPpp ProtoIpcp" using assms(1,2) by (simp add: input_of_def)
  show ?thesis
    using assms(3)
  proof (cases rule: handle_ipcp_cases)
    case (update s r ts)
    then have "Established nc keys \<notin> set evs" for nc keys
      using set_trace_sends by auto
    with update(3) show ?thesis by (intro step_okI) (simp_all add: same_identity_def phase_step.stay)
  next
    case (finish s r ts algo nonce keys cpkt)
    have ph: "e_phase e = PhaseIpcp" using finish(2) by (simp add: completes_def)
    have k: "keys' = keys" if "Established nc keys' \<in> set evs" for nc keys'
      using that finish(9,10) set_trace_sends by auto
    show ?thesis
    proof (rule step_okI)
      show "phase_step (input_of pkt) (e_phase e) (e_phase e')"
        using finish(8) ph i by (simp add: phase_step.ipcp_up)
    qed (use finish(6,8) ph k in \<open>simp_all add: same_identity_def\<close>)
  qed
qed

lemma protocol_reject_step:
  "step_ok cr rnd e pkt (fst (protocol_reject e frame)) (snd (protocol_reject e frame))"
  by (intro step_okI) (simp_all add: protocol_reject_def lcp_build_protocol_reject_def
      same_identity_def phase_step.stay Let_def)

lemma on_packet_step:
  assumes "crypto_ok cr" "on_packet cr rnd e pkt = Some (e', evs)"
  shows "step_ok cr rnd e pkt e' evs"
  using assms(2)
proof (cases rule: on_packet_cases)
  case (ctrl m attrs)
  then show ?thesis by (simp add: on_ctrl_step)
next
  case (short frame)
  then show ?thesis by (intro step_okI) (simp_all add: same_identity_def phase_step.stay)
next
  case (lcp frame p)
  then show ?thesis by (rule handle_lcp_step)
next
  case (chap frame p)
  with assms(1) show ?thesis by (rule handle_chap_step)
next
  case (ipcp frame p)
  then show ?thesis by (rule handle_ipcp_step)
next
  case (ip frame p)
  then show ?thesis by (intro step_okI) (simp_all add: same_identity_def phase_step.stay)
next
  case (reject frame proto p)
  then show ?thesis by (simp only: protocol_reject_step)
qed

end
