(* ===== verification/Handshake.thy ===== *)
theory Handshake
  imports Session
begin

text \<open>
  Whole exchanges: the steps of the handshake with a server that follows the protocol, one
  lemma per message, put together into the run that establishes the tunnel; and the exchanges
  that end elsewhere.
\<close>

section \<open>One message of the server\<close>

definition frame_pkt :: "protocol \<Rightarrow> bytes \<Rightarrow> packet" where
  \<comment> \<open>a data packet with one PPP frame\<close>
  "frame_pkt proto p = Data (ppp_encode proto p)"

definition routine :: "event list \<Rightarrow> bool" where
  \<comment> \<open>nothing but log lines and replies\<close>
  "routine evs \<longleftrightarrow> (\<forall>x\<in>set evs. (\<exists>t. x = Trace t) \<or> (\<exists>w. x = Send w))"

lemma routine_simps [simp]:
  "routine []" "routine (Trace t # evs) = routine evs" "routine (Send w # evs) = routine evs"
  "\<not> routine (Established nc keys # evs)" "\<not> routine (Fatal m # evs)" "\<not> routine (Disconnected # evs)"
  "routine (xs @ ys) \<longleftrightarrow> routine xs \<and> routine ys"
  by (auto simp: routine_def)

lemma routine_send_event [simp]: "routine (send_event tr proto d)"
  by (auto simp: routine_def send_event_def split: option.split)

lemma routine_replies [simp]: "routine (concat (map (send_event tr proto) ds))"
  using set_send_events by (fastforce simp: routine_def)

lemma on_frame_pkt [simp]:
  "on_packet cr rnd e (frame_pkt ProtoLcp p) = handle_lcp rnd e p"
  "on_packet cr rnd e (frame_pkt ProtoChap p) = handle_chap cr rnd e p"
  "on_packet cr rnd e (frame_pkt ProtoIpcp p) = handle_ipcp cr e p"
  "on_packet cr rnd e (frame_pkt ProtoIp p) = Some (e, [DeliverIpPacket p])"
  by (simp_all add: on_packet_def on_ppp_frame_def frame_pkt_def ppp_decode_encode)

subsection \<open>LCP\<close>

lemma lcp_ack_step:
  assumes "lcp_last_sent_id (e_lcp e) = Some i" "\<not> lcp_remote_up (e_lcp e)"
  obtains evs where "routine evs"
    "on_packet cr rnd e (frame_pkt ProtoLcp (cp_encode ConfigureAck i [])) =
       Some (e\<lparr>e_lcp := (e_lcp e)\<lparr>lcp_local_up := True\<rparr>\<rparr>, evs)"
proof (rule that)
  show "on_packet cr rnd e (frame_pkt ProtoLcp (cp_encode ConfigureAck i [])) =
       Some (e\<lparr>e_lcp := (e_lcp e)\<lparr>lcp_local_up := True\<rparr>\<rparr>, [Trace (LcpRecv ConfigureAck i 0)])"
    using assms
    by (simp add: handle_lcp_def lcp_receive_def lcp_handle_def lcp_is_up_def send_events_eq Let_def)
qed simp

definition auth_demand :: bytes where
  \<comment> \<open>the options of a server that asks for MS-CHAPv2\<close>
  "auth_demand = encode_options [Opt OPT_AUTH_PROTOCOL [0xC2, 0x23, 0x81]]"

lemma auth_demand_receive:
  "lcp_receive rnd l (cp_encode ConfigureRequest i auth_demand) =
     Some (l\<lparr>lcp_remote_up := True, lcp_peer_auth := Some MSCHAPV2\<rparr>,
       \<lparr>lr_to_send = [cp_encode ConfigureAck i auth_demand], lr_up = lcp_local_up l\<rparr>)"
proof -
  let ?f = "\<lparr>f_code = ConfigureRequest, f_id = i, f_data = auth_demand\<rparr>"
  let ?o = "Opt 3 [0xC2, 0x23, 0x81]"
  have o: "options_of auth_demand = [?o]"
    using options_of_encode [of "[?o]" "[]"] unfolding auth_demand_def lcp_options
    by (simp add: opt_ok_def Opt_def del: encode_options.simps)
  have d: "cp_decode (cp_encode ConfigureRequest i auth_demand) = Some (Some ?f)"
    by (simp add: auth_demand_def Opt_def)
  have a: "lcp_auths ?o" "\<not> lcp_rejects ?o" "\<not> lcp_naks m ?o" for m
    by (simp_all add: lcp_auths_def lcp_rejects_def lcp_naks_def Opt_def chap_bytes)
  obtain naks where n: "naks_for (lcp_magic l) [?o] naks"
    and h: "lcp_on_config_request rnd l ?f =
     (let ps = [?o]; l' = l\<lparr>lcp_peer_auth := auth_after ps l\<rparr>; rejects = filter lcp_rejects ps
      in Some (if rejects \<noteq> [] then
                 (l'\<lparr>lcp_remote_up := False\<rparr>, [cp_encode ConfigureReject (f_id ?f) (encode_options rejects)])
               else if naks \<noteq> [] then
                 (l'\<lparr>lcp_remote_up := False\<rparr>, [cp_encode ConfigureNak (f_id ?f) (encode_options naks)])
               else (l'\<lparr>lcp_remote_up := True\<rparr>, [cp_encode ConfigureAck (f_id ?f) (f_data ?f)])))"
    using lcp_on_config_request_eq [of l ?f rnd] by (auto simp: o)
  have "naks = []" using n a by (auto simp: naks_for_def)
  then show ?thesis
    using h d a by (simp add: lcp_receive_def lcp_handle_def lcp_is_up_def auth_after_def MSCHAPV2_def)
qed

lemma lcp_auth_step:
  assumes "lcp_local_up (e_lcp e)" "e_phase e = PhaseLcp"
  obtains evs where "routine evs"
    "on_packet cr rnd e (frame_pkt ProtoLcp (cp_encode ConfigureRequest i auth_demand)) =
       Some (e\<lparr>e_lcp := (e_lcp e)\<lparr>lcp_remote_up := True, lcp_peer_auth := Some MSCHAPV2\<rparr>,
               e_phase := PhaseChap\<rparr>, evs)"
proof -
  have "length auth_demand = 5" by (simp add: auth_demand_def Opt_def)
  then have "\<exists>evs. routine evs \<and>
    on_packet cr rnd e (frame_pkt ProtoLcp (cp_encode ConfigureRequest i auth_demand)) =
       Some (e\<lparr>e_lcp := (e_lcp e)\<lparr>lcp_remote_up := True, lcp_peer_auth := Some MSCHAPV2\<rparr>,
               e_phase := PhaseChap\<rparr>, evs)"
    using assms by (simp add: handle_lcp_def auth_demand_receive send_events_eq is_mschapv2_iff Let_def)
  with that show thesis by blast
qed

subsection \<open>CHAP\<close>

definition challenge_frame :: "u8 \<Rightarrow> bytes \<Rightarrow> bytes \<Rightarrow> bytes" where
  "challenge_frame i ac name = chap_encode Challenge i (16 # ac @ name)"

lemma challenge_step:
  assumes "crypto_ok cr" "length ac = 16" "length name \<le> 65514"
    "generate_nt_response cr ac (rnd_16 rnd) (e_username e) (e_password e) = Some nt"
  obtains evs where "routine evs"
    "on_packet cr rnd e (frame_pkt ProtoChap (challenge_frame i ac name)) =
       Some (e\<lparr>e_auth_challenge := Some ac,
               e_pending_chap := Some \<lparr>pr_peer_challenge = rnd_16 rnd, pr_nt_response = nt\<rparr>\<rparr>, evs)"
proof -
  let ?info = "\<lparr>ci_id = i, ci_value = ac, ci_name = from_utf8_lossy name\<rparr>"
  let ?f = "\<lparr>cf_code = Challenge, cf_id = i, cf_data = 16 # ac @ name\<rparr>"
  have d: "chap_decode (challenge_frame i ac name) = Some (Some ?f)"
    using assms(2,3) by (simp add: challenge_frame_def)
  have p: "parse_challenge ?f = Some (Some ?info)"
    using assms(2) by (simp add: parse_challenge_eq)
  have l: "length (ci_value ?info) = 16" using assms(2) by simp
  obtain wire where
    b: "build_response cr (rnd_16 rnd) ?info (e_username e) (e_password e) =
      Some (Inr (wire, \<lparr>pr_peer_challenge = rnd_16 rnd, pr_nt_response = nt\<rparr>))"
    using assms(1) by (cases rule: build_response_cases [of cr ?info "rnd_16 rnd" "e_username e" "e_password e"])
      (use assms(2,4) in auto)
  show thesis
    using on_challenge_simps(3) [OF p l b, of "Trace (ChapRecv Challenge i (length (16 # ac @ name)))"] d
    by (intro that) (simp_all add: handle_chap_def Let_def)
qed

lemma length_utf8: "length (utf8 s) \<le> 4 * length s"
proof (induction s)
  case (Cons c s)
  have "length (utf8_char c) \<le> 4" by (simp add: utf8_char_def)
  with Cons show ?case by (simp add: utf8_Cons)
qed (simp add: utf8_def)

lemma authenticator_response_facts:
  assumes "crypto_ok cr"
    "generate_authenticator_response cr pw (pr_nt_response p) (pr_peer_challenge p) ac user = Some r"
  shows "length (utf8 r) \<le> 168" "verify_success cr (utf8 r) pw p ac user = Some True"
proof -
  obtain digest where r: "r = lit ''S='' @ concat (map hex_upper digest)" "length digest = 20"
    using assms by (metis generate_authenticator_response_Some option.inject)
  have "length (concat (map hex_upper digest)) = 40"
    using r(2) by (simp add: length_concat comp_def sum_list_triv)
  moreover have "length (lit ''S='') = 2" by code_simp
  ultimately show "length (utf8 r) \<le> 168" using length_utf8 [of r] r by simp
  note c = response_chars [OF assms]
  have "map ascii_upper r = r" using c(2) by (intro map_idI) blast
  moreover have "first_token r = Some r"
    using c by (intro first_token_prefix(2) [where w = 32]) (auto simp: is_whitespace_def)
  moreover have "from_utf8_lossy (utf8 r) = r" using c(2) by simp
  ultimately show "verify_success cr (utf8 r) pw p ac user = Some True"
    by (simp add: verify_success_eq [OF assms(2)] eq_ignore_ascii_case_def)
qed

lemma success_step:
  assumes "crypto_ok cr" "e_pending_chap e = Some p" "e_auth_challenge e = Some ac"
    "generate_authenticator_response cr (e_password e) (pr_nt_response p) (pr_peer_challenge p) ac
       (e_username e) = Some r"
    "mppe_get_keys cr (e_password e) (pr_nt_response p) False = Some keys"
  obtains evs where "routine evs"
    "on_packet cr rnd e (frame_pkt ProtoChap (chap_encode Success i (utf8 r))) =
       Some (e\<lparr>e_pending_chap := None, e_mppe_keys := Some keys, e_phase := PhaseIpcp,
               e_ipcp := fst (ipcp_start (e_ipcp e))\<rparr>, evs)"
proof -
  note f = authenticator_response_facts [OF assms(1,4)]
  have d: "chap_decode (chap_encode Success i (utf8 r)) =
      Some (Some \<lparr>cf_code = Success, cf_id = i, cf_data = utf8 r\<rparr>)"
    using f(1) by simp
  let ?recv = "Trace (ChapRecv Success i (length (utf8 r)))"
  show thesis
  proof (rule that)
    show "on_packet cr rnd e (frame_pkt ProtoChap (chap_encode Success i (utf8 r))) =
       Some (e\<lparr>e_pending_chap := None, e_mppe_keys := Some keys, e_phase := PhaseIpcp,
               e_ipcp := fst (ipcp_start (e_ipcp e))\<rparr>,
             [?recv, Trace ChapSuccessVerified, Send (wrap_data ProtoIpcp (snd (ipcp_start (e_ipcp e))))])"
      using assms(2,3,5) f(2) d
      by (simp add: handle_chap_def on_success_def Let_def split: prod.split)
  qed simp
qed

subsection \<open>IPCP\<close>

lemma ipcp_update_step:
  assumes "ipcp_receive (e_ipcp e) p = Some (s, r)" "\<not> ir_up r"
  obtains evs where "routine evs"
    "on_packet cr rnd e (frame_pkt ProtoIpcp p) = Some (e\<lparr>e_ipcp := s\<rparr>, evs)"
proof -
  have "\<not> completes e p" using assms by (simp add: completes_def)
  with assms(1) handle_ipcp_eq [of e p cr] obtain ts where "ts = [] \<or> (\<exists>t. ts = [Trace t])"
    "handle_ipcp cr e p =
       Some (e\<lparr>e_ipcp := s\<rparr>, ts @ concat (map (send_event IpcpSend ProtoIpcp) (ir_to_send r)))"
    by (auto simp: Let_def)
  with that [of "ts @ concat (map (send_event IpcpSend ProtoIpcp) (ir_to_send r))"] show thesis
    by auto
qed

lemma ipcp_finish_step:
  assumes "crypto_ok cr" "engine_ok e" "ipcp_receive (e_ipcp e) p = Some (s, r)" "ir_up r"
    "e_phase e = PhaseIpcp" "e_hash_algo e = Some algo" "e_mppe_keys e = Some keys"
  obtains evs nonce cpkt where "routine evs" "e_server_nonce e = Some nonce"
    "build_connected_message cr algo nonce (cert_hash_of e algo) (send_key keys) (recv_key keys) = Some cpkt"
    "on_packet cr rnd e (frame_pkt ProtoIpcp p) =
       Some (e\<lparr>e_ipcp := s, e_phase := PhaseEstablished\<rparr>,
             evs @ [Send cpkt, Established (ipcp_negotiated s) keys])"
proof -
  have c: "completes e p" using assms(3,4,5) by (simp add: completes_def)
  obtain ts where ts: "ts = [] \<or> (\<exists>t. ts = [Trace t])" and
    h: "handle_ipcp cr e p = finish_handshake cr (e\<lparr>e_ipcp := s\<rparr>)
      (ts @ concat (map (send_event IpcpSend ProtoIpcp) (ir_to_send r)))"
    using handle_ipcp_eq [of e p cr] assms(3) c by (auto simp: Let_def)
  obtain nonce cpkt where n: "e_server_nonce e = Some nonce"
    "build_connected_message cr algo nonce (cert_hash_of e algo) (send_key keys) (recv_key keys) = Some cpkt"
    using connected_message_runs [OF assms(2,1,6,7)] by blast
  have "cert_hash_of (e\<lparr>e_ipcp := s\<rparr>) algo = cert_hash_of e algo"
    by (cases algo) (simp_all add: cert_hash_of_def)
  with n h assms(6,7) ts that
    [of "ts @ concat (map (send_event IpcpSend ProtoIpcp) (ir_to_send r))" nonce cpkt]
  show thesis by (auto simp: finish_handshake_eq)
qed

lemma ipcp_panic_step:
  assumes "ipcp_receive (e_ipcp e) p = Some (s, r)" "ir_up r" "e_phase e = PhaseIpcp" "e_hash_algo e = None"
  shows "on_packet cr rnd e (frame_pkt ProtoIpcp p) = None"
proof -
  have "completes e p" using assms by (simp add: completes_def)
  with assms(4) handle_ipcp_eq [of e p cr] show ?thesis
    by (auto simp: finish_handshake_eq Let_def)
qed

text \<open>The exchange with a server that assigns addresses, message by message.\<close>

definition assigned :: "ipv4 \<Rightarrow> ipv4 \<Rightarrow> ipv4 \<Rightarrow> bytes" where
  "assigned ip dns1 dns2 = encode_options [ip_opt OPT_IP_ADDRESS ip, ip_opt OPT_PRIMARY_DNS dns1,
     ip_opt OPT_SECONDARY_DNS dns2]"

lemma ipcp_script:
  obtains s1 s2 s3 r1 r2 r3 where
    "ipcp_receive (fst (ipcp_start ipcp_new))
       (cp_encode ConfigureRequest q (encode_options [ip_opt OPT_IP_ADDRESS peer])) = Some (s1, r1)"
    "\<not> ir_up r1"
    "ipcp_receive s1 (cp_encode ConfigureNak 1 (assigned ip dns1 dns2)) = Some (s2, r2)" "\<not> ir_up r2"
    "ipcp_receive s2 (cp_encode ConfigureAck 2 (assigned ip dns1 dns2)) = Some (s3, r3)" "ir_up r3"
    "ipcp_negotiated s3 = \<lparr>nc_local_ip = Some ip, nc_peer_ip = Some peer,
       nc_dns1 = Some dns1, nc_dns2 = Some dns2\<rparr>"
proof -
  let ?as = "[ip_opt 3 ip, ip_opt 129 dns1, ip_opt 131 dns2]"
  have o: "options_of (encode_options ?as) = ?as"
    "options_of (encode_options [ip_opt 3 peer]) = [ip_opt 3 peer]"
    using options_of_encode [of ?as "[]"] options_of_encode [of "[ip_opt 3 peer]" "[]"]
    by (simp_all del: encode_options.simps)
  have l: "length (encode_options ?as) \<le> 65531" "length (encode_options [ip_opt 3 peer]) \<le> 65531"
    by simp_all
  have u: "(ip_opt k a)\<lparr>o_data := o_data (ip_opt j b)\<rparr> = ip_opt k b" for k j a b
    by (simp add: ip_opt_def Opt_def)
  have d: "cp_decode (cp_encode c i (encode_options ?as)) =
        Some (Some \<lparr>f_code = c, f_id = i, f_data = encode_options ?as\<rparr>)"
      "cp_decode (cp_encode c i (encode_options [ip_opt 3 peer])) =
        Some (Some \<lparr>f_code = c, f_id = i, f_data = encode_options [ip_opt 3 peer]\<rparr>)"
    if "code_ok c" for c i
    using l that by (simp_all del: encode_options.simps)
  note sims = ipcp_receive_def ipcp_handle_simps ipcp_start_def ipcp_new_def assigned_def
    ipcp_is_up_def o d capture_from_eq asked_for_def peer_ip_after_def ipcp_accepts_opt_def
  have "\<exists>s1 s2 s3 r1 r2 r3.
    ipcp_receive (fst (ipcp_start ipcp_new))
      (cp_encode ConfigureRequest q (encode_options [ip_opt OPT_IP_ADDRESS peer])) = Some (s1, r1) \<and>
    \<not> ir_up r1 \<and>
    ipcp_receive s1 (cp_encode ConfigureNak 1 (assigned ip dns1 dns2)) = Some (s2, r2) \<and> \<not> ir_up r2 \<and>
    ipcp_receive s2 (cp_encode ConfigureAck 2 (assigned ip dns1 dns2)) = Some (s3, r3) \<and> ir_up r3 \<and>
    ipcp_negotiated s3 = \<lparr>nc_local_ip = Some ip, nc_peer_ip = Some peer,
       nc_dns1 = Some dns1, nc_dns2 = Some dns2\<rparr>"
    by (simp add: sims u del: encode_options.simps)
  with that show thesis by blast
qed

section \<open>Whole exchanges\<close>

lemma engine_run_step:
  "on_packet cr r e p = Some (e1, evs1) \<Longrightarrow> engine_run cr e1 ms = Some (e2, evs2) \<Longrightarrow>
   engine_run cr e ((r, p) # ms) = Some (e2, evs1 @ evs2)"
  by simp

definition link_messages :: "(nat \<Rightarrow> draws) \<Rightarrow> bytes \<Rightarrow> u8 \<Rightarrow> (draws \<times> packet) list" where
  \<comment> \<open>CONNECT_ACK with the crypto-bind request \<open>d\<close>, then LCP\<close>
  "link_messages rnd d q =
     [(rnd 0, Ctrl ConnectAck [\<lparr>attr_type = CryptoBindRequest, attr_data = d\<rparr>]),
      (rnd 1, frame_pkt ProtoLcp (cp_encode ConfigureAck 1 [])),
      (rnd 2, frame_pkt ProtoLcp (cp_encode ConfigureRequest q auth_demand))]"

definition login_messages :: "(nat \<Rightarrow> draws) \<Rightarrow> u8 \<Rightarrow> bytes \<Rightarrow> bytes \<Rightarrow> rstr \<Rightarrow> (draws \<times> packet) list" where
  \<comment> \<open>the Challenge \<open>ac\<close> and the Success with the authenticator response \<open>r\<close>\<close>
  "login_messages rnd i ac name r =
     [(rnd 3, frame_pkt ProtoChap (challenge_frame i ac name)),
      (rnd 4, frame_pkt ProtoChap (chap_encode Success i (utf8 r)))]"

definition address_messages ::
  "(nat \<Rightarrow> draws) \<Rightarrow> u8 \<Rightarrow> ipv4 \<Rightarrow> ipv4 \<Rightarrow> ipv4 \<Rightarrow> ipv4 \<Rightarrow> (draws \<times> packet) list" where
  \<comment> \<open>IPCP with a server that assigns the addresses\<close>
  "address_messages rnd q peer ip dns1 dns2 =
     [(rnd 5, frame_pkt ProtoIpcp (cp_encode ConfigureRequest q (encode_options [ip_opt OPT_IP_ADDRESS peer]))),
      (rnd 6, frame_pkt ProtoIpcp (cp_encode ConfigureNak 1 (assigned ip dns1 dns2))),
      (rnd 7, frame_pkt ProtoIpcp (cp_encode ConfigureAck 2 (assigned ip dns1 dns2)))]"

definition answer :: "crypto \<Rightarrow> bytes \<Rightarrow> bytes \<Rightarrow> rstr \<Rightarrow> rstr \<Rightarrow> rstr \<Rightarrow> mppe_keys \<Rightarrow> bool" where
  \<comment> \<open>what a server that knows the password answers to the response with peer challenge \<open>pc\<close>\<close>
  "answer cr ac pc user pw r keys \<longleftrightarrow>
     (\<exists>nt. generate_nt_response cr ac pc user pw = Some nt \<and>
        generate_authenticator_response cr pw nt pc ac user = Some r \<and>
        mppe_get_keys cr pw nt False = Some keys)"

lemma answer_exists:
  assumes "crypto_ok cr"
  obtains r keys where "answer cr ac pc user pw r keys"
proof -
  obtain nt where nt: "generate_nt_response cr ac pc user pw = Some nt"
    using assms by (rule generate_nt_response_length)
  obtain digest where "generate_authenticator_response cr pw nt pc ac user =
      Some (lit ''S='' @ concat (map hex_upper digest))"
    using assms by (rule generate_authenticator_response_Some)
  moreover obtain keys where "mppe_get_keys cr pw nt False = Some keys"
    using assms by (rule mppe_get_keys_Some)
  ultimately show thesis using nt that by (auto simp: answer_def)
qed

lemma login_run:
  assumes "crypto_ok cr" "length ac = 16" "length name \<le> 65514"
    "answer cr ac (rnd_16 (rnd 3)) (e_username e) (e_password e) r keys"
  obtains e' evs where "routine evs" "engine_run cr e (login_messages rnd i ac name r) = Some (e', evs)"
    "e_phase e' = PhaseIpcp" "e_mppe_keys e' = Some keys" "e_ipcp e' = fst (ipcp_start (e_ipcp e))"
    "e_hash_algo e' = e_hash_algo e" "e_server_nonce e' = e_server_nonce e"
    "same_identity e e'"
proof -
  obtain nt where nt: "generate_nt_response cr ac (rnd_16 (rnd 3)) (e_username e) (e_password e) = Some nt"
    "generate_authenticator_response cr (e_password e) nt (rnd_16 (rnd 3)) ac (e_username e) = Some r"
    "mppe_get_keys cr (e_password e) nt False = Some keys"
    using assms(4) by (auto simp: answer_def)
  let ?p = "\<lparr>pr_peer_challenge = rnd_16 (rnd 3), pr_nt_response = nt\<rparr>"
  define e1 where "e1 = e\<lparr>e_auth_challenge := Some ac, e_pending_chap := Some ?p\<rparr>"
  obtain evs1 where c: "routine evs1"
    "on_packet cr (rnd 3) e (frame_pkt ProtoChap (challenge_frame i ac name)) = Some (e1, evs1)"
    unfolding e1_def using challenge_step [OF assms(1-3) nt(1)] by blast
  define e2 where "e2 = e1\<lparr>e_pending_chap := None, e_mppe_keys := Some keys, e_phase := PhaseIpcp,
      e_ipcp := fst (ipcp_start (e_ipcp e1))\<rparr>"
  have p1: "e_pending_chap e1 = Some ?p" "e_auth_challenge e1 = Some ac"
    "generate_authenticator_response cr (e_password e1) (pr_nt_response ?p) (pr_peer_challenge ?p) ac
      (e_username e1) = Some r"
    "mppe_get_keys cr (e_password e1) (pr_nt_response ?p) False = Some keys"
    using nt by (simp_all add: e1_def)
  obtain evs2 where v: "routine evs2"
    "on_packet cr (rnd 4) e1 (frame_pkt ProtoChap (chap_encode Success i (utf8 r))) = Some (e2, evs2)"
    unfolding e2_def using success_step [OF assms(1) p1] by blast
  have "engine_run cr e (login_messages rnd i ac name r) = Some (e2, evs1 @ evs2 @ [])"
    unfolding login_messages_def by (intro engine_run_step [OF c(2)] engine_run_step [OF v(2)]) simp
  with c v that [of "evs1 @ evs2 @ []" e2] show thesis
    by (simp add: e2_def e1_def same_identity_def)
qed

lemma link_run:
  assumes "crypto_ok cr" "engine_new cr magic user pw cert = Some e" "length d = 36"
  obtains e' evs where "routine evs" "engine_run cr e (link_messages rnd d q) = Some (e', evs)"
    "e_phase e' = PhaseChap" "e_ipcp e' = ipcp_new" "e_hash_algo e' = Some (offered_algo d)"
    "e_server_nonce e' = Some (drop 4 d)" "same_identity e e'"
proof -
  have n: "e_phase e = WaitConnectAck" "e_lcp e = lcp_new magic" "e_ipcp e = ipcp_new"
    using assms(2) by (auto simp: engine_new_def bind_eq_Some_conv Let_def)
  let ?a = "[\<lparr>attr_type = CryptoBindRequest, attr_data = d\<rparr>]"
  define e1 where "e1 = e\<lparr>e_hash_algo := Some (offered_algo d), e_server_nonce := Some (drop 4 d),
      e_phase := PhaseLcp, e_lcp := fst (lcp_start (e_lcp e))\<rparr>"
  define evs1 where "evs1 = [Trace (ConnectAckOk (offered_algo d)),
      Send (wrap_data ProtoLcp (snd (lcp_start (e_lcp e))))]"
  have a: "routine evs1" "on_packet cr (rnd 0) e (Ctrl ConnectAck ?a) = Some (e1, evs1)"
    by (simp_all add: evs1_def) (simp add: on_packet_def on_ctrl_def on_connect_ack_eq connect_ack_data_def n(1) assms(3) e1_def)
  have l: "lcp_last_sent_id (e_lcp e1) = Some 1" "\<not> lcp_remote_up (e_lcp e1)"
    by (simp_all add: e1_def n lcp_start_def lcp_send_config_request_def lcp_new_def Let_def)
  define e2 where "e2 = e1\<lparr>e_lcp := (e_lcp e1)\<lparr>lcp_local_up := True\<rparr>\<rparr>"
  obtain evs2 where b: "routine evs2"
    "on_packet cr (rnd 1) e1 (frame_pkt ProtoLcp (cp_encode ConfigureAck 1 [])) = Some (e2, evs2)"
    unfolding e2_def using lcp_ack_step [OF l] by blast
  have l2: "lcp_local_up (e_lcp e2)" "e_phase e2 = PhaseLcp"
    by (simp_all add: e2_def e1_def)
  define e3 where "e3 = e2\<lparr>e_lcp := (e_lcp e2)\<lparr>lcp_remote_up := True, lcp_peer_auth := Some MSCHAPV2\<rparr>,
               e_phase := PhaseChap\<rparr>"
  obtain evs3 where c: "routine evs3"
    "on_packet cr (rnd 2) e2 (frame_pkt ProtoLcp (cp_encode ConfigureRequest q auth_demand)) = Some (e3, evs3)"
    unfolding e3_def using lcp_auth_step [OF l2] by blast
  have "engine_run cr e (link_messages rnd d q) = Some (e3, evs1 @ evs2 @ evs3 @ [])"
    unfolding link_messages_def
    by (intro engine_run_step [OF a(2)] engine_run_step [OF b(2)] engine_run_step [OF c(2)]) simp
  with a b c that [of "evs1 @ evs2 @ evs3 @ []" e3] n show thesis
    by (simp add: e3_def e2_def e1_def same_identity_def)
qed

lemma address_run:
  assumes "crypto_ok cr" "engine_ok e" "e_ipcp e = fst (ipcp_start ipcp_new)" "e_phase e = PhaseIpcp"
    "e_hash_algo e = Some algo" "e_server_nonce e = Some nonce" "e_mppe_keys e = Some keys"
  obtains e' evs cpkt where "routine evs" "e_phase e' = PhaseEstablished"
    "build_connected_message cr algo nonce (cert_hash_of e algo) (send_key keys) (recv_key keys) = Some cpkt"
    "engine_run cr e (address_messages rnd q peer ip dns1 dns2) =
       Some (e', evs @ [Send cpkt, Established \<lparr>nc_local_ip = Some ip, nc_peer_ip = Some peer,
         nc_dns1 = Some dns1, nc_dns2 = Some dns2\<rparr> keys])"
proof -
  obtain s1 s2 s3 r1 r2 r3 where i: 
    "ipcp_receive (e_ipcp e)
       (cp_encode ConfigureRequest q (encode_options [ip_opt OPT_IP_ADDRESS peer])) = Some (s1, r1)"
    "\<not> ir_up r1"
    "ipcp_receive s1 (cp_encode ConfigureNak 1 (assigned ip dns1 dns2)) = Some (s2, r2)" "\<not> ir_up r2"
    "ipcp_receive s2 (cp_encode ConfigureAck 2 (assigned ip dns1 dns2)) = Some (s3, r3)" "ir_up r3"
    "ipcp_negotiated s3 = \<lparr>nc_local_ip = Some ip, nc_peer_ip = Some peer,
       nc_dns1 = Some dns1, nc_dns2 = Some dns2\<rparr>"
    unfolding assms(3) by (rule ipcp_script)
  define e1 where "e1 = e\<lparr>e_ipcp := s1\<rparr>"
  define e2 where "e2 = e1\<lparr>e_ipcp := s2\<rparr>"
  obtain evs1 where a: "routine evs1"
    "on_packet cr (rnd 5) e (frame_pkt ProtoIpcp
       (cp_encode ConfigureRequest q (encode_options [ip_opt OPT_IP_ADDRESS peer]))) = Some (e1, evs1)"
    unfolding e1_def using ipcp_update_step [OF i(1,2)] by blast
  have "ipcp_receive (e_ipcp e1) (cp_encode ConfigureNak 1 (assigned ip dns1 dns2)) = Some (s2, r2)"
    using i(3) by (simp add: e1_def)
  from ipcp_update_step [OF this i(4)] obtain evs2 where b: "routine evs2"
    "on_packet cr (rnd 6) e1 (frame_pkt ProtoIpcp (cp_encode ConfigureNak 1 (assigned ip dns1 dns2))) =
       Some (e2, evs2)"
    unfolding e2_def by blast
  have "engine_ok e2"
    using on_packet_ok [OF assms(1) on_packet_ok [OF assms(1,2) a(2)] b(2)] .
  moreover have "ipcp_receive (e_ipcp e2) (cp_encode ConfigureAck 2 (assigned ip dns1 dns2)) = Some (s3, r3)"
    using i(5) by (simp add: e2_def)
  moreover have "e_phase e2 = PhaseIpcp" "e_hash_algo e2 = Some algo" "e_mppe_keys e2 = Some keys"
    "e_server_nonce e2 = Some nonce" "cert_hash_of e2 algo = cert_hash_of e algo"
    using assms(4-7) by (cases algo; simp add: e2_def e1_def cert_hash_of_def)+
  ultimately obtain evs3 cpkt where c: "routine evs3"
    "build_connected_message cr algo nonce (cert_hash_of e algo) (send_key keys) (recv_key keys) = Some cpkt"
    "on_packet cr (rnd 7) e2 (frame_pkt ProtoIpcp (cp_encode ConfigureAck 2 (assigned ip dns1 dns2))) =
       Some (e2\<lparr>e_ipcp := s3, e_phase := PhaseEstablished\<rparr>,
         evs3 @ [Send cpkt, Established (ipcp_negotiated s3) keys])"
    using assms(1) i(6) ipcp_finish_step [of cr e2] by (metis option.inject)
  have "engine_run cr e (address_messages rnd q peer ip dns1 dns2) =
      Some (e2\<lparr>e_ipcp := s3, e_phase := PhaseEstablished\<rparr>,
        evs1 @ evs2 @ (evs3 @ [Send cpkt, Established (ipcp_negotiated s3) keys]) @ [])"
    unfolding address_messages_def
    by (intro engine_run_step [OF a(2)] engine_run_step [OF b(2)] engine_run_step [OF c(3)]) simp
  with a b c that [of "evs1 @ evs2 @ evs3" "e2\<lparr>e_ipcp := s3, e_phase := PhaseEstablished\<rparr>" cpkt] i(7)
  show thesis by simp
qed

lemma handshake_run:
  assumes "crypto_ok cr" "engine_new cr magic user pw cert = Some e"
    "length d = 36" "length ac = 16" "length name \<le> 65514" "answer cr ac (rnd_16 (rnd 3)) user pw r keys"
  obtains e' evs cpkt where "routine evs" "e_phase e' = PhaseEstablished"
    "build_connected_message cr (offered_algo d) (drop 4 d) (cert_hash_of e (offered_algo d))
       (send_key keys) (recv_key keys) = Some cpkt"
    "engine_run cr e (link_messages rnd d q @ login_messages rnd i ac name r @
         address_messages rnd q' peer ip dns1 dns2) =
       Some (e', evs @ [Send cpkt, Established \<lparr>nc_local_ip = Some ip, nc_peer_ip = Some peer,
         nc_dns1 = Some dns1, nc_dns2 = Some dns2\<rparr> keys])"
proof -
  have id: "e_username e = user" "e_password e = pw"
    using assms(2) by (auto simp: engine_new_def bind_eq_Some_conv Let_def)
  obtain e1 evs1 where a: "routine evs1" "engine_run cr e (link_messages rnd d q) = Some (e1, evs1)"
    "e_phase e1 = PhaseChap" "e_ipcp e1 = ipcp_new" "e_hash_algo e1 = Some (offered_algo d)"
    "e_server_nonce e1 = Some (drop 4 d)" "same_identity e e1"
    using assms(1-3) by (rule link_run)
  have "answer cr ac (rnd_16 (rnd 3)) (e_username e1) (e_password e1) r keys"
    using assms(6) a(7) id by (simp add: same_identity_def)
  with assms(1,4,5) obtain e2 evs2 where b: "routine evs2"
    "engine_run cr e1 (login_messages rnd i ac name r) = Some (e2, evs2)"
    "e_phase e2 = PhaseIpcp" "e_mppe_keys e2 = Some keys" "e_ipcp e2 = fst (ipcp_start (e_ipcp e1))"
    "e_hash_algo e2 = e_hash_algo e1" "e_server_nonce e2 = e_server_nonce e1" "same_identity e1 e2"
    by (rule login_run)
  have ok: "engine_ok e2"
    using engine_run_ok [OF assms(1) engine_run_ok [OF assms(1) engine_new_ok [OF assms(1,2)] a(2)] b(2)] .
  have "e_ipcp e2 = fst (ipcp_start ipcp_new)" "e_hash_algo e2 = Some (offered_algo d)"
    "e_server_nonce e2 = Some (drop 4 d)"
    using a b by simp_all
  from address_run [OF assms(1) ok this(1) b(3) this(2,3) b(4)]
  obtain e3 evs3 cpkt where c: "routine evs3" "e_phase e3 = PhaseEstablished"
    "build_connected_message cr (offered_algo d) (drop 4 d) (cert_hash_of e2 (offered_algo d))
       (send_key keys) (recv_key keys) = Some cpkt"
    "engine_run cr e2 (address_messages rnd q' peer ip dns1 dns2) =
       Some (e3, evs3 @ [Send cpkt, Established \<lparr>nc_local_ip = Some ip, nc_peer_ip = Some peer,
         nc_dns1 = Some dns1, nc_dns2 = Some dns2\<rparr> keys])"
    by metis
  have "cert_hash_of e2 x = cert_hash_of e x" for x
    using same_identity_trans [OF a(7) b(8)] by (cases x) (simp_all add: cert_hash_of_def same_identity_def)
  with a b c that [of "evs1 @ evs2 @ evs3" e3 cpkt] show thesis
    by (simp add: engine_run_append)
qed

lemma engine_new_toy:
  obtains e where "engine_new toy_crypto 7 (lit ''bob'') (lit ''pw'') [1, 2, 3] = Some e"
  using toy_crypto_ok by (auto simp: engine_new_def crypto_lengths Let_def)

lemma engine_new_facts:
  assumes "engine_new cr magic user pw cert = Some e"
  shows "e_username e = user" "e_password e = pw" "e_phase e = WaitConnectAck" "e_hash_algo e = None"
    "e_ipcp e = ipcp_new" "e_mppe_keys e = None" "e_pending_chap e = None"
  using assms by (auto simp: engine_new_def bind_eq_Some_conv Let_def)

lemma last_event: "x \<in> set (evs @ [y, x])"
  by simp

lemma toy_handshake:
  obtains e e' evs cpkt r keys where
    "engine_new toy_crypto 7 (lit ''bob'') (lit ''pw'') [1, 2, 3] = Some e"
    "answer toy_crypto (replicate 16 2) (replicate 16 1) (lit ''bob'') (lit ''pw'') r keys"
    "engine_run toy_crypto e (link_messages (\<lambda>k. \<lparr>rnd_u32 = \<lambda>n. 0, rnd_16 = replicate 16 1\<rparr>) (replicate 36 3) 9 @
       login_messages (\<lambda>k. \<lparr>rnd_u32 = \<lambda>n. 0, rnd_16 = replicate 16 1\<rparr>) 5 (replicate 16 2) [] r @
       address_messages (\<lambda>k. \<lparr>rnd_u32 = \<lambda>n. 0, rnd_16 = replicate 16 1\<rparr>) 1
         (10, 0, 0, 1) (10, 0, 0, 2) (8, 8, 8, 8) (8, 8, 4, 4)) =
     Some (e', evs @ [Send cpkt, Established \<lparr>nc_local_ip = Some (10, 0, 0, 2),
       nc_peer_ip = Some (10, 0, 0, 1), nc_dns1 = Some (8, 8, 8, 8), nc_dns2 = Some (8, 8, 4, 4)\<rparr> keys])"
    "e_phase e' = PhaseEstablished" "routine evs"
proof -
  obtain e where e: "engine_new toy_crypto 7 (lit ''bob'') (lit ''pw'') [1, 2, 3] = Some e"
    by (rule engine_new_toy)
  let ?r = "\<lambda>k::nat. \<lparr>rnd_u32 = \<lambda>n::nat. 0::u32, rnd_16 = replicate 16 (1::u8)\<rparr>"
  obtain r keys where a: "answer toy_crypto (replicate 16 2) (rnd_16 (?r 3)) (lit ''bob'') (lit ''pw'') r keys"
    using toy_crypto_ok by (rule answer_exists)
  have l: "length (replicate 36 (3::u8)) = 36" "length (replicate 16 (2::u8)) = 16"
    "length ([]::bytes) \<le> 65514" by simp_all
  show thesis
    by (rule handshake_run [OF toy_crypto_ok e l a, of 9 5 1 "(10, 0, 0, 1)" "(10, 0, 0, 2)"
          "(8, 8, 8, 8)" "(8, 8, 4, 4)"]) (rule that [OF e], use a in \<open>simp_all only: draws.select_convs\<close>)
qed

lemma toy_engine:
  obtains e keys where "engine_ok e" "e_phase e = ph" "e_hash_algo e = Some AlgoSha256"
    "e_mppe_keys e = Some keys" "ipcp_is_up (e_ipcp e)"
proof -
  obtain e0 where e0: "engine_new toy_crypto 7 (lit ''bob'') (lit ''pw'') [1, 2, 3] = Some e0"
    by (rule engine_new_toy)
  define s where "s = ipcp_new\<lparr>ipcp_local_up := True, ipcp_remote_up := True\<rparr>"
  define keys where "keys = \<lparr>send_key = replicate 16 5, recv_key = replicate 16 (6::u8)\<rparr>"
  define e where "e = e0\<lparr>e_phase := ph, e_hash_algo := Some AlgoSha256,
    e_server_nonce := Some (replicate 32 3), e_mppe_keys := Some keys, e_ipcp := s\<rparr>"
  have "engine_ok e"
    using engine_new_ok [OF toy_crypto_ok e0] ipcp_new_inv
    by (simp add: engine_ok_def e_def s_def keys_def keys_ok_def lens_def ipcp_inv_def)
  then show thesis by (rule that) (simp_all add: e_def s_def ipcp_is_up_def)
qed

lemma ipcp_receive_empty:
  "ipcp_receive s [] = Some (s, \<lparr>ir_to_send = [], ir_up = ipcp_is_up s\<rparr>)"
  using ipcp_receive_garbage [of "[]" s] by (simp add: cp_decode_eq)

lemma toy_finish:
  obtains e e' evs cpkt nc keys where "engine_ok e" "e_phase e = PhaseIpcp" "e_hash_algo e \<noteq> None"
    "on_packet toy_crypto rnd e (frame_pkt ProtoIpcp []) =
       Some (e', evs @ [Send cpkt, Established nc keys])"
proof -
  obtain e keys where k: "engine_ok e" "e_phase e = PhaseIpcp" "e_hash_algo e = Some AlgoSha256"
    "e_mppe_keys e = Some keys" "ipcp_is_up (e_ipcp e)"
    by (rule toy_engine)
  show thesis
    by (rule ipcp_finish_step [OF toy_crypto_ok k(1) ipcp_receive_empty _ k(2,3,4), of rnd])
      (simp add: k(5), rule that [OF k(1,2)], use k in simp_all)
qed

section \<open>Properties\<close>

text \<open>
  C4. The tunnel is reported established by one message only: an IPCP frame in the IPCP phase
  that leaves IPCP up. It is reported with the addresses IPCP negotiated and the keys of the
  login, as the last event, right behind the Connected packet, which binds the tunnel to this
  TLS connection: its MAC is over the hash of this certificate under the hash algorithm and
  the nonce of CONNECT_ACK. Everything before is replies and log lines.
\<close>

theorem established_with_connected_packet:
  assumes "crypto_ok cr" "on_packet cr rnd e pkt = Some (e', evs)" "Established nc keys \<in> set evs"
  shows "\<exists>frame p s r algo nonce cpkt pre.
    pkt = Data frame \<and> ppp_decode frame = Some (Some (ProtoIpcp, p)) \<and> e_phase e = PhaseIpcp \<and>
    ipcp_receive (e_ipcp e) p = Some (s, r) \<and> ipcp_is_up s \<and> nc = ipcp_negotiated s \<and>
    e_hash_algo e = Some algo \<and> e_server_nonce e = Some nonce \<and> e_mppe_keys e = Some keys \<and>
    build_connected_message cr algo nonce (cert_hash_of e algo) (send_key keys) (recv_key keys) = Some cpkt \<and>
    evs = pre @ [Send cpkt, Established nc keys] \<and> routine pre \<and>
    e' = e\<lparr>e_ipcp := s, e_phase := PhaseEstablished\<rparr>"
proof -
  have "phase_step (input_of pkt) (e_phase e) (e_phase e')" "e_phase e = PhaseIpcp"
    "e_phase e' = PhaseEstablished"
    using on_packet_step [OF assms(1,2)] assms(3) by (auto simp: step_ok_def)
  then have i: "input_of pkt = InPpp ProtoIpcp" by (auto elim: establishedE)
  show ?thesis
    using assms(2)
  proof (cases rule: on_packet_cases)
    case (ipcp frame p)
    show ?thesis
      using ipcp(3)
    proof (cases rule: handle_ipcp_cases)
      case (update s r ts)
      then have "routine evs" by auto
      with assms(3) show ?thesis by (auto simp: routine_def)
    next
      case (finish s r ts algo nonce keys' cpkt)
      have e: "e_phase e = PhaseIpcp" using finish(2) by (simp add: completes_def)
      have "Established nc keys \<notin> set (ts @ concat (map (send_event IpcpSend ProtoIpcp) (ir_to_send r)))"
        using finish(9) set_trace_sends by auto
      then have "nc = ipcp_negotiated s" "keys' = keys" using assms(3) finish(10) by auto
      moreover have "routine (ts @ concat (map (send_event IpcpSend ProtoIpcp) (ir_to_send r)))"
        using finish(9) by auto
      ultimately show ?thesis
        using ipcp(1,2) finish e
        by (intro exI conjI) (assumption | simp)+
    qed
  next
    case (reject frame proto p)
    with assms(3) show ?thesis by (simp add: protocol_reject_def Let_def split: prod.splits)
  qed (use i assms(3) in \<open>auto simp: input_of_def\<close>)
qed

theorem established_with_connected_packet_witness:
  "\<exists>e e' evs nc keys s r. on_packet toy_crypto \<lparr>rnd_u32 = \<lambda>n. 0, rnd_16 = []\<rparr> e (frame_pkt ProtoIpcp []) =
     Some (e', evs) \<and> Established nc keys \<in> set evs \<and>
     ipcp_receive (e_ipcp e) [] = Some (s, r) \<and> nc = ipcp_negotiated s"
proof -
  let ?rnd = "\<lparr>rnd_u32 = \<lambda>n::nat. 0 :: u32, rnd_16 = [] :: bytes\<rparr>"
  obtain e e' evs cpkt nc keys where
    p: "on_packet toy_crypto ?rnd e (frame_pkt ProtoIpcp []) = Some (e', evs @ [Send cpkt, Established nc keys])"
    by (rule toy_finish)
  have m: "Established nc keys \<in> set (evs @ [Send cpkt, Established nc keys])" by simp
  have "ppp_decode frame = Some (Some (ProtoIpcp, q)) \<Longrightarrow> frame_pkt ProtoIpcp [] = Data frame \<Longrightarrow> q = []" for frame q
    by (auto simp: frame_pkt_def ppp_decode_encode)
  with established_with_connected_packet [OF toy_crypto_ok p m] p m show ?thesis by blast
qed

text \<open>
  C8. The phases of a session move forward as the handshake goes: CONNECT_ACK opens LCP, LCP
  coming up opens CHAP, IPCP coming up in the IPCP phase establishes the tunnel, and only a
  CHAP frame may enter the IPCP phase. No other input changes the phase. So a session never
  falls back, but for a new login in the established phase. Only a verified
  Success enters the IPCP phase or changes the keys, and only CONNECT_ACK, in the first phase,
  sets the hash algorithm and the nonce.
\<close>

theorem phases_advance:
  assumes "crypto_ok cr" "on_packet cr rnd e pkt = Some (e', evs)"
  shows "phase_step (input_of pkt) (e_phase e) (e_phase e') \<and>
    (e_phase e \<le> e_phase e' \<or> e_phase e = PhaseEstablished \<and> e_phase e' = PhaseIpcp) \<and>
    (e_phase e' = PhaseIpcp \<and> e_phase e \<noteq> PhaseIpcp \<or> e_mppe_keys e' \<noteq> e_mppe_keys e \<longrightarrow>
       (\<exists>pending ac keys. success_verified cr e pkt pending ac keys \<and> e_mppe_keys e' = Some keys)) \<and>
    (e_hash_algo e' \<noteq> e_hash_algo e \<or> e_server_nonce e' \<noteq> e_server_nonce e \<longrightarrow>
       e_phase e = WaitConnectAck \<and> input_of pkt = InCtrl ConnectAck \<and> e_phase e' = PhaseLcp)"
  using on_packet_step [OF assms] phase_step_forward by (auto simp: step_ok_def)

theorem phases_advance_witness:
  "\<exists>e e' evs. on_packet toy_crypto \<lparr>rnd_u32 = \<lambda>n. 0, rnd_16 = []\<rparr> e (frame_pkt ProtoIpcp []) = Some (e', evs) \<and>
     e_phase e = PhaseIpcp \<and> phase_step (InPpp ProtoIpcp) (e_phase e) (e_phase e')"
proof -
  let ?rnd = "\<lparr>rnd_u32 = \<lambda>n::nat. 0 :: u32, rnd_16 = [] :: bytes\<rparr>"
  obtain e e' evs cpkt nc keys where p: "e_phase e = PhaseIpcp"
    "on_packet toy_crypto ?rnd e (frame_pkt ProtoIpcp []) = Some (e', evs @ [Send cpkt, Established nc keys])"
    by (rule toy_finish)
  have "input_of (frame_pkt ProtoIpcp []) = InPpp ProtoIpcp"
    by (simp add: input_of_def frame_pkt_def ppp_decode_encode)
  with phases_advance [OF toy_crypto_ok p(2)] p show ?thesis by metis
qed

text \<open>What a run must have contained for the engine to hold a pending response, or keys.\<close>

definition answered_in :: "crypto \<Rightarrow> engine \<Rightarrow> (draws \<times> packet) list \<Rightarrow> pending_response \<Rightarrow> bytes \<Rightarrow> bool" where
  \<comment> \<open>a Challenge of the run was answered with this response\<close>
  "answered_in cr e0 ms pending ac \<longleftrightarrow>
     (\<exists>xs m ys t evs. ms = xs @ m # ys \<and> engine_run cr e0 xs = Some (t, evs) \<and>
        challenge_answered cr t m pending ac)"

definition verified_in :: "crypto \<Rightarrow> engine \<Rightarrow> (draws \<times> packet) list \<Rightarrow> mppe_keys \<Rightarrow> bool" where
  \<comment> \<open>a Success of the run verified against a response given earlier in it, and gave the keys\<close>
  "verified_in cr e0 ms keys \<longleftrightarrow>
     (\<exists>xs m ys t evs pending ac. ms = xs @ m # ys \<and> engine_run cr e0 xs = Some (t, evs) \<and>
        success_verified cr t (snd m) pending ac keys \<and> answered_in cr e0 xs pending ac)"

lemma answered_in_snoc: "answered_in cr e0 ms pending ac \<Longrightarrow> answered_in cr e0 (ms @ [m]) pending ac"
  unfolding answered_in_def by (metis append.assoc append_Cons)

lemma verified_in_snoc: "verified_in cr e0 ms keys \<Longrightarrow> verified_in cr e0 (ms @ [m]) keys"
  unfolding verified_in_def by (metis append.assoc append_Cons)

lemma run_history:
  assumes "crypto_ok cr" "e_pending_chap e0 = None" "e_mppe_keys e0 = None"
    "engine_run cr e0 ms = Some (e, evs)"
  shows "same_identity e0 e \<and>
    (\<forall>pending. e_pending_chap e = Some pending \<longrightarrow>
       (\<exists>ac. e_auth_challenge e = Some ac \<and> answered_in cr e0 ms pending ac)) \<and>
    (\<forall>keys. e_mppe_keys e = Some keys \<longrightarrow> verified_in cr e0 ms keys) \<and>
    (\<forall>nc keys. Established nc keys \<in> set evs \<longrightarrow> verified_in cr e0 ms keys)"
  using assms(4)
proof (induction ms arbitrary: e evs rule: rev_induct)
  case Nil
  with assms(2,3) show ?case by (auto simp: same_identity_def)
next
  case (snoc m ms)
  obtain t evs1 evs2 where t: "engine_run cr e0 ms = Some (t, evs1)"
    "on_packet cr (fst m) t (snd m) = Some (e, evs2)" "evs = evs1 @ evs2"
    using snoc.prems by (rule engine_run_snoc)
  have s: "step_ok cr (fst m) t (snd m) e evs2" by (rule on_packet_step [OF assms(1) t(2)])
  note IH = snoc.IH [OF t(1)]
  have "same_identity e0 e"
    using IH s same_identity_trans by (auto simp: step_ok_def)
  moreover have "\<exists>ac. e_auth_challenge e = Some ac \<and> answered_in cr e0 (ms @ [m]) pending ac"
    if p: "e_pending_chap e = Some pending" for pending
  proof (cases "e_pending_chap e = e_pending_chap t \<and> e_auth_challenge e = e_auth_challenge t")
    case True
    with IH p show ?thesis by (metis answered_in_snoc)
  next
    case False
    then obtain ac where "challenge_answered cr t m pending ac" "e_auth_challenge e = Some ac"
      using s p by (auto simp: step_ok_def)
    with t(1) show ?thesis unfolding answered_in_def by blast
  qed
  moreover have k: "verified_in cr e0 (ms @ [m]) keys" if k: "e_mppe_keys e = Some keys" for keys
  proof (cases "e_mppe_keys e = e_mppe_keys t")
    case True
    with IH k show ?thesis by (metis verified_in_snoc)
  next
    case False
    then obtain pending ac where v: "success_verified cr t (snd m) pending ac keys"
      using s k by (auto simp: step_ok_def)
    then have "answered_in cr e0 ms pending ac"
      using IH unfolding success_verified_def by (metis option.inject)
    with v t(1) show ?thesis unfolding verified_in_def by blast
  qed
  moreover have "verified_in cr e0 (ms @ [m]) keys" if x: "Established nc keys \<in> set evs" for nc keys
  proof (cases "Established nc keys \<in> set evs1")
    case True
    with IH show ?thesis by (metis verified_in_snoc)
  next
    case False
    with x t(3) have "e_mppe_keys t = Some keys" using s by (auto simp: step_ok_def)
    with IH show ?thesis by (metis verified_in_snoc)
  qed
  ultimately show ?case by blast
qed

lemma build_response_peer_challenge:
  "build_response cr pc info user pw = Some (Inr (wire, pending)) \<Longrightarrow> pr_peer_challenge pending = pc"
  by (auto simp: build_response_def Let_def bind_eq_Some_conv split: if_splits)

text \<open>
  No tunnel without mutual authentication: when a run of a new session reports the tunnel
  established, a Challenge of the run was answered from the user's password with a peer
  challenge drawn at random for it, and a later Success presented the authenticator response
  for exactly that response and challenge; the reported keys are the ones derived from it.
\<close>

theorem established_needs_login:
  assumes "crypto_ok cr" "engine_new cr magic user pw cert = Some e0"
    "engine_run cr e0 ms = Some (e, evs)" "Established nc keys \<in> set evs"
  shows "\<exists>xs m1 ys m2 zs t1 t2 pending ac.
    ms = xs @ m1 # ys @ m2 # zs \<and>
    (\<exists>ev. engine_run cr e0 xs = Some (t1, ev)) \<and> e_username t1 = user \<and> e_password t1 = pw \<and>
    challenge_answered cr t1 m1 pending ac \<and> pr_peer_challenge pending = rnd_16 (fst m1) \<and>
    (\<exists>ev. engine_run cr e0 (xs @ m1 # ys) = Some (t2, ev)) \<and> e_username t2 = user \<and> e_password t2 = pw \<and>
    success_verified cr t2 (snd m2) pending ac keys"
proof -
  note n = engine_new_facts [OF assms(2)]
  note h = run_history [OF assms(1) n(7,6)]
  have "verified_in cr e0 ms keys" using h [OF assms(3)] assms(4) by blast
  then obtain us m2 zs t2 ev2 pending ac where b: "ms = us @ m2 # zs"
    "engine_run cr e0 us = Some (t2, ev2)" "success_verified cr t2 (snd m2) pending ac keys"
    "answered_in cr e0 us pending ac"
    unfolding verified_in_def by blast
  then obtain xs m1 ys t1 ev1 where a: "us = xs @ m1 # ys" "engine_run cr e0 xs = Some (t1, ev1)"
    "challenge_answered cr t1 m1 pending ac"
    unfolding answered_in_def by blast
  obtain info wire where
    "build_response cr (rnd_16 (fst m1)) info (e_username t1) (e_password t1) = Some (Inr (wire, pending))"
    using a(3) by (auto simp: challenge_answered_def)
  then have pc: "pr_peer_challenge pending = rnd_16 (fst m1)"
    by (rule build_response_peer_challenge)
  have "same_identity e0 t1" "same_identity e0 t2" using h [OF a(2)] h [OF b(2)] by simp_all
  then have i: "e_username t1 = user" "e_password t1 = pw" "e_username t2 = user" "e_password t2 = pw"
    using n(1,2) by (simp_all add: same_identity_def)
  have "ms = xs @ m1 # ys @ m2 # zs" "engine_run cr e0 (xs @ m1 # ys) = Some (t2, ev2)"
    using a(1) b(1,2) by simp_all
  with a(2,3) b(3) pc i show ?thesis by blast
qed

theorem established_needs_login_witness:
  "\<exists>e0 e ms evs nc keys t2 pending ac. engine_new toy_crypto 7 (lit ''bob'') (lit ''pw'') [1, 2, 3] = Some e0 \<and>
    engine_run toy_crypto e0 ms = Some (e, evs) \<and> Established nc keys \<in> set evs \<and>
    (\<exists>m\<in>set ms. success_verified toy_crypto t2 (snd m) pending ac keys)"
proof -
  obtain e0 e ms evs nc keys where
    r: "engine_new toy_crypto 7 (lit ''bob'') (lit ''pw'') [1, 2, 3] = Some e0"
      "engine_run toy_crypto e0 ms = Some (e, evs)" "Established nc keys \<in> set evs"
    by (rule toy_handshake) (rule that, assumption, assumption, rule last_event)
  from established_needs_login [OF toy_crypto_ok r] obtain xs m1 ys m2 zs t2 pending ac where
    "ms = xs @ m1 # ys @ m2 # zs" "success_verified toy_crypto t2 (snd m2) pending ac keys"
    by blast
  then have "\<exists>m\<in>set ms. success_verified toy_crypto t2 (snd m) pending ac keys"
    by (intro bexI [of _ m2]) simp_all
  with r show ?thesis by blast
qed

text \<open>
  Once CONNECT_ACK has been handled, no sequence of packets, however malformed, makes the
  engine panic, and its invariant holds throughout.
\<close>

theorem no_panic_after_connect_ack:
  assumes "crypto_ok cr" "engine_ok e" "e_hash_algo e \<noteq> None"
  shows "\<exists>e' evs. engine_run cr e ms = Some (e', evs) \<and> engine_ok e' \<and> e_hash_algo e' \<noteq> None"
  using assms(2,3)
proof (induction ms arbitrary: e)
  case (Cons m ms)
  obtain e1 evs1 where e1: "on_packet cr (fst m) e (snd m) = Some (e1, evs1)"
    using on_packet_None [OF assms(1) Cons.prems(1), of "fst m" "snd m"] Cons.prems(2) by fastforce
  have "e_hash_algo e1 \<noteq> None"
    using on_packet_step [OF assms(1) e1] Cons.prems(2) by (auto simp: step_ok_def)
  from Cons.IH [OF on_packet_ok [OF assms(1) Cons.prems(1) e1] this] e1 show ?case by auto
qed simp

theorem no_panic_after_connect_ack_witness:
  "\<exists>e e' evs. engine_ok e \<and> e_phase e = PhaseIpcp \<and>
     engine_run toy_crypto e [(\<lparr>rnd_u32 = \<lambda>n. 0, rnd_16 = []\<rparr>, Data [1]),
       (\<lparr>rnd_u32 = \<lambda>n. 0, rnd_16 = []\<rparr>, frame_pkt ProtoChap [1, 2])] = Some (e', evs)"
proof -
  let ?rnd = "\<lparr>rnd_u32 = \<lambda>n::nat. 0 :: u32, rnd_16 = [] :: bytes\<rparr>"
  obtain e where p: "engine_ok e" "e_phase e = PhaseIpcp" "e_hash_algo e \<noteq> None"
    by (rule toy_finish)
  from no_panic_after_connect_ack [OF toy_crypto_ok p(1,3)] p show ?thesis by blast
qed

text \<open>
  C7. Before CONNECT_ACK a panic is within the reach of a server that knows the password: a
  Challenge and its Success are handled in the first phase and enter the IPCP phase, and when
  IPCP comes up the engine asks for the hash algorithm that no CONNECT_ACK has set.
\<close>

theorem login_before_connect_ack_panics:
  assumes "crypto_ok cr" "engine_new cr magic user pw cert = Some e"
    "length ac = 16" "length name \<le> 65514" "answer cr ac (rnd_16 (rnd 3)) user pw r keys"
  shows "engine_run cr e (login_messages rnd i ac name r @
      [(rnd 5, frame_pkt ProtoIpcp (cp_encode ConfigureAck 1 [])),
       (rnd 6, frame_pkt ProtoIpcp (cp_encode ConfigureRequest q []))]) = None"
proof -
  note n = engine_new_facts [OF assms(2)]
  have "answer cr ac (rnd_16 (rnd 3)) (e_username e) (e_password e) r keys"
    using assms(5) n by simp
  from login_run [where rnd = rnd and i = i, OF assms(1,3,4) this]
  obtain e1 evs1 where b: "engine_run cr e (login_messages rnd i ac name r) = Some (e1, evs1)"
    "e_phase e1 = PhaseIpcp" "e_ipcp e1 = fst (ipcp_start (e_ipcp e))" "e_hash_algo e1 = e_hash_algo e"
    by metis
  obtain s1 r1 s2 r2 where i:
    "ipcp_receive (e_ipcp e1) (cp_encode ConfigureAck 1 []) = Some (s1, r1)" "\<not> ir_up r1"
    "ipcp_receive s1 (cp_encode ConfigureRequest q []) = Some (s2, r2)" "ir_up r2"
    using b(3) n(5)
    by (simp add: ipcp_receive_def ipcp_handle_simps ipcp_start_def ipcp_new_def ipcp_is_up_def)
  obtain evs2 where c: "on_packet cr (rnd 5) e1 (frame_pkt ProtoIpcp (cp_encode ConfigureAck 1 [])) =
      Some (e1\<lparr>e_ipcp := s1\<rparr>, evs2)"
    using ipcp_update_step [OF i(1,2)] by blast
  have "on_packet cr (rnd 6) (e1\<lparr>e_ipcp := s1\<rparr>) (frame_pkt ProtoIpcp (cp_encode ConfigureRequest q [])) = None"
    using i(3,4) b(2,4) n(4) by (intro ipcp_panic_step) simp_all
  with b(1) c show ?thesis by (simp add: engine_run_append del: on_frame_pkt)
qed

theorem login_before_connect_ack_panics_witness:
  "\<exists>e ms. engine_new toy_crypto 7 (lit ''bob'') (lit ''pw'') [1, 2, 3] = Some e \<and>
     engine_run toy_crypto e ms = None \<and> length ms = 4"
proof -
  obtain e where e: "engine_new toy_crypto 7 (lit ''bob'') (lit ''pw'') [1, 2, 3] = Some e"
    by (rule engine_new_toy)
  let ?r = "\<lambda>k::nat. \<lparr>rnd_u32 = \<lambda>n::nat. 0::u32, rnd_16 = replicate 16 (1::u8)\<rparr>"
  obtain r keys where a: "answer toy_crypto (replicate 16 2) (rnd_16 (?r 3)) (lit ''bob'') (lit ''pw'') r keys"
    using toy_crypto_ok by (rule answer_exists)
  have l: "length (replicate 16 (2::u8)) = 16" "length ([]::bytes) \<le> 65514" by simp_all
  show ?thesis
    using e login_before_connect_ack_panics [OF toy_crypto_ok e l a, of 5 9]
    by (intro exI conjI) (assumption, assumption, simp add: login_messages_def)
qed

text \<open>
  C3. A server that follows the protocol and knows the password gets its tunnel: CONNECT_ACK,
  LCP with MS-CHAPv2 asked for, a Challenge with the right Success, and IPCP with assigned
  addresses end in a run without panic or fatal error whose last events are the Connected
  packet and the report of the tunnel with exactly the assigned addresses.
\<close>

theorem handshake_establishes:
  assumes "crypto_ok cr" "engine_new cr magic user pw cert = Some e"
    "length d = 36" "length ac = 16" "length name \<le> 65514" "answer cr ac (rnd_16 (rnd 3)) user pw r keys"
  shows "\<exists>e' evs cpkt. engine_run cr e (link_messages rnd d q @ login_messages rnd i ac name r @
         address_messages rnd q' peer ip dns1 dns2) =
       Some (e', evs @ [Send cpkt, Established \<lparr>nc_local_ip = Some ip, nc_peer_ip = Some peer,
         nc_dns1 = Some dns1, nc_dns2 = Some dns2\<rparr> keys]) \<and>
    e_phase e' = PhaseEstablished \<and> routine evs \<and>
    build_connected_message cr (offered_algo d) (drop 4 d) (cert_hash_of e (offered_algo d))
       (send_key keys) (recv_key keys) = Some cpkt"
  by (rule handshake_run [where rnd = rnd, OF assms, of q i q' peer ip dns1 dns2]) blast

theorem handshake_establishes_witness:
  "\<exists>e e' ms evs cpkt keys. engine_new toy_crypto 7 (lit ''bob'') (lit ''pw'') [1, 2, 3] = Some e \<and>
     length ms = 8 \<and> engine_run toy_crypto e ms = Some (e', evs @ [Send cpkt,
       Established \<lparr>nc_local_ip = Some (10, 0, 0, 2), nc_peer_ip = Some (10, 0, 0, 1),
         nc_dns1 = Some (8, 8, 8, 8), nc_dns2 = Some (8, 8, 4, 4)\<rparr> keys])"
proof -
  obtain e where e: "engine_new toy_crypto 7 (lit ''bob'') (lit ''pw'') [1, 2, 3] = Some e"
    by (rule engine_new_toy)
  let ?r = "\<lambda>k::nat. \<lparr>rnd_u32 = \<lambda>n::nat. 0::u32, rnd_16 = replicate 16 (1::u8)\<rparr>"
  obtain r keys where a: "answer toy_crypto (replicate 16 2) (rnd_16 (?r 3)) (lit ''bob'') (lit ''pw'') r keys"
    using toy_crypto_ok by (rule answer_exists)
  have l: "length (replicate 36 (3::u8)) = 36" "length (replicate 16 (2::u8)) = 16"
    "length ([]::bytes) \<le> 65514" by simp_all
  let ?ms = "link_messages ?r (replicate 36 3) 9 @ login_messages ?r 5 (replicate 16 2) [] r @
    address_messages ?r 1 (10, 0, 0, 1) (10, 0, 0, 2) (8, 8, 8, 8) (8, 8, 4, 4)"
  have "length ?ms = 8" by (simp add: link_messages_def login_messages_def address_messages_def)
  with e handshake_establishes [where rnd = ?r, OF toy_crypto_ok e l a,
      of 9 5 1 "(10, 0, 0, 1)" "(10, 0, 0, 2)" "(8, 8, 8, 8)" "(8, 8, 4, 4)"]
  show ?thesis by blast
qed

text \<open>
  C38. An established session that is challenged again goes through the login once more and falls
  back to the IPCP phase, but IPCP's flags are still up: the next IPCP frame, an empty one is
  enough, reports the same addresses established a second time, with another Connected packet.
\<close>

theorem rechallenge_reestablishes:
  assumes "crypto_ok cr" "engine_ok e" "e_phase e = PhaseEstablished" "ipcp_is_up (e_ipcp e)"
    "e_hash_algo e \<noteq> None" "length ac = 16" "length name \<le> 65514"
    "answer cr ac (rnd_16 (rnd 3)) (e_username e) (e_password e) r keys"
  shows "\<exists>e1 evs1 e2 evs2 cpkt.
    engine_run cr e (login_messages rnd i ac name r) = Some (e1, evs1) \<and> routine evs1 \<and>
    e_phase e1 = PhaseIpcp \<and>
    on_packet cr (rnd 5) e1 (frame_pkt ProtoIpcp []) =
      Some (e2, evs2 @ [Send cpkt, Established (ipcp_negotiated (e_ipcp e)) keys]) \<and>
    routine evs2 \<and> e_phase e2 = PhaseEstablished"
proof -
  obtain e1 evs1 where b: "routine evs1" "engine_run cr e (login_messages rnd i ac name r) = Some (e1, evs1)"
    "e_phase e1 = PhaseIpcp" "e_mppe_keys e1 = Some keys" "e_ipcp e1 = fst (ipcp_start (e_ipcp e))"
    "e_hash_algo e1 = e_hash_algo e"
    using login_run [where rnd = rnd and i = i, OF assms(1,6,7,8)] by metis
  have ok: "engine_ok e1" by (rule engine_run_ok [OF assms(1,2) b(2)])
  have s: "ipcp_is_up (e_ipcp e1)" "ipcp_negotiated (e_ipcp e1) = ipcp_negotiated (e_ipcp e)"
    using assms(4) b(5) by (simp_all add: ipcp_start_def ipcp_send_config_request_def ipcp_is_up_def Let_def)
  have r: "ipcp_receive (e_ipcp e1) [] = Some (e_ipcp e1, \<lparr>ir_to_send = [], ir_up = True\<rparr>)"
    using ipcp_receive_garbage [of "[]" "e_ipcp e1"] s(1) by (simp add: cp_decode_eq)
  obtain algo where h: "e_hash_algo e1 = Some algo" using assms(5) b(6) by auto
  obtain evs2 nonce cpkt where "routine evs2" "on_packet cr (rnd 5) e1 (frame_pkt ProtoIpcp []) =
      Some (e1\<lparr>e_ipcp := e_ipcp e1, e_phase := PhaseEstablished\<rparr>,
        evs2 @ [Send cpkt, Established (ipcp_negotiated (e_ipcp e1)) keys])"
    by (rule ipcp_finish_step [OF assms(1) ok r _ b(3) h b(4)]) simp_all
  then show ?thesis
    using b(1,2,3) s(2) by (metis engine.ext_inject engine.surjective engine.update_convs(7) engine.select_convs(7))
qed

theorem rechallenge_reestablishes_witness:
  "\<exists>e e1 evs1 evs2 cpkt e2 keys ms. e_phase e = PhaseEstablished \<and>
     engine_run toy_crypto e ms = Some (e1, evs1) \<and> e_phase e1 = PhaseIpcp \<and>
     on_packet toy_crypto \<lparr>rnd_u32 = \<lambda>n. 0, rnd_16 = replicate 16 1\<rparr> e1 (frame_pkt ProtoIpcp []) =
       Some (e2, evs2 @ [Send cpkt, Established (ipcp_negotiated (e_ipcp e)) keys])"
proof -
  obtain e where e: "engine_ok e" "e_phase e = PhaseEstablished" "e_hash_algo e = Some AlgoSha256"
    "ipcp_is_up (e_ipcp e)"
    by (rule toy_engine)
  let ?r = "\<lambda>k::nat. \<lparr>rnd_u32 = \<lambda>n::nat. 0::u32, rnd_16 = replicate 16 (1::u8)\<rparr>"
  obtain r keys where a: "answer toy_crypto (replicate 16 2) (rnd_16 (?r 3)) (e_username e) (e_password e) r keys"
    using toy_crypto_ok by (rule answer_exists)
  have l: "length (replicate 16 (2::u8)) = 16" "length ([]::bytes) \<le> 65514" by simp_all
  have h: "e_hash_algo e \<noteq> None" using e(3) by simp
  from rechallenge_reestablishes [where rnd = ?r, OF toy_crypto_ok e(1,2,4) h l a, of 5] e(2)
  show ?thesis by blast
qed

text \<open>
  A Success uses up the response it is checked against, whatever the outcome: unless a new
  Challenge came in between, a second Success is a fatal error, and so is every Failure.
\<close>

theorem success_is_checked_once:
  assumes "crypto_ok cr" "length d1 \<le> 65531" "length d2 \<le> 65531"
    "on_packet cr rnd e (frame_pkt ProtoChap (chap_encode Success i1 d1)) = Some (e1, evs1)"
  shows "on_packet cr rnd' e1 (frame_pkt ProtoChap (chap_encode Success i2 d2)) =
      Some (e1, [Fatal SuccessWithoutPending]) \<and>
    on_packet cr rnd' e (frame_pkt ProtoChap (chap_encode Failure i2 d2)) =
      Some (e, [Trace (ChapRecv Failure i2 (length d2)), Fatal (ChapAuthFailed (from_utf8_lossy d2))]) \<and>
    (e_phase e1 \<noteq> e_phase e \<longrightarrow> (\<exists>p ac. e_pending_chap e = Some p \<and> e_auth_challenge e = Some ac \<and>
       verify_success cr d1 (e_password e) p ac (e_username e) = Some True))"
proof -
  let ?f = "\<lparr>cf_code = Success, cf_id = i1, cf_data = d1\<rparr>"
  have "on_success cr e ?f (Trace (ChapRecv Success i1 (length d1))) = Some (e1, evs1)"
    using assms(2,4) by (simp add: handle_chap_def Let_def)
  note s = this
  have "e_pending_chap e1 = None \<and> (e_phase e1 \<noteq> e_phase e \<longrightarrow> (\<exists>p ac. e_pending_chap e = Some p \<and>
      e_auth_challenge e = Some ac \<and> verify_success cr d1 (e_password e) p ac (e_username e) = Some True))"
    using assms(1) s by (cases rule: on_success_cases) simp_all
  moreover have "e1\<lparr>e_pending_chap := None\<rparr> = e1" if "e_pending_chap e1 = None"
    using that by simp
  ultimately show ?thesis
    using assms(2,3) by (simp add: handle_chap_def on_success_def Let_def)
qed

theorem success_is_checked_once_witness:
  "\<exists>e e1 evs1. e_phase e = PhaseChap \<and>
     on_packet toy_crypto \<lparr>rnd_u32 = \<lambda>n. 0, rnd_16 = []\<rparr> e (frame_pkt ProtoChap (chap_encode Success 1 [83])) =
       Some (e1, evs1) \<and>
     on_packet toy_crypto \<lparr>rnd_u32 = \<lambda>n. 0, rnd_16 = []\<rparr> e1 (frame_pkt ProtoChap (chap_encode Success 2 [])) =
       Some (e1, [Fatal SuccessWithoutPending])"
proof -
  let ?r = "\<lparr>rnd_u32 = \<lambda>n::nat. 0::u32, rnd_16 = [] :: bytes\<rparr>"
  let ?p = "frame_pkt ProtoChap (chap_encode Success 1 [83])"
  obtain e where e: "engine_ok e" "e_phase e = PhaseChap"
    by (rule toy_engine)
  have "runs (on_packet toy_crypto ?r e ?p)"
    using runs_handle_chap [OF toy_crypto_ok] by simp
  then obtain e1 evs1 where s: "on_packet toy_crypto ?r e ?p = Some (e1, evs1)"
    by (auto simp: runs_def)
  have l: "length [83 :: u8] \<le> 65531" "length ([] :: bytes) \<le> 65531" by simp_all
  from success_is_checked_once [OF toy_crypto_ok l s, of ?r 2] s e(2) show ?thesis by blast
qed

text \<open>The packets a step sends.\<close>

definition well_formed :: "bytes \<Rightarrow> bool" where
  \<comment> \<open>the wire image of a packet within the limits of its length fields\<close>
  "well_formed w \<longleftrightarrow> (\<exists>p. packet_ok p \<and> w = encode_packet p)"

lemma well_formed_data: "length p \<le> 65527 \<Longrightarrow> well_formed (wrap_data proto p)"
  unfolding well_formed_def wrap_data_def by (intro exI [of _ "Data (ppp_encode proto p)"]) simp

lemma well_formed_ctrl: "msg_ok m \<Longrightarrow> well_formed (encode_ctrl m [])"
  unfolding well_formed_def by (intro exI [of _ "Ctrl m []"]) simp

lemma sends_of_replies:
  "Send w \<in> set (concat (map (send_event tr proto) ds)) \<Longrightarrow> \<exists>d\<in>set ds. w = wrap_data proto d"
  by (auto simp: send_event_def split: option.splits)

lemma frame_payload_length: "ppp_decode frame = Some (Some (proto, p)) \<Longrightarrow> length p \<le> length frame"
  by (auto simp: ppp_decode_def Let_def bind_eq_Some_conv strip_address_control_def split: if_splits)

lemma lcp_reply_length:
  "lcp_inv l \<Longrightarrow> lcp_receive rnd l d = Some (l', r) \<Longrightarrow> w \<in> set (lr_to_send r) \<Longrightarrow>
   length w \<le> 800 + 2 * length d"
  using lcp_neg.sized [of l rnd d l' "lr_to_send r" "lr_up r" w] by (simp add: lcp_rcv_def)

lemma ipcp_reply_length:
  "ipcp_inv s \<Longrightarrow> ipcp_receive s d = Some (s', r) \<Longrightarrow> w \<in> set (ir_to_send r) \<Longrightarrow>
   length w \<le> 800 + 2 * length d"
  using ipcp_neg.sized [of s "()" d s' "ir_to_send r" "ir_up r" w] by (simp add: ipcp_rcv_def)

lemma handle_lcp_sends:
  assumes "engine_ok e" "handle_lcp rnd e p = Some (e', evs)" "length p \<le> 32000" "Send w \<in> set evs"
  shows "well_formed w"
proof -
  obtain l and r :: lcp_result where r: "lcp_receive (rnd_u32 rnd) (e_lcp e) p = Some (l, r)"
    and v: "\<exists>t. evs = Trace t # concat (map (send_event LcpSend ProtoLcp) (lr_to_send r)) \<or>
         evs = [Fatal OtherAuthMethodRequired] \<or> evs = [Fatal NoAuthRequested]"
    by (rule handle_lcp_cases [OF assms(2)]) (rule that; assumption)
  obtain d where d: "d \<in> set (lr_to_send r)" "w = wrap_data ProtoLcp d"
    using v assms(4) sends_of_replies [of w LcpSend ProtoLcp "lr_to_send r"] by auto
  have "length d \<le> 800 + 2 * length p"
    using assms(1) r d(1) by (intro lcp_reply_length) (auto simp: engine_ok_def)
  with assms(3) d(2) show ?thesis by (simp add: well_formed_data)
qed

lemma handle_ipcp_sends:
  assumes "crypto_ok cr" "engine_ok e" "handle_ipcp cr e p = Some (e', evs)" "length p \<le> 32000"
    "Send w \<in> set evs"
  shows "well_formed w"
  using assms(3)
proof (cases rule: handle_ipcp_cases)
  case (update s r ts)
  then obtain d where d: "d \<in> set (ir_to_send r)" "w = wrap_data ProtoIpcp d"
    using assms(5) sends_of_replies [of w IpcpSend ProtoIpcp "ir_to_send r"] by auto
  have "length d \<le> 800 + 2 * length p"
    using assms(2) update(1) d(1) by (intro ipcp_reply_length) (auto simp: engine_ok_def)
  with assms(4) d(2) show ?thesis by (simp add: well_formed_data)
next
  case (finish s r ts algo nonce keys pkt)
  have k: "length nonce = 32" "length (cert_hash_of e algo) = 32" "length (send_key keys) = 16"
    "length (recv_key keys) = 16"
    using assms(2) finish(5,6) by (cases algo; auto simp: engine_ok_def lens_def keys_ok_def cert_hash_of_def)+
  show ?thesis
  proof (cases "w = pkt")
    case True
    obtain a where "packet_ok (Ctrl Connected [a])" "pkt = encode_packet (Ctrl Connected [a])"
      by (rule connected_message_wire [OF assms(1) k finish(7)])
    with True show ?thesis unfolding well_formed_def by blast
  next
    case False
    then obtain d where d: "d \<in> set (ir_to_send r)" "w = wrap_data ProtoIpcp d"
      using assms(5) finish(9,10) sends_of_replies [of w IpcpSend ProtoIpcp "ir_to_send r"] by auto
    have "length d \<le> 800 + 2 * length p"
      using assms(2) finish(1) d(1) by (intro ipcp_reply_length) (auto simp: engine_ok_def)
    with assms(4) d(2) show ?thesis by (simp add: well_formed_data)
  qed
qed

lemma handle_chap_sends:
  assumes "crypto_ok cr" "engine_ok e" "handle_chap cr rnd e p = Some (e', evs)"
    "length (rnd_16 rnd) = 16" "length (utf8 (e_username e)) \<le> 65000" "Send w \<in> set evs"
  shows "well_formed w"
  using assms(3)
proof (cases rule: handle_chap_cases)
  case other
  with assms(6) show ?thesis by auto
next
  case (challenge f t)
  show ?thesis
    using assms(1) challenge(3)
  proof (cases rule: on_challenge_cases)
    case (fatal msg)
    with assms(6) show ?thesis by simp
  next
    case (respond info wire pending)
    have "length wire \<le> 65527"
      using assms(1)
      by (cases rule: build_response_cases [of cr info "rnd_16 rnd" "e_username e" "e_password e"])
        (use respond(3) assms(4,5) in auto)
    with respond(5) assms(6) show ?thesis by (auto simp: well_formed_data)
  qed
next
  case (success f t)
  show ?thesis
    using assms(1) success(3)
  proof (cases rule: on_success_cases)
    case (fatal msg)
    with assms(6) show ?thesis by simp
  next
    case (verified pending ac keys)
    have "ipcp_inv (e_ipcp e)" using assms(2) by (simp add: engine_ok_def)
    then have "length (snd (ipcp_start (e_ipcp e))) \<le> 769"
      using ipcp_send_config_request_length by (simp add: ipcp_start_def)
    with verified(7) assms(6) show ?thesis by (auto simp: well_formed_data)
  qed
qed

text \<open>
  C28. If the user name has at most 65000 UTF-8 bytes, every packet the engine sends in answer to a
  frame of up to 32000 bytes is well-formed: it is the wire image of one packet, its lengths fit
  their fields, and the server's decoder reads exactly that packet, whatever follows it in the
  stream. The code checks neither length: with a user name of more than about 65470 bytes the length
  fields around the CHAP Response would overflow.
\<close>

theorem sent_packets_are_wellformed:
  assumes "crypto_ok cr" "engine_ok e" "on_packet cr rnd e pkt = Some (e', evs)" "Send w \<in> set evs"
    "length (rnd_16 rnd) = 16" "length (utf8 (e_username e)) \<le> 65000"
    "case pkt of Data frame \<Rightarrow> length frame \<le> 32000 | Ctrl m attrs \<Rightarrow> True"
  shows "\<exists>p. packet_ok p \<and> w = encode_packet p \<and> packet_decode (w @ rest) = Some (Inr p)"
proof -
  have "well_formed w"
    using assms(3)
  proof (cases rule: on_packet_cases)
    case (ctrl m attrs)
    have "lcp_inv (e_lcp e)" using assms(2) by (simp add: engine_ok_def)
    then have "length (snd (lcp_start (e_lcp e))) \<le> 769"
      using lcp_send_config_request_length by (simp add: lcp_start_def)
    with ctrl(2) assms(4) show ?thesis
      by (cases m) (auto simp: on_ctrl_def on_connect_ack_eq well_formed_ctrl well_formed_data
          bind_eq_Some_conv split: if_splits option.splits)
  next
    case (lcp frame p)
    with assms(7) frame_payload_length [OF lcp(2)] show ?thesis
      by (intro handle_lcp_sends [OF assms(2) lcp(3) _ assms(4)]) simp
  next
    case (chap frame p)
    show ?thesis by (rule handle_chap_sends [OF assms(1,2) chap(3) assms(5,6,4)])
  next
    case (ipcp frame p)
    with assms(7) frame_payload_length [OF ipcp(2)] show ?thesis
      by (intro handle_ipcp_sends [OF assms(1,2) ipcp(3) _ assms(4)]) simp
  next
    case (reject frame proto p)
    have "length (strip_address_control frame) \<le> length frame"
      by (simp add: strip_address_control_def)
    with reject assms(4,7) show ?thesis
      by (auto simp: protocol_reject_def lcp_build_protocol_reject_def Let_def intro!: well_formed_data)
  qed (use assms(4) in auto)
  then show ?thesis unfolding well_formed_def using packet_decode_wire by blast
qed

theorem sent_packets_are_wellformed_witness:
  "\<exists>e e' evs p. on_packet toy_crypto \<lparr>rnd_u32 = \<lambda>n. 0, rnd_16 = replicate 16 1\<rparr> e (Ctrl msg_type.EchoRequest []) =
     Some (e', evs) \<and> evs = [Send (encode_packet p)] \<and> packet_ok p"
proof -
  let ?r = "\<lparr>rnd_u32 = \<lambda>n::nat. 0::u32, rnd_16 = replicate 16 (1::u8)\<rparr>"
  let ?w = "encode_ctrl msg_type.EchoReply []"
  obtain e where e: "engine_new toy_crypto 7 (lit ''bob'') (lit ''pw'') [1, 2, 3] = Some e"
    by (rule engine_new_toy)
  have u: "length (utf8 (e_username e)) \<le> 65000"
  proof -
    have "length (utf8 (lit ''bob'')) = 3" by code_simp
    then show ?thesis using engine_new_facts(1) [OF e] by simp
  qed
  have r: "on_packet toy_crypto ?r e (Ctrl msg_type.EchoRequest []) = Some (e, [Send ?w])"
    by (simp add: on_packet_def on_ctrl_def)
  have "Send ?w \<in> set [Send ?w]" "length (rnd_16 ?r) = 16" by simp_all
  from sent_packets_are_wellformed [OF toy_crypto_ok engine_new_ok [OF toy_crypto_ok e] r this u, of "[]"] r
  show ?thesis by auto
qed

text \<open>
  C29. A frame of PAP or of an unknown protocol, in any phase, is answered by a Protocol-Reject
  with the next identifier that carries the frame from its protocol number on, uncut. The
  answer can be read back exactly as long as that is at most 65523 bytes; a longer one, which
  an SSTP packet has room for, overflows the length field of the packet around the answer.
\<close>

theorem protocol_reject_fits:
  assumes "ppp_decode frame = Some (Some (proto, p))" "length frame \<le> 65531"
    "proto \<notin> {ProtoLcp, ProtoChap, ProtoIpcp, ProtoIp}"
  shows "\<exists>e' w i. on_packet cr rnd e (Data frame) = Some (e', [Send w]) \<and>
    i = lcp_identifier (e_lcp e) + 1 \<and> e' = e\<lparr>e_lcp := (e_lcp e)\<lparr>lcp_identifier := i\<rparr>\<rparr> \<and>
    w = wrap_data ProtoLcp (cp_encode ProtocolReject i (strip_address_control frame)) \<and>
    (packet_decode w = Some (Inr (Data (ppp_encode ProtoLcp
        (cp_encode ProtocolReject i (strip_address_control frame))))) \<longleftrightarrow>
     length (strip_address_control frame) \<le> 65523)"
proof -
  let ?i = "lcp_identifier (e_lcp e) + 1"
  let ?f = "strip_address_control frame"
  let ?d = "ppp_encode ProtoLcp (cp_encode ProtocolReject ?i ?f)"
  have l: "length ?f \<le> 65531" using assms(2) by (auto simp: strip_address_control_def)
  have "on_packet cr rnd e (Data frame) = Some (protocol_reject e frame)"
    using assms(1,3) by (cases proto) (auto simp: on_packet_def on_ppp_frame_def)
  moreover have "protocol_reject e frame = (e\<lparr>e_lcp := (e_lcp e)\<lparr>lcp_identifier := ?i\<rparr>\<rparr>,
      [Send (wrap_data ProtoLcp (cp_encode ProtocolReject ?i ?f))])"
    by (simp add: protocol_reject_def lcp_build_protocol_reject_def Let_def)
  moreover have "packet_decode (encode_data ?d) = Some (Inr (Data ?d)) \<longleftrightarrow> length ?f \<le> 65523"
  proof
    show "packet_decode (encode_data ?d) = Some (Inr (Data ?d))" if "length ?f \<le> 65523"
      using that packet_decode_data [of ?d "[]"] by simp
    show "length ?f \<le> 65523" if a: "packet_decode (encode_data ?d) = Some (Inr (Data ?d))"
    proof (rule ccontr)
      assume "\<not> length ?f \<le> 65523"
      moreover have "length ?d \<le> 65531"
        using packet_decode_ok [OF a] by simp
      ultimately show False by simp
    qed
  qed
  ultimately show ?thesis by (auto simp: wrap_data_def)
qed

theorem protocol_reject_fits_witness:
  "\<exists>e e' w i. on_packet toy_crypto \<lparr>rnd_u32 = \<lambda>n. 0, rnd_16 = []\<rparr> e (Data (u16_to_be 0x80FD @ replicate 65529 0)) =
     Some (e', [Send w]) \<and>
     packet_decode w \<noteq> Some (Inr (Data (ppp_encode ProtoLcp
        (cp_encode ProtocolReject i (u16_to_be 0x80FD @ replicate 65529 0)))))"
proof -
  let ?r = "\<lparr>rnd_u32 = \<lambda>n::nat. 0::u32, rnd_16 = [] :: bytes\<rparr>"
  let ?p = "UnknownProto 0x80FD"
  let ?f = "u16_to_be 0x80FD @ replicate 65529 (0 :: u8)"
  obtain e where e: "engine_new toy_crypto 7 (lit ''bob'') (lit ''pw'') [1, 2, 3] = Some e"
    by (rule engine_new_toy)
  have d: "ppp_decode ?f = Some (Some (?p, replicate 65529 0))"
    using ppp_decode_bare [of ?p "replicate 65529 0"] by simp
  have l: "length ?f \<le> 65531" by (simp only: length_append length_replicate length_u16_to_be)
  have n: "?p \<notin> {ProtoLcp, ProtoChap, ProtoIpcp, ProtoIp}" by simp
  have s: "strip_address_control ?f = ?f"
    by (simp add: strip_address_control_def ADDRESS_CONTROL_def u16_to_be_def)
  have "\<not> length ?f \<le> 65523" by (simp only: length_append length_replicate length_u16_to_be)
  with protocol_reject_fits [OF d l n, of toy_crypto ?r e] show ?thesis unfolding s by blast
qed

text \<open>
  The control messages, in every phase: a Disconnect is acknowledged and ends the session,
  as does its acknowledgement; an echo request is answered by an echo reply; an abort and a
  CONNECT_NAK are fatal with the status the message carries; all others are ignored. None of
  them changes the engine.
\<close>

theorem control_messages_answered:
  assumes "m \<noteq> ConnectAck"
  shows "\<exists>evs. on_packet cr rnd e (Ctrl m attrs) = Some (e, evs) \<and>
    (m = Disconnect \<longrightarrow> (\<exists>w. evs = [Send w, Disconnected] \<and> packet_decode w = Some (Inr (Ctrl DisconnectAck [])))) \<and>
    (m = DisconnectAck \<longrightarrow> evs = [Disconnected]) \<and>
    (m = msg_type.EchoRequest \<longrightarrow> (\<exists>w. evs = [Send w] \<and> packet_decode w = Some (Inr (Ctrl msg_type.EchoReply [])))) \<and>
    (m \<in> {ConnectNak, Abort} \<longrightarrow> (\<exists>msg s. evs = [Fatal msg] \<and> describe_status attrs = Some s \<and>
       msg = (if m = Abort then ServerAborted else ServerSentConnectNak)
         (case s of Some r \<Rightarrow> r | None \<Rightarrow> lit ''no status info given''))) \<and>
    (m \<notin> {Disconnect, DisconnectAck, msg_type.EchoRequest, ConnectNak, Abort} \<longrightarrow> evs = [])"
proof -
  obtain s where s: "describe_status attrs = Some s"
    using runs_describe_status [of attrs] by (auto simp: runs_def)
  have w: "packet_decode (encode_ctrl m' []) = Some (Inr (Ctrl m' []))" if "msg_ok m'" for m'
    using packet_decode_ctrl [of m' "[]" "[]"] that by simp
  show ?thesis
    using assms by (cases m) (simp_all add: on_packet_def on_ctrl_def s w)
qed

theorem control_messages_answered_witness:
  "\<exists>e e' w. on_packet toy_crypto \<lparr>rnd_u32 = \<lambda>n. 0, rnd_16 = []\<rparr> e (Ctrl Disconnect []) =
     Some (e, [Send w, Disconnected]) \<and> packet_decode w = Some (Inr (Ctrl DisconnectAck []))"
proof -
  obtain e where "engine_new toy_crypto 7 (lit ''bob'') (lit ''pw'') [1, 2, 3] = Some e"
    by (rule engine_new_toy)
  then show ?thesis
    using control_messages_answered [of Disconnect toy_crypto "\<lparr>rnd_u32 = \<lambda>n. 0, rnd_16 = []\<rparr>" e "[]"]
    by auto
qed

end
