(* ===== verification/Rust_Text.thy ===== *)
theory Rust_Text
  imports Rust_Str
begin

text \<open>
  The string methods of the standard library behind the text formats of the program: the HTTP
  status line, the output of \<open>route\<close>, the quoting of commands, the log.
\<close>

section \<open>Methods\<close>

definition starts_with :: "rstr \<Rightarrow> rstr \<Rightarrow> bool" where
  \<comment> \<open>\<open>s.starts_with(p)\<close>\<close>
  "starts_with p s \<longleftrightarrow> take (length p) s = p"

definition strip_prefix :: "rstr \<Rightarrow> rstr \<Rightarrow> rstr option" where
  "strip_prefix p s = (if starts_with p s then Some (drop (length p) s) else None)"

definition trim_end :: "rstr \<Rightarrow> rstr" where
  "trim_end s = rev (dropWhile is_whitespace (rev s))"

definition trim :: "rstr \<Rightarrow> rstr" where
  "trim s = trim_end (dropWhile is_whitespace s)"

definition replace_char :: "nat \<Rightarrow> rstr \<Rightarrow> rstr \<Rightarrow> rstr" where
  \<comment> \<open>\<open>s.replace(c, r)\<close> for a \<open>char\<close>\<close>
  "replace_char c r s = concat (map (\<lambda>x. if x = c then r else [x]) s)"

fun split_once :: "nat \<Rightarrow> rstr \<Rightarrow> (rstr \<times> rstr) option" where
  "split_once c [] = None"
| "split_once c (x # s) =
     (if x = c then Some ([], s) else map_option (\<lambda>(a, b). (x # a, b)) (split_once c s))"

definition rsplit_once :: "nat \<Rightarrow> rstr \<Rightarrow> (rstr \<times> rstr) option" where
  "rsplit_once c s = map_option (\<lambda>(a, b). (rev b, rev a)) (split_once c (rev s))"

fun splitn :: "nat \<Rightarrow> nat \<Rightarrow> rstr \<Rightarrow> rstr list" where
  \<comment> \<open>\<open>s.splitn(n, c)\<close>\<close>
  "splitn 0 c s = []"
| "splitn (Suc 0) c s = [s]"
| "splitn (Suc (Suc n)) c s =
     (case split_once c s of None \<Rightarrow> [s] | Some (a, b) \<Rightarrow> a # splitn (Suc n) c b)"

fun raw_lines :: "rstr \<Rightarrow> rstr list" where
  \<comment> \<open>\<open>split_inclusive\<close> at line feeds\<close>
  "raw_lines [] = []"
| "raw_lines (c # s) =
     (if c = 10 then [10] # raw_lines s
      else case raw_lines s of [] \<Rightarrow> [[c]] | l # ls \<Rightarrow> (c # l) # ls)"

definition strip_eol :: "rstr \<Rightarrow> rstr" where
  "strip_eol l =
     (if l \<noteq> [] \<and> last l = 10
      then let l' = butlast l in if l' \<noteq> [] \<and> last l' = 13 then butlast l' else l'
      else l)"

definition str_lines :: "rstr \<Rightarrow> rstr list" where
  \<comment> \<open>\<open>s.lines()\<close>\<close>
  "str_lines s = map strip_eol (raw_lines s)"

fun digits_value :: "nat \<Rightarrow> nat \<Rightarrow> rstr \<Rightarrow> nat option" where
  \<comment> \<open>decimal digits, up to the largest value of the type\<close>
  "digits_value m acc [] = Some acc"
| "digits_value m acc (c # s) =
     (if 48 \<le> c \<and> c \<le> 57 \<and> acc * 10 + (c - 48) \<le> m then digits_value m (acc * 10 + (c - 48)) s
      else None)"

definition parse_u16 :: "rstr \<Rightarrow> u16 option" where
  \<comment> \<open>\<open>s.parse::<u16>().ok()\<close>: a sign \<open>+\<close> is allowed before the digits\<close>
  "parse_u16 s =
     (let digits = (case s of [] \<Rightarrow> [] | c # r \<Rightarrow> if c = 43 then r else s)
      in if digits = [] then None else map_option of_nat (digits_value 65535 0 digits))"

section \<open>Facts\<close>

lemma starts_with_append [simp]: "starts_with p (p @ s)"
  by (simp add: starts_with_def)

lemma strip_prefix_append [simp]: "strip_prefix p (p @ s) = Some s"
  by (simp add: strip_prefix_def)

lemma strip_prefix_eq_Some: "strip_prefix p s = Some t \<longleftrightarrow> s = p @ t"
  by (auto simp: strip_prefix_def starts_with_def) (metis append_take_drop_id)

lemma split_once_append [simp]: "c \<notin> set a \<Longrightarrow> split_once c (a @ c # b) = Some (a, b)"
  by (induction a) auto

lemma split_once_none [simp]: "c \<notin> set s \<Longrightarrow> split_once c s = None"
  by (induction s) auto

lemma rsplit_once_append [simp]: "c \<notin> set b \<Longrightarrow> rsplit_once c (a @ c # b) = Some (a, b)"
  by (simp add: rsplit_once_def)

lemma rsplit_once_none [simp]: "c \<notin> set s \<Longrightarrow> rsplit_once c s = None"
  by (simp add: rsplit_once_def)

lemma trim_id: "s = [] \<or> \<not> is_whitespace (hd s) \<and> \<not> is_whitespace (last s) \<Longrightarrow> trim s = s"
proof -
  assume a: "s = [] \<or> \<not> is_whitespace (hd s) \<and> \<not> is_whitespace (last s)"
  then have "dropWhile is_whitespace s = s" by (cases s) auto
  moreover have "dropWhile is_whitespace (rev s) = rev s"
    using a by (cases s rule: rev_cases) auto
  ultimately show ?thesis by (simp add: trim_def trim_end_def)
qed

lemma raw_lines_line:
  "10 \<notin> set l \<Longrightarrow> raw_lines (l @ 10 # s) = (l @ [10]) # raw_lines s"
  by (induction l) auto

lemma raw_lines_last: "10 \<notin> set l \<Longrightarrow> l \<noteq> [] \<Longrightarrow> raw_lines l = [l]"
proof (induction l)
  case (Cons c l)
  then show ?case by (cases l) auto
qed simp

lemma strip_eol_crlf [simp]: "strip_eol (l @ [13, 10]) = l"
  by (simp add: strip_eol_def Let_def butlast_append)

lemma str_lines_crlf: "10 \<notin> set l \<Longrightarrow> str_lines (l @ 13 # 10 # s) = l # str_lines s"
  using raw_lines_line [of "l @ [13]" s] by (simp add: str_lines_def)

lemma str_lines_last: "10 \<notin> set l \<Longrightarrow> l \<noteq> [] \<Longrightarrow> str_lines l = [l]"
proof -
  assume l: "10 \<notin> set l" "l \<noteq> []"
  then have "last l \<noteq> 10" using last_in_set by metis
  with l show ?thesis by (simp add: str_lines_def raw_lines_last strip_eol_def)
qed

lemma str_lines_Nil [simp]: "str_lines [] = []"
  by (simp add: str_lines_def)

lemma digits_value_append:
  "digits_value m acc (s @ t) = Option.bind (digits_value m acc s) (\<lambda>v. digits_value m v t)"
  by (induction s arbitrary: acc) auto

lemma show_dec_nonempty [simp]: "show_dec n \<noteq> []"
  by (subst show_dec.simps) simp

lemma show_dec_digits: "c \<in> set (show_dec n) \<Longrightarrow> 48 \<le> c \<and> c \<le> 57"
  by (induction n rule: show_dec.induct) (subst (asm) (2) show_dec.simps, auto split: if_splits)

lemma digits_value_show_dec: "n \<le> m \<Longrightarrow> digits_value m 0 (show_dec n) = Some n"
proof (induction n rule: show_dec.induct)
  case (1 n)
  show ?case
  proof (cases "n < 10")
    case True
    with 1 show ?thesis by (subst show_dec.simps) simp
  next
    case False
    have "n div 10 \<le> m" using 1(2) by linarith
    moreover have "n div 10 * 10 + n mod 10 = n" by simp
    ultimately show ?thesis
      using 1 False by (subst show_dec.simps) (simp add: digits_value_append)
  qed
qed

lemma parse_u16_show_dec: "n < 65536 \<Longrightarrow> parse_u16 (show_dec n) = Some (of_nat n)"
proof -
  assume n: "n < 65536"
  obtain c r where c: "show_dec n = c # r" by (cases "show_dec n") simp_all
  then have "c \<noteq> 43" using show_dec_digits [of c n] by auto
  with n c digits_value_show_dec [of n 65535] show ?thesis by (simp add: parse_u16_def)
qed

end
