(* ===== verification/Http.thy ===== *)
theory Http
  imports Rust_Text "HOL-Library.Sublist"
begin

text \<open>
  The HTTP handshake before the binary framing (\<open>sstp-proto/src/http.rs\<close>): the request and
  the parser of the response. The texts of \<open>format!\<close> are written with the constants
  \<open>CR\<close> and \<open>LF\<close>.
\<close>

definition CRLF :: "nat list" where "CRLF = [13, 10]"

definition SSTP_PATH :: rstr where
  "SSTP_PATH = lit ''/sra_{BA195980-CD49-458b-9E23-C84EE0ADCD75}/''"

definition INFINITE_CONTENT_LENGTH :: nat where
  "INFINITE_CONTENT_LENGTH = 2 ^ 64 - 1"

definition build_request :: "rstr \<Rightarrow> rstr \<Rightarrow> bytes" where
  "build_request host correlation_uuid =
     utf8 (lit ''SSTP_DUPLEX_POST '' @ SSTP_PATH @ lit '' HTTP/1.1'' @ CRLF @
           lit ''Host: '' @ host @ CRLF @
           lit ''Content-Length: '' @ show_dec INFINITE_CONTENT_LENGTH @ CRLF @
           lit ''SSTPCORRELATIONID: {'' @ correlation_uuid @ lit ''}'' @ CRLF @
           CRLF)"

datatype parse_error = HeadersIncomplete | BadStatusLine rstr | NonSuccessStatus u16

definition DOUBLE_CRLF :: bytes where "DOUBLE_CRLF = [13, 10, 13, 10]"

definition double_crlf_at :: "bytes \<Rightarrow> bool" where
  \<comment> \<open>the window at the front\<close>
  "double_crlf_at bs \<longleftrightarrow> take 4 bs = DOUBLE_CRLF"

fun find_double_crlf :: "bytes \<Rightarrow> nat option" where
  \<comment> \<open>the position of the first window of four bytes that is \<open>DOUBLE_CRLF\<close>\<close>
  "find_double_crlf [] = None"
| "find_double_crlf (b # bs) =
     (if double_crlf_at (b # bs) then Some 0 else map_option Suc (find_double_crlf bs))"

definition parse_response :: "bytes \<Rightarrow> (parse_error + u16 \<times> nat) option" where
  "parse_response buf =
     (case find_double_crlf buf of
        None \<Rightarrow> Some (Inl HeadersIncomplete)
      | Some header_end \<Rightarrow> do {
          header \<leftarrow> subslice buf 0 header_end;
          let header_text = from_utf8_lossy header;
          let status_line = (case str_lines header_text of [] \<Rightarrow> [] | l # _ \<Rightarrow> l);
          let parts = splitn 3 32 status_line;
          let version_ok = (case parts of [] \<Rightarrow> False | v # _ \<Rightarrow> starts_with (lit ''HTTP/'') v);
          let parsed = (case parts of _ # s # _ \<Rightarrow> parse_u16 s | _ \<Rightarrow> None);
          Some (case (if version_ok then parsed else None) of
            None \<Rightarrow> Inl (BadStatusLine status_line)
          | Some code \<Rightarrow>
              if code \<noteq> 200 then Inl (NonSuccessStatus code) else Inr (code, header_end + 4))
        })"

section \<open>Facts\<close>

lemma double_crlf_at_iff: "double_crlf_at bs \<longleftrightarrow> (\<exists>rest. bs = DOUBLE_CRLF @ rest)"
proof
  assume "double_crlf_at bs"
  then have "bs = DOUBLE_CRLF @ drop 4 bs" by (metis double_crlf_at_def append_take_drop_id)
  then show "\<exists>rest. bs = DOUBLE_CRLF @ rest" ..
qed (auto simp: double_crlf_at_def DOUBLE_CRLF_def)

lemma double_crlf_at_length: "double_crlf_at bs \<Longrightarrow> 4 \<le> length bs"
  by (auto simp: double_crlf_at_iff DOUBLE_CRLF_def)

lemma double_crlf_at_append [simp]: "4 \<le> length bs \<Longrightarrow> double_crlf_at (bs @ x) = double_crlf_at bs"
  by (simp add: double_crlf_at_def)

lemma double_crlf_at_Cons: "double_crlf_at (b # bs) \<Longrightarrow> b = 13"
  by (auto simp: double_crlf_at_iff DOUBLE_CRLF_def)

lemma find_double_crlf_Some:
  "find_double_crlf buf = Some n \<Longrightarrow> n + 4 \<le> length buf \<and> double_crlf_at (drop n buf)"
proof (induction buf arbitrary: n)
  case (Cons b bs)
  then show ?case using double_crlf_at_length [of "b # bs"] by (auto split: if_splits)
qed simp

lemma find_double_crlf_append:
  "find_double_crlf buf = Some n \<Longrightarrow> find_double_crlf (buf @ x) = Some n"
proof (induction buf arbitrary: n)
  case (Cons b bs)
  have "4 \<le> length (b # bs)" using find_double_crlf_Some [OF Cons.prems] by simp
  then have "double_crlf_at (b # bs @ x) = double_crlf_at (b # bs)"
    using double_crlf_at_append [of "b # bs" x] by simp
  with Cons show ?case by (auto split: if_splits)
qed simp

lemma find_double_crlf_None: "find_double_crlf buf = None \<longleftrightarrow> \<not> sublist DOUBLE_CRLF buf"
proof (induction buf)
  case Nil
  show ?case by (simp add: DOUBLE_CRLF_def)
next
  case (Cons b bs)
  then show ?case by (auto simp: sublist_Cons_right double_crlf_at_iff prefix_def)
qed

lemma runs_parse_response [runs_intro]: "runs (parse_response buf)"
  using find_double_crlf_Some [of buf] by (auto simp: parse_response_def runs_def Let_def split: option.splits)

lemma parse_response_append:
  assumes "parse_response buf = Some r" "r \<noteq> Inl HeadersIncomplete"
  shows "parse_response (buf @ x) = Some r"
proof -
  obtain n where n: "find_double_crlf buf = Some n"
    using assms by (auto simp: parse_response_def split: option.splits)
  then have "n \<le> length buf" using find_double_crlf_Some by fastforce
  then have "subslice (buf @ x) 0 n = subslice buf 0 n" by simp
  with assms(1) n find_double_crlf_append [OF n, of x] show ?thesis
    by (simp only: parse_response_def option.case)
qed

lemma parse_response_incomplete:
  "parse_response buf = Some (Inl HeadersIncomplete) \<longleftrightarrow> \<not> sublist DOUBLE_CRLF buf"
  using find_double_crlf_Some [of buf]
  by (auto simp: parse_response_def Let_def find_double_crlf_None [symmetric] split: option.splits if_splits)

text \<open>Where the header ends in what a server sends.\<close>

lemma find_double_crlf_skip:
  "13 \<notin> set l \<Longrightarrow> find_double_crlf (l @ x) = map_option (\<lambda>n. length l + n) (find_double_crlf x)"
proof (induction l)
  case Nil
  show ?case by (cases "find_double_crlf x") simp_all
next
  case (Cons b l)
  then have "\<not> double_crlf_at (b # l @ x)" using double_crlf_at_Cons [of b "l @ x"] by auto
  with Cons show ?case by (cases "find_double_crlf x") simp_all
qed

lemma find_double_crlf_line:
  assumes "13 \<notin> set l" "x \<noteq> []" "hd x \<noteq> 13"
  shows "find_double_crlf (l @ 13 # 10 # x) = map_option (\<lambda>n. length l + 2 + n) (find_double_crlf x)"
proof -
  have "\<not> double_crlf_at (13 # 10 # x)" "\<not> double_crlf_at (10 # x)"
    using assms(2,3) by (cases x; auto simp: double_crlf_at_iff DOUBLE_CRLF_def)+
  then have "find_double_crlf (13 # 10 # x) = map_option (\<lambda>n. 2 + n) (find_double_crlf x)"
    by (cases "find_double_crlf x") simp_all
  then show ?thesis
    using assms(1) by (cases "find_double_crlf x") (simp_all add: find_double_crlf_skip)
qed

lemma find_double_crlf_end: "find_double_crlf (13 # 10 # 13 # 10 # x) = Some 0"
  by (auto simp: double_crlf_at_iff DOUBLE_CRLF_def)

definition header_lines :: "bytes list \<Rightarrow> bytes" where
  "header_lines hs = concat (map (\<lambda>h. h @ [13, 10]) hs)"

lemma find_double_crlf_header:
  assumes "\<forall>h\<in>set (l # hs). h \<noteq> [] \<and> 13 \<notin> set h"
  shows "find_double_crlf (header_lines (l # hs) @ [13, 10] @ body) =
    Some (length (header_lines (l # hs)) - 2)"
  using assms
proof (induction hs arbitrary: l)
  case Nil
  then show ?case
    using find_double_crlf_skip [of l "13 # 10 # 13 # 10 # body"] find_double_crlf_end [of body]
    by (simp add: header_lines_def del: find_double_crlf.simps)
next
  case (Cons h hs)
  let ?x = "header_lines (h # hs) @ [13, 10] @ body"
  have x: "?x \<noteq> []" "hd ?x \<noteq> 13"
    using Cons.prems by (cases h; auto simp: header_lines_def)+
  have "header_lines (l # h # hs) @ [13, 10] @ body = l @ 13 # 10 # ?x"
    by (simp add: header_lines_def)
  moreover have "2 \<le> length (header_lines (h # hs))" by (simp add: header_lines_def)
  ultimately show ?case
    using find_double_crlf_line [OF _ x, of l] Cons.IH [of h] Cons.prems
    by (simp add: header_lines_def del: find_double_crlf.simps)
qed

lemma from_utf8_lossy_append:
  "\<forall>c\<in>set s. rchar c \<Longrightarrow> from_utf8_lossy (utf8 s @ bs) = s @ from_utf8_lossy bs"
proof (induction s)
  case (Cons c s)
  have "map unat (map of_nat (utf8_char c) :: bytes) = utf8_char c"
    using Cons.prems by (auto intro!: map_idI unat_of_nat_u8 utf8_char_byte)
  with Cons show ?case
    by (simp add: from_utf8_lossy_def utf8_Cons lossy_utf8_char del: lossy.simps map_map)
qed simp

lemma from_utf8_lossy_crlf: "from_utf8_lossy (13 # 10 # bs) = 13 # 10 # from_utf8_lossy bs"
  by (simp add: from_utf8_lossy_def)

lemma utf8_avoids: "\<forall>c\<in>set s. rchar c \<Longrightarrow> n < 128 \<Longrightarrow> n \<notin> set s \<Longrightarrow> of_nat n \<notin> set (utf8 s)"
proof (induction s)
  case (Cons c s)
  have "of_nat b \<noteq> (of_nat n :: u8)" if "b \<in> set (utf8_char c)" for b
  proof -
    have "b < 256" using Cons.prems(1) that utf8_char_byte by auto
    moreover have "b \<noteq> n"
      using that Cons.prems(2,3) by (auto simp: utf8_char_def split: if_splits)
    moreover have "n < 256" using Cons.prems(2) by simp
    ultimately show ?thesis
      using unat_of_nat_u8 [of b] unat_of_nat_u8 [of n] by metis
  qed
  then have "(of_nat n :: u8) \<notin> of_nat ` set (utf8_char c)" by (metis imageE)
  with Cons show ?case by (simp add: utf8_Cons)
qed simp

lemma first_line:
  assumes "\<forall>c\<in>set line. rchar c" "10 \<notin> set line" "line \<noteq> []" "rest = [] \<or> take 2 rest = [13, 10]"
  shows "\<exists>ls. str_lines (from_utf8_lossy (utf8 line @ rest)) = line # ls"
proof (cases "rest = []")
  case True
  with assms show ?thesis by (simp add: str_lines_last)
next
  case False
  then obtain r where "rest = 13 # 10 # r"
    using assms(4) by (metis append_Cons append_Nil append_take_drop_id)
  with assms show ?thesis
    by (simp add: from_utf8_lossy_append from_utf8_lossy_crlf str_lines_crlf)
qed

section \<open>Properties\<close>

lemma header_found:
  assumes "list_all rchar line" "10 \<notin> set line" "13 \<notin> set line" "line \<noteq> []"
    "list_all (\<lambda>h. h \<noteq> [] \<and> 13 \<notin> set h) hs"
  defines "h \<equiv> header_lines (utf8 line # hs)"
  obtains ls where "find_double_crlf (h @ [13, 10] @ body) = Some (length h - 2)"
    "str_lines (from_utf8_lossy (take (length h - 2) (h @ [13, 10] @ body))) = line # ls"
    "drop (length h - 2 + 4) (h @ [13, 10] @ body) = body"
proof -
  let ?buf = "h @ [13, 10] @ body"
  let ?n = "length h - 2"
  have rc: "\<forall>c\<in>set line. rchar c" using assms(1) by (simp add: list_all_iff)
  have "(13 :: u8) \<notin> set (utf8 line)" using utf8_avoids [OF rc _ assms(3)] by simp
  moreover have "utf8_char x \<noteq> []" for x by (simp add: utf8_char_def)
  then have "utf8 line \<noteq> []" using assms(4) by (cases line) (simp_all add: utf8_Cons)
  ultimately have f: "find_double_crlf ?buf = Some ?n"
    using assms(5) unfolding h_def by (intro find_double_crlf_header) (auto simp: list_all_iff)
  define rest where "rest = take (?n - length (utf8 line)) (13 # 10 # header_lines hs)"
  have t: "take ?n ?buf = utf8 line @ rest"
    by (simp add: h_def header_lines_def rest_def take_Cons')
  have r: "rest = [] \<or> take 2 rest = [13, 10]"
  proof (cases hs)
    case Nil
    then show ?thesis by (simp add: rest_def h_def header_lines_def)
  next
    case (Cons a as)
    then have "2 \<le> ?n - length (utf8 line)" by (simp add: h_def header_lines_def)
    then have "take 2 rest = take 2 (13 # 10 # header_lines hs)" by (simp add: rest_def min_absorb1)
    then show ?thesis by simp
  qed
  obtain ls where ls: "str_lines (from_utf8_lossy (take ?n ?buf)) = line # ls"
    using first_line [OF rc assms(2) _ r] t assms(4) by auto
  have "?n + 4 = length (h @ [13, 10])" by (simp add: h_def header_lines_def)
  moreover have "drop (length xs) (xs @ body) = body" for xs :: bytes by simp
  ultimately have "drop (?n + 4) ((h @ [13, 10]) @ body) = body" by (simp only:)
  with f ls show thesis by (intro that) simp_all
qed

lemma status_line_parts:
  assumes "tail = [] \<or> hd tail = 32" "32 \<notin> set v"
  shows "\<exists>xs. splitn 3 32 (lit ''HTTP/'' @ v @ 32 # show_dec c @ tail) = (lit ''HTTP/'' @ v) # show_dec c # xs"
proof -
  have sp: "32 \<notin> set (lit ''HTTP/'' @ v)" "32 \<notin> set (show_dec c)"
    using assms(2) show_dec_digits [of 32 c] by (auto simp: lit_def)
  have s1: "split_once 32 (lit ''HTTP/'' @ v @ 32 # show_dec c @ tail) = Some (lit ''HTTP/'' @ v, show_dec c @ tail)"
    using split_once_append [OF sp(1), of "show_dec c @ tail"] by simp
  show ?thesis
  proof (cases tail)
    case Nil
    with s1 sp(2) show ?thesis by (simp add: numeral_3_eq_3)
  next
    case (Cons a as)
    then have "split_once 32 (show_dec c @ tail) = Some (show_dec c, as)"
      using assms(1) sp(2) by simp
    with s1 show ?thesis by (simp add: numeral_3_eq_3)
  qed
qed

text \<open>
  A response is judged by its status line alone: with any HTTP version, reason phrase,
  header lines and body, the status code decides, 200 is accepted, every other code is
  reported as such, and the returned offset is where the body begins.
\<close>

theorem response_status_decides:
  assumes "line = lit ''HTTP/'' @ v @ 32 # show_dec c @ tail" "c < 65536" "tail = [] \<or> hd tail = 32"
    "list_all rchar line" "10 \<notin> set line" "13 \<notin> set line" "32 \<notin> set v"
    "list_all (\<lambda>h. h \<noteq> [] \<and> 13 \<notin> set h) hs"
  shows "\<exists>off. parse_response (header_lines (utf8 line # hs) @ [13, 10] @ body) =
      Some (if c = 200 then Inr (200, off) else Inl (NonSuccessStatus (of_nat c))) \<and>
    drop off (header_lines (utf8 line # hs) @ [13, 10] @ body) = body"
proof -
  let ?h = "header_lines (utf8 line # hs)"
  let ?buf = "?h @ [13, 10] @ body"
  have "line \<noteq> []" by (simp add: assms(1))
  then obtain ls where h: "find_double_crlf ?buf = Some (length ?h - 2)"
    "str_lines (from_utf8_lossy (take (length ?h - 2) ?buf)) = line # ls" "drop (length ?h - 2 + 4) ?buf = body"
    using header_found [OF assms(4-6) _ assms(8)] by metis
  have parts: "\<exists>xs. splitn 3 32 line = (lit ''HTTP/'' @ v) # show_dec c # xs"
    unfolding assms(1) by (rule status_line_parts [OF assms(3,7)])
  have p: "parse_u16 (show_dec c) = Some (of_nat c)" using assms(2) by (rule parse_u16_show_dec)
  have c: "(of_nat c :: u16) = 200 \<longleftrightarrow> c = 200"
  proof
    assume "(of_nat c :: u16) = 200"
    then have "unat (of_nat c :: u16) = 200" by simp
    then show "c = 200" using assms(2) by (simp add: unat_of_nat)
  qed simp
  have "subslice ?buf 0 (length ?h - 2) = Some (take (length ?h - 2) ?buf)" by simp
  then show ?thesis
    using h parts p c by (intro exI [of _ "length ?h - 2 + 4"]) (auto simp: parse_response_def Let_def)
qed

theorem response_status_decides_witness:
  "\<exists>off. parse_response (header_lines [utf8 (lit ''HTTP/1.1 200 OK''), [88, 58]] @ [13, 10] @ [16, 1]) =
     Some (Inr (200, off)) \<and>
   drop off (header_lines [utf8 (lit ''HTTP/1.1 200 OK''), [88, 58]] @ [13, 10] @ [16, 1]) = [16, 1]"
proof -
  have 1: "lit ''HTTP/1.1 200 OK'' = lit ''HTTP/'' @ lit ''1.1'' @ 32 # show_dec 200 @ lit '' OK''"
    by code_simp
  have 2: "hd (lit '' OK'') = 32" "list_all rchar (lit ''HTTP/1.1 200 OK'')" "10 \<notin> set (lit ''HTTP/1.1 200 OK'')"
    "13 \<notin> set (lit ''HTTP/1.1 200 OK'')" "32 \<notin> set (lit ''1.1'')"
    by (simp_all add: lit_def rchar_def)
  show ?thesis
    using response_status_decides [OF 1 _ disjI2 [OF 2(1)] 2(2-5), of "[[88, 58]]" "[16, 1]"] by simp
qed

text \<open>
  The request is exactly four header lines and a blank line, whatever the server name and
  the correlation id are, as long as they contain no line break, and the end of its header is
  the end of the request.
\<close>

theorem request_has_four_lines:
  assumes "list_all rchar host" "list_all rchar uuid" "10 \<notin> set host" "10 \<notin> set uuid"
    "13 \<notin> set host" "13 \<notin> set uuid"
  shows "str_lines (from_utf8_lossy (build_request host uuid)) =
      [lit ''SSTP_DUPLEX_POST /sra_{BA195980-CD49-458b-9E23-C84EE0ADCD75}/ HTTP/1.1'',
       lit ''Host: '' @ host, lit ''Content-Length: 18446744073709551615'',
       lit ''SSTPCORRELATIONID: {'' @ uuid @ lit ''}'', []] \<and>
    find_double_crlf (build_request host uuid) = Some (length (build_request host uuid) - 4)"
proof -
  let ?l1 = "lit ''SSTP_DUPLEX_POST /sra_{BA195980-CD49-458b-9E23-C84EE0ADCD75}/ HTTP/1.1''"
  let ?l2 = "lit ''Host: '' @ host"
  let ?l3 = "lit ''Content-Length: 18446744073709551615''"
  let ?l4 = "lit ''SSTPCORRELATIONID: {'' @ uuid @ lit ''}''"
  let ?t = "?l1 @ 13 # 10 # ?l2 @ 13 # 10 # ?l3 @ 13 # 10 # ?l4 @ 13 # 10 # [13, 10]"
  have 1: "lit ''SSTP_DUPLEX_POST '' @ SSTP_PATH @ lit '' HTTP/1.1'' = ?l1"
    by (simp add: SSTP_PATH_def lit_def)
  have 3: "lit ''Content-Length: '' @ show_dec INFINITE_CONTENT_LENGTH = ?l3"
    by (simp add: INFINITE_CONTENT_LENGTH_def lit_def show_dec.simps)
  have t: "build_request host uuid = utf8 ?t"
    unfolding build_request_def CRLF_def using 1 3
    by (metis append.assoc append_Cons append_Nil)
  have ok: "\<forall>c\<in>set ?l1. rchar c" "\<forall>c\<in>set ?l2. rchar c" "\<forall>c\<in>set ?l3. rchar c" "\<forall>c\<in>set ?l4. rchar c"
    using assms(1,2) by (auto simp: lit_def rchar_def list_all_iff)
  have no: "10 \<notin> set ?l1" "10 \<notin> set ?l2" "10 \<notin> set ?l3" "10 \<notin> set ?l4"
    "13 \<notin> set ?l1" "13 \<notin> set ?l2" "13 \<notin> set ?l3" "13 \<notin> set ?l4"
    using assms(3-6) by (simp_all add: lit_def)
  have "\<forall>c\<in>set ?t. rchar c"
    using ok by (auto simp: rchar_def)
  then have "from_utf8_lossy (build_request host uuid) = ?t"
    unfolding t by (rule from_utf8_lossy_utf8)
  moreover have "str_lines [13, 10] = [[]]"
    using str_lines_crlf [of "[]" "[]"] by simp
  then have "str_lines ?t = [?l1, ?l2, ?l3, ?l4, []]"
    by (simp only: str_lines_crlf [OF no(1)] str_lines_crlf [OF no(2)] str_lines_crlf [OF no(3)]
        str_lines_crlf [OF no(4)])
  moreover have "find_double_crlf (build_request host uuid) = Some (length (build_request host uuid) - 4)"
  proof -
    have cr: "(13 :: u8) \<notin> set (utf8 ?l1)" "(13 :: u8) \<notin> set (utf8 ?l2)"
      "(13 :: u8) \<notin> set (utf8 ?l3)" "(13 :: u8) \<notin> set (utf8 ?l4)"
      using utf8_avoids [OF ok(1) _ no(5)] utf8_avoids [OF ok(2) _ no(6)] utf8_avoids [OF ok(3) _ no(7)]
        utf8_avoids [OF ok(4) _ no(8)] by simp_all
    have ne: "utf8 s \<noteq> []" if "s \<noteq> []" for s
      using that by (cases s) (simp_all add: utf8_Cons utf8_char_def)
    have b: "utf8 ?t = header_lines [utf8 ?l1, utf8 ?l2, utf8 ?l3, utf8 ?l4] @ [13, 10] @ []"
      by (simp add: header_lines_def utf8_Cons utf8_char_def)
    have "find_double_crlf (header_lines [utf8 ?l1, utf8 ?l2, utf8 ?l3, utf8 ?l4] @ [13, 10] @ []) =
        Some (length (header_lines [utf8 ?l1, utf8 ?l2, utf8 ?l3, utf8 ?l4]) - 2)"
      by (rule find_double_crlf_header) (use cr in \<open>simp add: ne lit_def del: utf8_append\<close>)
    then show ?thesis unfolding t b by simp
  qed
  ultimately show ?thesis by simp
qed

theorem request_has_four_lines_witness:
  "find_double_crlf (build_request (lit ''vpn.example.com:8443'') (lit ''1111'')) =
     Some (length (build_request (lit ''vpn.example.com:8443'') (lit ''1111'')) - 4)"
proof -
  have "list_all rchar (lit ''vpn.example.com:8443'')" "list_all rchar (lit ''1111'')"
    "10 \<notin> set (lit ''vpn.example.com:8443'')" "10 \<notin> set (lit ''1111'')"
    "13 \<notin> set (lit ''vpn.example.com:8443'')" "13 \<notin> set (lit ''1111'')"
    by (simp_all add: lit_def rchar_def)
  from request_has_four_lines [OF this] show ?thesis by blast
qed

end
