(* ===== verification/Connection.thy ===== *)
theory Connection
  imports Handshake Http
begin

text \<open>
  The connection task (\<open>sstp-proto/src/connection.rs\<close>): the set-up, the HTTP handshake and the
  select loop that moves bytes between the TLS stream, the engine and the utun interface. Each
  arm of the loop is an input; what the task does to the world are its actions. \<open>os\<close> is what
  the operating system answers while one packet is handled: whether a write to the stream
  succeeds, the interface \<open>Utun::create\<close> makes, whether \<open>ifconfig\<close> succeeds. Error texts
  are a constructor for each format string.
\<close>

datatype protocol_msg =
    RequestWriteFailed
  | HttpReadFailed
  | ClosedDuringHttp
  | HttpHandshakeFailed parse_error
  | ConnectReqWriteFailed
  | ReadFailed
  | MalformedPacket decode_error
  | WriteFailed
  | MissingAddress
  | IfconfigFailed
  | EngineFatal fatal_msg
  | NoResponse
  | KeepaliveWriteFailed

datatype connect_error =
    TcpFailed rstr
  | TlsFailed
  | NoCertificate
  | InvalidServerName rstr
  | UtunFailed
  | ProtocolError protocol_msg

datatype progress = TcpConnected rstr | TlsCompleted | HttpCompleted | SentConnectReq | EngineTrace trace_msg

datatype conn_event =
    Progress progress
  | ConnectedEv rstr negotiated_config
  | DisconnectedEv
  | ErrorEv connect_error

datatype action =
    TlsWrite bytes
  | ConfigureUtun rstr ipv4 ipv4
  | UtunWrite rstr bytes
  | Report conn_event

record os =
  os_write :: "bytes \<Rightarrow> bool"
  os_utun :: "rstr option"
  os_ifconfig :: bool

section \<open>Set-up\<close>

record net =
  net_tcp :: bool
  net_tls :: bool
  net_cert :: "bytes option option"  \<comment> \<open>\<open>None\<close>: the certificate could not be read\<close>

definition server_host :: "rstr \<Rightarrow> rstr" where
  "server_host server = (case rsplit_once 58 server of Some (h, _) \<Rightarrow> h | None \<Rightarrow> server)"

definition conn_setup :: "net \<Rightarrow> os \<Rightarrow> rstr \<Rightarrow> rstr \<Rightarrow> action list \<times> (connect_error + bytes)" where
  \<comment> \<open>\<open>run_inner\<close> up to the request; returns the certificate\<close>
  "conn_setup net os server uuid =
     (let host = server_host server
      in if host = [] then ([], Inl (InvalidServerName server))
         else if \<not> net_tcp net then ([], Inl (TcpFailed server))
         else let a1 = [Report (Progress (TcpConnected server))]
           in if \<not> net_tls net then (a1, Inl TlsFailed)
              else let a2 = a1 @ [Report (Progress TlsCompleted)]
                in case net_cert net of
                     None \<Rightarrow> (a2, Inl TlsFailed)
                   | Some None \<Rightarrow> (a2, Inl NoCertificate)
                   | Some (Some cert_der) \<Rightarrow>
                       let request = build_request server uuid
                       in if os_write os request then (a2 @ [TlsWrite request], Inr cert_der)
                          else (a2, Inl (ProtocolError RequestWriteFailed)))"

datatype http_state = HttpWaiting bytes | HttpFailed connect_error | HttpDone bytes nat

definition http_read :: "bytes \<Rightarrow> bytes option \<Rightarrow> http_state option" where
  \<comment> \<open>one round of the HTTP loop; \<open>None\<close> is a read error\<close>
  "http_read http_buf r =
     (case r of
        None \<Rightarrow> Some (HttpFailed (ProtocolError HttpReadFailed))
      | Some chunk \<Rightarrow>
          if chunk = [] then Some (HttpFailed (ProtocolError ClosedDuringHttp))
          else do {
            let buf = http_buf @ chunk;
            parsed \<leftarrow> parse_response buf;
            Some (case parsed of
              Inr (_, offset) \<Rightarrow> HttpDone buf offset
            | Inl HeadersIncomplete \<Rightarrow> HttpWaiting buf
            | Inl e \<Rightarrow> HttpFailed (ProtocolError (HttpHandshakeFailed e)))
          })"

fun http_loop :: "bytes \<Rightarrow> bytes option list \<Rightarrow> (http_state \<times> bytes option list) option" where
  \<comment> \<open>also returns the reads that are left\<close>
  "http_loop buf [] = Some (HttpWaiting buf, [])"
| "http_loop buf (r # rs) = do {
     s \<leftarrow> http_read buf r;
     case s of HttpWaiting b \<Rightarrow> http_loop b rs | _ \<Rightarrow> Some (s, rs)
   }"

section \<open>The select loop\<close>

definition MAX_UNANSWERED_ECHOES :: u32 where "MAX_UNANSWERED_ECHOES = 4"

record connection =
  c_engine :: engine
  c_reader :: packet_reader
  c_utun :: "rstr option"
  c_unanswered :: u32

datatype flow = Continue connection | Return "connect_error + unit"

definition conn_open ::
  "crypto \<Rightarrow> u32 \<Rightarrow> os \<Rightarrow> rstr \<Rightarrow> rstr \<Rightarrow> bytes \<Rightarrow> bytes \<Rightarrow> nat \<Rightarrow> (action list \<times> flow) option" where
  \<comment> \<open>from the end of the HTTP handshake to the select loop\<close>
  "conn_open cr magic os username password cert_der http_buf body_offset = do {
     rest \<leftarrow> subslice http_buf body_offset (length http_buf);
     let a1 = [Report (Progress HttpCompleted)];
     let reader = reader_push rest reader_new;
     engine \<leftarrow> engine_new cr magic username password cert_der;
     Some (if os_write os (engine_start engine)
           then (a1 @ [TlsWrite (engine_start engine), Report (Progress SentConnectReq)],
                 Continue \<lparr>c_engine = engine, c_reader = reader, c_utun = None, c_unanswered = 0\<rparr>)
           else (a1, Return (Inl (ProtocolError ConnectReqWriteFailed))))
   }"

definition handle_event :: "os \<Rightarrow> connection \<Rightarrow> event \<Rightarrow> action list \<times> flow" where
  \<comment> \<open>the \<open>match event\<close> of the read arm\<close>
  "handle_event os c ev =
     (case ev of
        Send bs \<Rightarrow>
          if os_write os bs then ([TlsWrite bs], Continue c)
          else ([], Return (Inl (ProtocolError WriteFailed)))
      | DeliverIpPacket p \<Rightarrow>
          (case c_utun c of Some u \<Rightarrow> ([UtunWrite u p], Continue c) | None \<Rightarrow> ([], Continue c))
      | Established nc keys \<Rightarrow>
          (case (nc_local_ip nc, nc_peer_ip nc) of
             (Some local, Some peer) \<Rightarrow>
               (case os_utun os of
                  None \<Rightarrow> ([], Return (Inl UtunFailed))
                | Some name \<Rightarrow>
                    if os_ifconfig os
                    then ([ConfigureUtun name local peer, Report (ConnectedEv name nc)],
                          Continue (c\<lparr>c_utun := Some name\<rparr>))
                    else ([ConfigureUtun name local peer], Return (Inl (ProtocolError IfconfigFailed))))
           | _ \<Rightarrow> ([], Return (Inl (ProtocolError MissingAddress))))
      | Disconnected \<Rightarrow> ([], Return (Inr ()))
      | Fatal msg \<Rightarrow> ([], Return (Inl (ProtocolError (EngineFatal msg))))
      | Trace t \<Rightarrow> ([Report (Progress (EngineTrace t))], Continue c))"

primrec handle_events :: "os \<Rightarrow> connection \<Rightarrow> event list \<Rightarrow> action list \<times> flow" where
  "handle_events os c [] = ([], Continue c)"
| "handle_events os c (ev # evs) =
     (case handle_event os c ev of
        (acts, Return r) \<Rightarrow> (acts, Return r)
      | (acts, Continue c1) \<Rightarrow>
          (case handle_events os c1 evs of (acts', f) \<Rightarrow> (acts @ acts', f)))"

lemma handle_event_keeps:
  "handle_event os c ev = (acts, Continue c') \<Longrightarrow>
   c_engine c' = c_engine c \<and> c_reader c' = c_reader c \<and> c_unanswered c' = c_unanswered c"
  by (auto simp: handle_event_def split: event.splits option.splits if_splits)

lemma handle_events_keeps:
  "handle_events os c evs = (acts, Continue c') \<Longrightarrow>
   c_engine c' = c_engine c \<and> c_reader c' = c_reader c \<and> c_unanswered c' = c_unanswered c"
proof (induction evs arbitrary: c acts)
  case (Cons ev evs)
  then show ?case
    by (auto split: prod.splits flow.splits dest!: handle_event_keeps)
qed simp

lemma drain_shrinks:
  assumes "next_packet (c_reader c) = Some (Inr (Some p), r)"
    "(acts, Continue c1) = handle_events os (c\<lparr>c_reader := r, c_engine := e\<rparr>) evs"
  shows "length (reader_buf (c_reader c1)) < length (reader_buf (c_reader c))"
  using next_packet_shrinks [OF assms(1)] handle_events_keeps [OF assms(2) [symmetric]] by simp

function drain ::
    "crypto \<Rightarrow> (nat \<Rightarrow> os) \<Rightarrow> (nat \<Rightarrow> draws) \<Rightarrow> nat \<Rightarrow> connection \<Rightarrow> (action list \<times> flow) option" where
  \<comment> \<open>the inner loop of the read arm: every complete packet, in order; \<open>n\<close> counts them\<close>
  "drain cr os rnd n c =
     (case next_packet (c_reader c) of
        None \<Rightarrow> None
      | Some (Inl e, r) \<Rightarrow> Some ([], Return (Inl (ProtocolError (MalformedPacket e))))
      | Some (Inr None, r) \<Rightarrow> Some ([], Continue (c\<lparr>c_reader := r\<rparr>))
      | Some (Inr (Some pkt), r) \<Rightarrow>
          (case on_packet cr (rnd n) (c_engine c) pkt of
             None \<Rightarrow> None
           | Some (engine, evs) \<Rightarrow>
               (case handle_events (os n) (c\<lparr>c_reader := r, c_engine := engine\<rparr>) evs of
                  (acts, Return ret) \<Rightarrow> Some (acts, Return ret)
                | (acts, Continue c1) \<Rightarrow>
                    (case drain cr os rnd (Suc n) c1 of
                       None \<Rightarrow> None
                     | Some (acts', f) \<Rightarrow> Some (acts @ acts', f)))))"
  by pat_completeness auto
termination
  by (relation "measure (\<lambda>(cr, os, rnd, n, c). length (reader_buf (c_reader c)))")
    (auto intro: drain_shrinks)

declare drain.simps [simp del]

datatype conn_input = StopRequest | TlsRead "bytes option" | IdleTick | UtunPacket bytes

definition conn_step ::
    "crypto \<Rightarrow> (nat \<Rightarrow> os) \<Rightarrow> (nat \<Rightarrow> draws) \<Rightarrow> connection \<Rightarrow> conn_input \<Rightarrow> (action list \<times> flow) option" where
  \<comment> \<open>one round of the select loop; an IP packet of the interface is not selectable before it exists\<close>
  "conn_step cr os rnd c i =
     (case i of
        StopRequest \<Rightarrow>
          let w = build_disconnect (c_engine c)
          in Some (if os_write (os 0) w then [TlsWrite w] else [], Return (Inr ()))
      | TlsRead None \<Rightarrow> Some ([], Return (Inl (ProtocolError ReadFailed)))
      | TlsRead (Some bs) \<Rightarrow>
          if bs = [] then Some ([], Return (Inr ()))
          else drain cr os rnd 0 (c\<lparr>c_unanswered := 0, c_reader := reader_push bs (c_reader c)\<rparr>)
      | IdleTick \<Rightarrow>
          if c_unanswered c \<ge> MAX_UNANSWERED_ECHOES
          then Some ([], Return (Inl (ProtocolError NoResponse)))
          else let c1 = c\<lparr>c_unanswered := c_unanswered c + 1\<rparr>;
                   w = build_echo_request (c_engine c1)
            in Some (if os_write (os 0) w then ([TlsWrite w], Continue c1)
                     else ([], Return (Inl (ProtocolError KeepaliveWriteFailed))))
      | UtunPacket p \<Rightarrow>
          if c_utun c = None then Some ([], Continue c)
          else let frame = encode_data (ppp_encode ProtoIp p)
            in Some (if os_write (os 0) frame then ([TlsWrite frame], Continue c)
                     else ([], Return (Inl (ProtocolError WriteFailed)))))"

fun conn_loop ::
    "crypto \<Rightarrow> connection \<Rightarrow> ((nat \<Rightarrow> os) \<times> (nat \<Rightarrow> draws) \<times> conn_input) list \<Rightarrow> (action list \<times> flow) option" where
  "conn_loop cr c [] = Some ([], Continue c)"
| "conn_loop cr c ((os, rnd, i) # is) =
     (case conn_step cr os rnd c i of
        None \<Rightarrow> None
      | Some (acts, Return r) \<Rightarrow> Some (acts, Return r)
      | Some (acts, Continue c1) \<Rightarrow>
          (case conn_loop cr c1 is of
             None \<Rightarrow> None
           | Some (acts', f) \<Rightarrow> Some (acts @ acts', f)))"

definition conn_report :: "connect_error + unit \<Rightarrow> conn_event" where
  \<comment> \<open>\<open>run\<close>: the event that ends every connection\<close>
  "conn_report r = (case r of Inr _ \<Rightarrow> DisconnectedEv | Inl e \<Rightarrow> ErrorEv e)"

definition conn_run_inner ::
  "crypto \<Rightarrow> u32 \<Rightarrow> net \<Rightarrow> (nat \<Rightarrow> os) \<Rightarrow> rstr \<Rightarrow> rstr \<Rightarrow> rstr \<Rightarrow> rstr \<Rightarrow> bytes option list \<Rightarrow>
   ((nat \<Rightarrow> os) \<times> (nat \<Rightarrow> draws) \<times> conn_input) list \<Rightarrow> (action list \<times> (connect_error + unit) option) option" where
  \<comment> \<open>the stages of \<open>run_inner\<close> one after the other: \<open>reads\<close> are the reads of the HTTP handshake, of which
    it makes as many as it needs; no result while the task still runs\<close>
  "conn_run_inner cr magic net os server username password uuid reads is =
     (case conn_setup net (os 0) server uuid of
        (a1, Inl e) \<Rightarrow> Some (a1, Some (Inl e))
      | (a1, Inr cert_der) \<Rightarrow>
          (case http_loop [] reads of
             None \<Rightarrow> None
           | Some (HttpWaiting _, _) \<Rightarrow> Some (a1, None)
           | Some (HttpFailed e, _) \<Rightarrow> Some (a1, Some (Inl e))
           | Some (HttpDone http_buf body_offset, _) \<Rightarrow>
               (case conn_open cr magic (os 1) username password cert_der http_buf body_offset of
                  None \<Rightarrow> None
                | Some (a2, Return r) \<Rightarrow> Some (a1 @ a2, Some r)
                | Some (a2, Continue c) \<Rightarrow>
                    (case conn_loop cr c is of
                       None \<Rightarrow> None
                     | Some (a3, Return r) \<Rightarrow> Some (a1 @ a2 @ a3, Some r)
                     | Some (a3, Continue _) \<Rightarrow> Some (a1 @ a2 @ a3, None)))))"

definition conn_run ::
  "crypto \<Rightarrow> u32 \<Rightarrow> net \<Rightarrow> (nat \<Rightarrow> os) \<Rightarrow> rstr \<Rightarrow> rstr \<Rightarrow> rstr \<Rightarrow> rstr \<Rightarrow> bytes option list \<Rightarrow>
   ((nat \<Rightarrow> os) \<times> (nat \<Rightarrow> draws) \<times> conn_input) list \<Rightarrow> action list option" where
  "conn_run cr magic net os server username password uuid reads is =
     (case conn_run_inner cr magic net os server username password uuid reads is of
        None \<Rightarrow> None
      | Some (acts, r) \<Rightarrow> Some (acts @ (case r of None \<Rightarrow> [] | Some x \<Rightarrow> [Report (conn_report x)])))"

section \<open>Facts\<close>

text \<open>Induction over a run of the inner loop that did not panic.\<close>

lemma drain_induct [consumes 1, case_names malformed empty returns continues]:
  assumes "drain cr os rnd n c = Some (acts, f)"
    and malformed: "\<And>c e r. next_packet (c_reader c) = Some (Inl e, r) \<Longrightarrow>
      P c [] (Return (Inl (ProtocolError (MalformedPacket e))))"
    and empty: "\<And>c. P c [] (Continue c)"
    and returns: "\<And>n c pkt r e evs a x. next_packet (c_reader c) = Some (Inr (Some pkt), r) \<Longrightarrow>
      on_packet cr (rnd n) (c_engine c) pkt = Some (e, evs) \<Longrightarrow>
      handle_events (os n) (c\<lparr>c_reader := r, c_engine := e\<rparr>) evs = (a, Return x) \<Longrightarrow> P c a (Return x)"
    and continues: "\<And>n c pkt r e evs a c1 b f. next_packet (c_reader c) = Some (Inr (Some pkt), r) \<Longrightarrow>
      on_packet cr (rnd n) (c_engine c) pkt = Some (e, evs) \<Longrightarrow>
      handle_events (os n) (c\<lparr>c_reader := r, c_engine := e\<rparr>) evs = (a, Continue c1) \<Longrightarrow> P c1 b f \<Longrightarrow> P c (a @ b) f"
  shows "P c acts f"
  using assms(1)
proof (induction cr\<equiv>cr os\<equiv>os rnd\<equiv>rnd n c arbitrary: acts f rule: drain.induct)
  case (1 n c)
  obtain m r where n: "next_packet (c_reader c) = Some (m, r)"
    using runs_next_packet [of "c_reader c"] by (auto simp: runs_def)
  note d = "1.prems" [unfolded drain.simps [of cr os rnd n c] n option.case prod.case]
  consider (err) x where "m = Inl x" | (none) "m = Inr None" | (pkt) pkt where "m = Inr (Some pkt)"
    by (metis obj_sumE option.exhaust)
  then show ?case
  proof cases
    case err
    with d malformed n show ?thesis by auto
  next
    case none
    then have "r = c_reader c"
      using n by (auto simp: next_packet_eq split: option.splits sum.splits if_splits)
    with none d empty [of c] show ?thesis by auto
  next
    case (pkt pkt)
    then obtain e evs where e: "on_packet cr (rnd n) (c_engine c) pkt = Some (e, evs)"
      using d by (auto split: option.splits)
    obtain a1 f1 where h: "handle_events (os n) (c\<lparr>c_reader := r, c_engine := e\<rparr>) evs = (a1, f1)"
      by fastforce
    show ?thesis
    proof (cases f1)
      case (Return x)
      with d pkt e h have "acts = a1" "f = Return x" by auto
      with returns [OF n [unfolded pkt] e h [unfolded Return]] show ?thesis by simp
    next
      case (Continue c1)
      then obtain a2 where "drain cr os rnd (Suc n) c1 = Some (a2, f)" "acts = a1 @ a2"
        using d pkt e h by (auto split: option.splits)
      with "1.hyps" [OF n refl pkt refl e refl h [symmetric] Continue] show ?thesis
        using continues [OF n [unfolded pkt] e h [unfolded Continue]] by simp
    qed
  qed
qed

text \<open>What the engine was fed while a part of the loop ran, and what follows for the actions.\<close>

definition reported :: "action list \<Rightarrow> event list \<Rightarrow> bool" where
  \<comment> \<open>every tunnel that was set up was established by the engine\<close>
  "reported acts evs \<longleftrightarrow> (\<forall>name nc. Report (ConnectedEv name nc) \<in> set acts \<longrightarrow>
     (\<exists>keys local peer. Established nc keys \<in> set evs \<and> nc_local_ip nc = Some local \<and>
        nc_peer_ip nc = Some peer \<and> ConfigureUtun name local peer \<in> set acts))"

lemma reported_append: "reported a e \<Longrightarrow> reported b f \<Longrightarrow> reported (a @ b) (e @ f)"
  unfolding reported_def by fastforce

lemma reported_more: "reported a e \<Longrightarrow> reported a (e @ f)"
  unfolding reported_def by fastforce

lemma reported_Nil [simp]: "reported [] evs"
  by (simp add: reported_def)

lemma handle_event_reported: "handle_event os c ev = (acts, f) \<Longrightarrow> reported acts [ev]"
  by (auto simp: handle_event_def reported_def split: event.splits option.splits if_splits)

lemma handle_events_reported: "handle_events os c evs = (acts, f) \<Longrightarrow> reported acts evs"
proof (induction evs arbitrary: c acts f)
  case (Cons ev evs)
  obtain a1 f1 where e: "handle_event os c ev = (a1, f1)" by fastforce
  note r = handle_event_reported [OF e]
  show ?case
  proof (cases f1)
    case (Return x)
    with e r Cons.prems reported_more [OF r, of evs] show ?thesis by simp
  next
    case (Continue c1)
    obtain a2 f2 where e2: "handle_events os c1 evs = (a2, f2)" by fastforce
    with e Continue Cons.prems have "acts = a1 @ a2" by simp
    with reported_append [OF r Cons.IH [OF e2]] show ?thesis by simp
  qed
qed simp

text \<open>The tunnel interface of the connection, and IP packets on it, come with a report.\<close>

definition tunnelled :: "connection \<Rightarrow> action list \<Rightarrow> bool" where
  \<comment> \<open>a tunnel exists before, or the actions set one up\<close>
  "tunnelled c acts \<longleftrightarrow> c_utun c \<noteq> None \<or> (\<exists>name nc. Report (ConnectedEv name nc) \<in> set acts)"

lemma handle_event_tunnel:
  assumes "handle_event os c ev = (acts, f)"
  shows "(UtunWrite name p \<in> set acts \<longrightarrow> tunnelled c acts) \<and>
    (\<forall>c'. f = Continue c' \<longrightarrow> c_utun c' \<noteq> None \<longrightarrow> tunnelled c acts)"
  using assms by (auto simp: handle_event_def tunnelled_def split: event.splits option.splits if_splits)

lemma tunnelled_append: "tunnelled c a \<Longrightarrow> tunnelled c (a @ b)"
  by (auto simp: tunnelled_def)

lemma tunnelled_trans: "(c_utun c1 \<noteq> None \<Longrightarrow> tunnelled c a) \<Longrightarrow> tunnelled c1 b \<Longrightarrow> tunnelled c (a @ b)"
  by (auto simp: tunnelled_def)

lemma handle_events_tunnel:
  assumes "handle_events os c evs = (acts, f)"
  shows "(UtunWrite name p \<in> set acts \<longrightarrow> tunnelled c acts) \<and>
    (\<forall>c'. f = Continue c' \<longrightarrow> c_utun c' \<noteq> None \<longrightarrow> tunnelled c acts)"
  using assms
proof (induction evs arbitrary: c acts f)
  case Nil
  then show ?case by (auto simp: tunnelled_def)
next
  case (Cons ev evs)
  obtain a1 f1 where e: "handle_event os c ev = (a1, f1)" by fastforce
  note t = handle_event_tunnel [OF e, of name p]
  show ?case
  proof (cases f1)
    case (Return x)
    with e t Cons.prems show ?thesis by auto
  next
    case (Continue c1)
    obtain a2 f2 where e2: "handle_events os c1 evs = (a2, f2)" by fastforce
    with e Continue Cons.prems have a: "acts = a1 @ a2" "f = f2" by simp_all
    have "c_utun c1 \<noteq> None \<Longrightarrow> tunnelled c a1" using t Continue by simp
    with t Cons.IH [OF e2] a show ?thesis
      using tunnelled_append [of c a1 a2] tunnelled_trans [of c1 c a1 a2] by auto
  qed
qed

text \<open>The packets in a stream of bytes, and the bytes a run of the loop has read.\<close>

definition stream_packets :: "bytes \<Rightarrow> packet list" where
  "stream_packets bs = (case reader_poll \<lparr>reader_buf = bs\<rparr> of Some (ps, _) \<Rightarrow> ps | None \<Rightarrow> [])"

primrec received :: "((nat \<Rightarrow> os) \<times> (nat \<Rightarrow> draws) \<times> conn_input) list \<Rightarrow> bytes" where
  "received [] = []"
| "received (x # xs) = (case snd (snd x) of TlsRead (Some bs) \<Rightarrow> bs | _ \<Rightarrow> []) @ received xs"

lemma stream_packets_next:
  assumes "next_packet r = Some (Inr (Some p), r')"
  shows "stream_packets (reader_buf r @ x) = p # stream_packets (reader_buf r' @ x)"
proof -
  have d: "packet_decode (reader_buf r) = Some (Inr p)" and r': "r' = reader_drop r"
    using assms by (auto simp: next_packet_eq reader_drop_def split: option.splits sum.splits if_splits)
  have "reader_push x r = \<lparr>reader_buf = reader_buf r @ x\<rparr>" "reader_push x (reader_drop r) = \<lparr>reader_buf = reader_buf r' @ x\<rparr>"
    by (simp_all add: reader_push_def r' reader_drop_def)
  with reader_poll_push_Cons [OF d, of x] runs_reader_poll [of "reader_push x r"]
    runs_reader_poll [of "reader_push x (reader_drop r)"]
  show ?thesis
    by (auto simp: stream_packets_def runs_def prepend_def verdict_def split: prod.splits)
qed

definition consumed :: "connection \<Rightarrow> bytes \<Rightarrow> packet list \<Rightarrow> flow \<Rightarrow> bool" where
  \<comment> \<open>having read the bytes, the packets were taken from the front of the stream\<close>
  "consumed c bs ps f \<longleftrightarrow>
     (\<forall>x. case f of
        Continue c' \<Rightarrow> stream_packets (reader_buf (c_reader c) @ bs @ x) = ps @ stream_packets (reader_buf (c_reader c') @ x)
      | Return _ \<Rightarrow> prefix ps (stream_packets (reader_buf (c_reader c) @ bs @ x)))"

lemma consumed_prefix:
  "consumed c bs ps f \<Longrightarrow> prefix ps (stream_packets (reader_buf (c_reader c) @ bs @ x))"
  by (cases f) (auto simp: consumed_def)

lemma consumed_trans:
  assumes "consumed c bs ps (Continue c1)" "consumed c1 bs' ps' f"
  shows "consumed c (bs @ bs') (ps @ ps') f"
proof -
  have "stream_packets (reader_buf (c_reader c) @ bs @ bs' @ x) =
      ps @ stream_packets (reader_buf (c_reader c1) @ bs' @ x)" for x
    using assms(1) by (simp add: consumed_def)
  with assms(2) show ?thesis by (cases f) (auto simp: consumed_def)
qed

text \<open>
  Soundness of a part of the loop: it fed the engine the packets of the stream in their order,
  everything it set up was established by the engine on them, and IP packets of the tunnel come
  behind its report.
\<close>

definition sound :: "crypto \<Rightarrow> bytes \<Rightarrow> connection \<Rightarrow> action list \<Rightarrow> flow \<Rightarrow> bool" where
  "sound cr bs c acts f \<longleftrightarrow>
     (\<exists>ms e evs. engine_run cr (c_engine c) ms = Some (e, evs) \<and> consumed c bs (map snd ms) f \<and>
        reported acts evs \<and> (\<forall>c'. f = Continue c' \<longrightarrow> c_engine c' = e)) \<and>
     (\<forall>name p. UtunWrite name p \<in> set acts \<longrightarrow> tunnelled c acts) \<and>
     (\<forall>c'. f = Continue c' \<longrightarrow> c_utun c' \<noteq> None \<longrightarrow> tunnelled c acts)"

lemma sound_quiet:
  assumes "\<And>c'. f = Continue c' \<Longrightarrow> bs = [] \<and> c_engine c' = c_engine c \<and> c_utun c' = c_utun c \<and> c_reader c' = c_reader c"
    "\<And>x. x \<in> set acts \<Longrightarrow> \<exists>w. x = TlsWrite w"
  shows "sound cr bs c acts f"
proof -
  have no: "Report ev \<notin> set acts" "UtunWrite name p \<notin> set acts" for ev name p
    using assms(2) [of "Report ev"] assms(2) [of "UtunWrite name p"] by auto
  have "engine_run cr (c_engine c) [] = Some (c_engine c, [])" by simp
  moreover have "consumed c bs (map snd ([] :: (draws \<times> packet) list)) f"
    using assms(1) by (cases f) (simp_all add: consumed_def)
  moreover have "reported acts []" using no by (simp add: reported_def)
  moreover have "tunnelled c acts" if "c_utun c \<noteq> None" using that by (simp add: tunnelled_def)
  ultimately show ?thesis
    unfolding sound_def using assms(1) no by metis
qed

lemma sound_trans:
  assumes "sound cr bs c a (Continue c1)" "sound cr bs' c1 b f"
  shows "sound cr (bs @ bs') c (a @ b) f"
proof -
  obtain ms e evs where 1: "engine_run cr (c_engine c) ms = Some (e, evs)"
    "consumed c bs (map snd ms) (Continue c1)" "reported a evs" "c_engine c1 = e"
    using assms(1) by (auto simp: sound_def)
  obtain ms' e' evs' where 2: "engine_run cr (c_engine c1) ms' = Some (e', evs')"
    "consumed c1 bs' (map snd ms') f" "reported b evs'" "\<forall>c'. f = Continue c' \<longrightarrow> c_engine c' = e'"
    using assms(2) unfolding sound_def by blast
  have "engine_run cr (c_engine c) (ms @ ms') = Some (e', evs @ evs')"
    using 1 2 by (simp add: engine_run_append)
  moreover have "consumed c (bs @ bs') (map snd (ms @ ms')) f"
    using consumed_trans [OF 1(2) 2(2)] by simp
  moreover have "reported (a @ b) (evs @ evs')"
    using 1 2 by (simp add: reported_append)
  moreover have t: "tunnelled c1 b \<Longrightarrow> tunnelled c (a @ b)"
    using assms(1) by (intro tunnelled_trans) (auto simp: sound_def)
  moreover have "UtunWrite name p \<in> set (a @ b) \<Longrightarrow> tunnelled c (a @ b)" for name p
    using assms t tunnelled_append by (auto simp: sound_def)
  ultimately show ?thesis
    using assms(2) 2(4) unfolding sound_def by blast
qed

lemma sound_packet:
  assumes "next_packet (c_reader c) = Some (Inr (Some pkt), r)"
    "on_packet cr d (c_engine c) pkt = Some (e, evs)"
    "handle_events os (c\<lparr>c_reader := r, c_engine := e\<rparr>) evs = (acts, f)"
  shows "sound cr [] c acts f"
proof -
  let ?c = "c\<lparr>c_reader := r, c_engine := e\<rparr>"
  have "engine_run cr (c_engine c) [(d, pkt)] = Some (e, evs)"
    using assms(2) by simp
  moreover have k: "c_engine c' = e \<and> c_reader c' = r" if "f = Continue c'" for c'
    using handle_events_keeps assms(3) that by fastforce
  then have "consumed c [] (map snd [(d, pkt)]) f"
    using stream_packets_next [OF assms(1)] by (cases f) (auto simp: consumed_def)
  moreover have "reported acts evs" by (rule handle_events_reported [OF assms(3)])
  moreover have "tunnelled ?c acts = tunnelled c acts" by (simp add: tunnelled_def)
  ultimately show ?thesis
    using handle_events_tunnel [OF assms(3)] k unfolding sound_def by metis
qed

lemma drain_sound: "drain cr os rnd n c = Some (acts, f) \<Longrightarrow> sound cr [] c acts f"
proof (induction rule: drain_induct)
  case (returns n c pkt r e evs a x)
  then show ?case by (rule sound_packet)
next
  case (continues n c pkt r e evs a c1 b f)
  from sound_trans [OF sound_packet [OF continues(1-3)] continues(4)] show ?case by simp
qed (intro sound_quiet; simp)+

lemma conn_step_sound:
  assumes "conn_step cr os rnd c i = Some (acts, f)"
  shows "sound cr (received [(os, rnd, i)]) c acts f"
proof (cases "\<exists>bs. i = TlsRead (Some bs) \<and> bs \<noteq> []")
  case True
  then obtain bs where i: "i = TlsRead (Some bs)" "bs \<noteq> []" by blast
  with assms have "sound cr [] (c\<lparr>c_unanswered := 0, c_reader := reader_push bs (c_reader c)\<rparr>) acts f"
    by (intro drain_sound) (simp add: conn_step_def)
  moreover have "consumed (c\<lparr>c_unanswered := 0, c_reader := reader_push bs (c_reader c)\<rparr>) [] ps f = consumed c bs ps f" for ps
    by (cases f) (simp_all add: consumed_def reader_push_def)
  ultimately show ?thesis by (simp add: i sound_def tunnelled_def)
next
  case False
  with assms show ?thesis
    by (intro sound_quiet) (auto simp: conn_step_def Let_def split: conn_input.splits option.splits if_splits)
qed

lemma conn_loop_sound: "conn_loop cr c is = Some (acts, f) \<Longrightarrow> sound cr (received is) c acts f"
proof (induction "is" arbitrary: c acts f)
  case Nil
  then show ?case by (intro sound_quiet) auto
next
  case (Cons x xs)
  obtain os rnd i where x: "x = (os, rnd, i)" by (cases x)
  obtain a1 f1 where s: "conn_step cr os rnd c i = Some (a1, f1)"
    using Cons.prems x by (auto split: option.splits)
  note s1 = conn_step_sound [OF s]
  have bs: "received (x # xs) = received [(os, rnd, i)] @ received xs" by (simp add: x)
  show ?case
  proof (cases f1)
    case (Return r)
    with s x Cons.prems have "acts = a1" "f = Return r" by simp_all
    moreover have "consumed c (b @ b') ps (Return r)" if "consumed c b ps (Return r)" for b b' ps
      using that by (simp add: consumed_def)
    ultimately show ?thesis using s1 Return unfolding bs sound_def by blast
  next
    case (Continue c1)
    obtain a2 f2 where "conn_loop cr c1 xs = Some (a2, f2)" "acts = a1 @ a2" "f = f2"
      using Cons.prems x s Continue by (auto split: option.splits)
    with Cons.IH [of c1 a2 f2] s1 Continue show ?thesis
      unfolding bs using sound_trans by blast
  qed
qed

text \<open>After CONNECT_ACK the loop cannot panic.\<close>

definition acknowledged :: "engine \<Rightarrow> bool" where
  "acknowledged e \<longleftrightarrow> engine_ok e \<and> e_hash_algo e \<noteq> None"

lemma on_packet_acknowledged:
  assumes "crypto_ok cr" "acknowledged e"
  obtains e' evs where "on_packet cr d e pkt = Some (e', evs)" "acknowledged e'"
proof -
  obtain e' evs where r: "on_packet cr d e pkt = Some (e', evs)"
    using on_packet_None [OF assms(1), of e d pkt] assms(2) by (cases "on_packet cr d e pkt") (auto simp: acknowledged_def)
  then have "e_hash_algo e' \<noteq> None"
    using on_packet_step [OF assms(1) r] assms(2) by (auto simp: step_ok_def acknowledged_def)
  with r assms on_packet_ok [OF assms(1) _ r] that show thesis by (simp add: acknowledged_def)
qed

definition goes_on :: "(action list \<times> flow) option \<Rightarrow> bool" where
  \<comment> \<open>no panic, and an acknowledged engine if the loop goes on\<close>
  "goes_on res \<longleftrightarrow> (\<exists>acts f. res = Some (acts, f) \<and> (\<forall>c'. f = Continue c' \<longrightarrow> acknowledged (c_engine c')))"

lemma goes_onI: "(\<And>c'. f = Continue c' \<Longrightarrow> acknowledged (c_engine c')) \<Longrightarrow> goes_on (Some (acts, f))"
  by (simp add: goes_on_def)

lemma goes_on_drain:
  "crypto_ok cr \<Longrightarrow> acknowledged (c_engine c) \<Longrightarrow> goes_on (drain cr os rnd n c)"
proof (induction cr os rnd n c rule: drain.induct)
  case (1 cr os rnd n c)
  obtain m r where n: "next_packet (c_reader c) = Some (m, r)"
    using runs_next_packet [of "c_reader c"] by (auto simp: runs_def)
  consider (err) x where "m = Inl x" | (none) "m = Inr None" | (pkt) pkt where "m = Inr (Some pkt)"
    by (metis obj_sumE option.exhaust)
  then show ?case
  proof cases
    case (pkt pkt)
    obtain e evs where e: "on_packet cr (rnd n) (c_engine c) pkt = Some (e, evs)" "acknowledged e"
      using "1.prems" by (rule on_packet_acknowledged)
    obtain a1 f1 where h: "handle_events (os n) (c\<lparr>c_reader := r, c_engine := e\<rparr>) evs = (a1, f1)"
      by fastforce
    show ?thesis
    proof (cases f1)
      case (Return x)
      with n pkt e h show ?thesis by (simp add: drain.simps [of cr os rnd n c] goes_on_def)
    next
      case (Continue c1)
      have "acknowledged (c_engine c1)"
        using handle_events_keeps [of "os n" "c\<lparr>c_reader := r, c_engine := e\<rparr>" evs a1 c1] h Continue e by simp
      then have "goes_on (drain cr os rnd (Suc n) c1)"
        using "1.IH" [OF n refl pkt refl e(1) refl h [symmetric] Continue] "1.prems"(1) by blast
      with n pkt e h Continue show ?thesis
        by (auto simp: drain.simps [of cr os rnd n c] goes_on_def)
    qed
  qed (use n "1.prems" in \<open>auto simp: drain.simps [of cr os rnd n c] goes_on_def\<close>)
qed

lemma goes_on_step:
  assumes "crypto_ok cr" "acknowledged (c_engine c)"
  shows "goes_on (conn_step cr os rnd c i)"
proof (cases i)
  case (TlsRead r)
  then show ?thesis
    using assms goes_on_drain [of cr "c\<lparr>c_unanswered := 0, c_reader := reader_push (the r) (c_reader c)\<rparr>" os rnd 0]
    by (cases r) (auto simp: conn_step_def intro: goes_onI)
qed (use assms in \<open>auto simp: conn_step_def Let_def intro!: goes_onI split: if_splits\<close>)

lemma conn_loop_goes_on:
  "crypto_ok cr \<Longrightarrow> acknowledged (c_engine c) \<Longrightarrow> goes_on (conn_loop cr c is)"
proof (induction "is" arbitrary: c)
  case (Cons x xs)
  obtain os rnd i where x: "x = (os, rnd, i)" by (cases x)
  obtain a1 f1 where s: "conn_step cr os rnd c i = Some (a1, f1)"
    "\<forall>c'. f1 = Continue c' \<longrightarrow> acknowledged (c_engine c')"
    using goes_on_step [OF Cons.prems, of os rnd i] by (auto simp: goes_on_def)
  show ?case
  proof (cases f1)
    case (Return r)
    with s x show ?thesis by (simp add: goes_on_def)
  next
    case (Continue c1)
    with s Cons.IH [of c1] Cons.prems(1) have "goes_on (conn_loop cr c1 xs)" by simp
    with s x Continue show ?thesis by (auto simp: goes_on_def)
  qed
qed (simp add: goes_on_def)

text \<open>What the loop does with well-formed packets.\<close>

primrec numbered :: "(nat \<Rightarrow> draws) \<Rightarrow> nat \<Rightarrow> packet list \<Rightarrow> (draws \<times> packet) list" where
  "numbered rnd n [] = []"
| "numbered rnd n (p # ps) = (rnd n, p) # numbered rnd (Suc n) ps"

lemma handle_events_append:
  "handle_events os c (xs @ ys) =
     (case handle_events os c xs of
        (acts, Return r) \<Rightarrow> (acts, Return r)
      | (acts, Continue c1) \<Rightarrow> (case handle_events os c1 ys of (acts', f) \<Rightarrow> (acts @ acts', f)))"
  by (induction xs arbitrary: c) (auto split: prod.splits flow.splits)

lemma handle_event_frame:
  "handle_event os c ev = (acts, Continue c1) \<Longrightarrow>
   handle_event os (c\<lparr>c_reader := r, c_engine := e\<rparr>) ev = (acts, Continue (c1\<lparr>c_reader := r, c_engine := e\<rparr>))"
  by (auto simp: handle_event_def split: event.splits option.splits if_splits)

lemma handle_events_frame:
  "handle_events os c evs = (acts, Continue c1) \<Longrightarrow>
   handle_events os (c\<lparr>c_reader := r, c_engine := e\<rparr>) evs = (acts, Continue (c1\<lparr>c_reader := r, c_engine := e\<rparr>))"
proof (induction evs arbitrary: c acts)
  case (Cons ev evs)
  then obtain a1 c2 a2 where h: "handle_event os c ev = (a1, Continue c2)"
    "handle_events os c2 evs = (a2, Continue c1)" "acts = a1 @ a2"
    by (auto split: prod.splits flow.splits)
  from handle_event_frame [where r = r and e = e, OF h(1)] Cons.IH [OF h(2)] h(3) show ?case by simp
qed simp

lemma next_packet_wire:
  assumes "packet_ok p" "reader_buf r = encode_packet p @ rest"
  shows "next_packet r = Some (Inr (Some p), r\<lparr>reader_buf := rest\<rparr>)"
proof -
  have "packet_decode (reader_buf r) = Some (Inr p)"
    using assms by (simp add: packet_decode_wire)
  moreover have "frame_len (reader_buf r) = length (encode_packet p)"
  proof -
    obtain fl body where "encode_packet p = [PROTO_VERSION, fl] @ u16_to_be (as_u16 (4 + length body)) @ body"
      "4 + length body < 65536"
      using assms(1) by (rule encode_packet_header)
    then show ?thesis by (simp add: assms(2) frame_len_def u16_to_be_def)
  qed
  ultimately show ?thesis by (simp add: next_packet_eq assms(2))
qed

lemma drain_wires:
  assumes "packet_decode tail = Some (Inl Incomplete)"
  shows "list_all packet_ok ps \<Longrightarrow> reader_buf (c_reader c) = concat (map encode_packet ps) @ tail \<Longrightarrow>
    engine_run cr (c_engine c) (numbered rnd n ps) = Some (e, evs) \<Longrightarrow>
    handle_events os c evs = (acts, Continue c1) \<Longrightarrow>
    drain cr (\<lambda>_. os) rnd n c = Some (acts, Continue (c1\<lparr>c_reader := \<lparr>reader_buf = tail\<rparr>, c_engine := e\<rparr>))"
proof (induction ps arbitrary: c n evs acts c1)
  case Nil
  then have "next_packet (c_reader c) = Some (Inr None, c_reader c)" "c_reader c = \<lparr>reader_buf = tail\<rparr>"
    using assms by (simp_all add: next_packet_eq)
  moreover have "c = c1" "c_engine c = e" "acts = []" using Nil.prems by simp_all
  moreover have "c\<lparr>c_reader := x, c_engine := c_engine c\<rparr> = c\<lparr>c_reader := x\<rparr>" for x by (cases c) simp
  ultimately show ?case by (auto simp: drain.simps [of cr "\<lambda>_. os" rnd n c1])
next
  case (Cons p ps)
  let ?rest = "concat (map encode_packet ps) @ tail"
  let ?r = "(c_reader c)\<lparr>reader_buf := ?rest\<rparr>"
  have n: "next_packet (c_reader c) = Some (Inr (Some p), ?r)"
    using Cons.prems(1,2) by (intro next_packet_wire) simp_all
  obtain e1 evs1 evs2 where e1: "on_packet cr (rnd n) (c_engine c) p = Some (e1, evs1)"
    "engine_run cr e1 (numbered rnd (Suc n) ps) = Some (e, evs2)" "evs = evs1 @ evs2"
    using Cons.prems(3) by (auto simp: bind_eq_Some_conv)
  obtain a1 c2 a2 where h: "handle_events os c evs1 = (a1, Continue c2)"
    "handle_events os c2 evs2 = (a2, Continue c1)" "acts = a1 @ a2"
    using Cons.prems(4) e1(3) by (auto simp: handle_events_append split: prod.splits flow.splits)
  let ?c2 = "c2\<lparr>c_reader := ?r, c_engine := e1\<rparr>"
  have h1: "handle_events os (c\<lparr>c_reader := ?r, c_engine := e1\<rparr>) evs1 = (a1, Continue ?c2)"
    by (rule handle_events_frame [OF h(1)])
  have h2: "handle_events os ?c2 evs2 = (a2, Continue (c1\<lparr>c_reader := ?r, c_engine := e1\<rparr>))"
    by (rule handle_events_frame [OF h(2)])
  have "drain cr (\<lambda>_. os) rnd (Suc n) ?c2 =
      Some (a2, Continue ((c1\<lparr>c_reader := ?r, c_engine := e1\<rparr>)\<lparr>c_reader := \<lparr>reader_buf = tail\<rparr>, c_engine := e\<rparr>))"
    by (rule Cons.IH [OF _ _ _ h2]) (use Cons.prems(1) e1(2) in simp_all)
  with n e1(1) h1 h(3) show ?case
    by (simp add: drain.simps [of cr "\<lambda>_. os" rnd n c])
qed

lemma routine_deliver [simp]: "\<not> routine (DeliverIpPacket p # evs)"
  by (simp add: routine_def)

lemma length_octets [simp]: "length (octets a) = 4"
  by (cases a) simp

lemma handle_events_routine:
  "routine evs \<Longrightarrow> (\<And>w. os_write os w) \<Longrightarrow> \<exists>acts. handle_events os c evs = (acts, Continue c)"
proof (induction evs)
  case (Cons ev evs)
  then show ?case by (cases ev) (auto simp: handle_event_def)
qed simp

lemma handshake_packets_ok:
  assumes "length d = 36" "length ac = 16" "length name \<le> 65506" "length (utf8 r) \<le> 168"
  shows "list_all packet_ok (map snd (link_messages rnd d q @ login_messages rnd i ac name r @
    address_messages rnd q' peer ip dns1 dns2))"
  using assms
  by (simp add: link_messages_def login_messages_def address_messages_def frame_pkt_def attr_pair_def
      auth_demand_def challenge_frame_def assigned_def Opt_def ip_opt_def)

lemma answer_facts:
  assumes "crypto_ok cr" "answer cr ac pc user pw r keys"
  shows "length (utf8 r) \<le> 168" "length (send_key keys) = 16" "length (recv_key keys) = 16"
proof -
  obtain nt where nt: "generate_authenticator_response cr pw nt pc ac user = Some r"
    "mppe_get_keys cr pw nt False = Some keys"
    using assms(2) by (auto simp: answer_def)
  show "length (utf8 r) \<le> 168"
    using authenticator_response_facts(1) [OF assms(1), of pw "\<lparr>pr_peer_challenge = pc, pr_nt_response = nt\<rparr>"] nt(1)
    by simp
  show "length (send_key keys) = 16" "length (recv_key keys) = 16"
    using mppe_get_keys_Some [OF assms(1), of pw nt False] nt(2) by (metis option.inject)+
qed

lemma connected_packet_decodes:
  assumes "crypto_ok cr" "engine_new cr magic user pw cert = Some e0" "length d = 36"
    "length (send_key keys) = 16" "length (recv_key keys) = 16"
    "build_connected_message cr (offered_algo d) (drop 4 d) (cert_hash_of e0 (offered_algo d))
       (send_key keys) (recv_key keys) = Some cpkt"
  shows "\<exists>a. packet_decode cpkt = Some (Inr (Ctrl Connected [a]))"
proof -
  have "length (cert_hash_of e0 (offered_algo d)) = 32"
    using engine_new_ok [OF assms(1,2)] by (cases "offered_algo d") (simp_all add: engine_ok_def cert_hash_of_def)
  with assms(3) obtain a where "packet_ok (Ctrl Connected [a])" "cpkt = encode_packet (Ctrl Connected [a])"
    using connected_message_wire [OF assms(1) _ _ assms(4-6)] by auto
  then show ?thesis
    using packet_decode_wire [of "Ctrl Connected [a]" "[]"] by auto
qed

text \<open>
  The messages of a server that waits for the client's answers: every message arrives in reads of its
  own, cut in any way, and is handled, with its own draws, before the next one is sent.
\<close>

definition arriving :: "os \<Rightarrow> (draws \<times> packet) list \<Rightarrow> bytes list list \<Rightarrow>
    ((nat \<Rightarrow> os) \<times> (nat \<Rightarrow> draws) \<times> conn_input) list" where
  \<comment> \<open>\<open>css\<close> holds the reads of each message\<close>
  "arriving os ms css =
     concat (map2 (\<lambda>m cs. map (\<lambda>b. (\<lambda>_. os, \<lambda>_. fst m, TlsRead (Some b))) cs) ms css)"

definition cut_into :: "(draws \<times> packet) list \<Rightarrow> bytes list list \<Rightarrow> bool" where
  "cut_into ms css \<longleftrightarrow> list_all2 (\<lambda>m cs. concat cs = encode_packet (snd m) \<and> [] \<notin> set cs) ms css"

lemma arriving_simps [simp]:
  "arriving os [] css = []"
  "arriving os (m # ms) (cs # css) =
     map (\<lambda>b. (\<lambda>_. os, \<lambda>_. fst m, TlsRead (Some b))) cs @ arriving os ms css"
  by (simp_all add: arriving_def)

lemma cut_into_simps [simp]:
  "cut_into [] css \<longleftrightarrow> css = []"
  "cut_into (m # ms) css \<longleftrightarrow> (\<exists>cs css'. css = cs # css' \<and> concat cs = encode_packet (snd m) \<and> [] \<notin> set cs \<and> cut_into ms css')"
  by (auto simp: cut_into_def list_all2_Cons1)

lemma conn_loop_append:
  "conn_loop cr c is = Some (a, Continue c1) \<Longrightarrow> conn_loop cr c1 js = Some (b, f) \<Longrightarrow>
   conn_loop cr c (is @ js) = Some (a @ b, f)"
proof (induction "is" arbitrary: c a)
  case (Cons x xs)
  obtain os rnd i where x: "x = (os, rnd, i)" by (cases x)
  obtain a1 c2 a2 where "conn_step cr os rnd c i = Some (a1, Continue c2)"
    "conn_loop cr c2 xs = Some (a2, Continue c1)" "a = a1 @ a2"
    using Cons.prems(1) x by (auto split: option.splits flow.splits)
  with Cons.IH [of c2 a2] Cons.prems(2) x show ?case by simp
qed simp

lemma drain_waits:
  assumes "packet_decode (reader_buf (c_reader c)) = Some (Inl Incomplete)"
  shows "drain cr os rnd n c = Some ([], Continue c)"
proof -
  have "c\<lparr>c_reader := c_reader c\<rparr> = c" by (cases c) simp
  with assms show ?thesis by (simp add: drain.simps [of cr os rnd n c] next_packet_eq)
qed

lemma packet_arrives:
  assumes "packet_ok p" "on_packet cr d (c_engine c) p = Some (e, evs)" "handle_events os c evs = (acts, Continue c1)"
    "c_unanswered c = 0" "cs \<noteq> []" "[] \<notin> set cs" "reader_buf (c_reader c) @ concat cs = encode_packet p"
  shows "conn_loop cr c (map (\<lambda>b. (\<lambda>_. os, \<lambda>_. d, TlsRead (Some b))) cs) =
    Some (acts, Continue (c1\<lparr>c_reader := \<lparr>reader_buf = []\<rparr>, c_engine := e\<rparr>))"
  using assms(2-)
proof (induction cs arbitrary: c c1)
  case (Cons b bs)
  let ?c = "c\<lparr>c_reader := reader_push b (c_reader c)\<rparr>"
  have u: "c\<lparr>c_unanswered := 0, c_reader := x\<rparr> = c\<lparr>c_reader := x\<rparr>" for x
    using Cons.prems(3) by (cases c) simp
  have k: "c_engine c1 = c_engine c" using handle_events_keeps [OF Cons.prems(2)] by simp
  have h: "handle_events os ?c evs = (acts, Continue (c1\<lparr>c_reader := reader_push b (c_reader c)\<rparr>))"
  proof -
    have "c\<lparr>c_reader := x, c_engine := c_engine c\<rparr> = c\<lparr>c_reader := x\<rparr>"
      "c1\<lparr>c_reader := x, c_engine := c_engine c\<rparr> = c1\<lparr>c_reader := x\<rparr>" for x
      using k by (cases c, simp, cases c1, simp)
    with handle_events_frame [OF Cons.prems(2), where r = "reader_push b (c_reader c)" and e = "c_engine c"] show ?thesis
      by simp
  qed
  have step: "conn_step cr (\<lambda>_. os) (\<lambda>_. d) c (TlsRead (Some b)) = drain cr (\<lambda>_. os) (\<lambda>_. d) 0 ?c"
    using Cons.prems(5) by (auto simp: conn_step_def u)
  have inc: "packet_decode [] = Some (Inl Incomplete)" by (simp add: packet_decode_def header_lens)
  show ?case
  proof (cases bs)
    case Nil
    have "drain cr (\<lambda>_. os) (\<lambda>_. d) 0 ?c =
        Some (acts, Continue (c1\<lparr>c_reader := reader_push b (c_reader c)\<rparr>\<lparr>c_reader := \<lparr>reader_buf = []\<rparr>, c_engine := e\<rparr>))"
      by (rule drain_wires [OF inc, of "[p]" _ _ _ _ e evs])
        (use assms(1) Cons.prems Nil h in \<open>simp_all add: reader_push_def\<close>)
    with step Nil show ?thesis by simp
  next
    case (Cons b' bs')
    have "b' \<noteq> []" using Cons.prems(5) Cons by auto
    moreover have "encode_packet p = reader_buf (c_reader ?c) @ b' @ concat bs'"
      using Cons.prems(6) Cons by (simp add: reader_push_def)
    ultimately have "strict_prefix (reader_buf (c_reader ?c)) (encode_packet p)"
      by (auto simp: strict_prefix_def)
    then have "drain cr (\<lambda>_. os) (\<lambda>_. d) 0 ?c = Some ([], Continue ?c)"
      using packet_decode_short [OF assms(1)] by (intro drain_waits)
    moreover have "conn_loop cr ?c (map (\<lambda>b. (\<lambda>_. os, \<lambda>_. d, TlsRead (Some b))) bs) =
        Some (acts, Continue (c1\<lparr>c_reader := reader_push b (c_reader c)\<rparr>\<lparr>c_reader := \<lparr>reader_buf = []\<rparr>, c_engine := e\<rparr>))"
      by (rule Cons.IH [OF _ h]) (use Cons.prems Cons in \<open>simp_all add: reader_push_def\<close>)
    ultimately show ?thesis using step by simp
  qed
qed simp

lemma messages_arrive:
  assumes "list_all (packet_ok \<circ> snd) ms" "cut_into ms css" "engine_run cr (c_engine c) ms = Some (e, evs)"
    "handle_events os c evs = (acts, Continue c1)" "c_unanswered c = 0" "reader_buf (c_reader c) = []"
  shows "conn_loop cr c (arriving os ms css) = Some (acts, Continue (c1\<lparr>c_reader := \<lparr>reader_buf = []\<rparr>, c_engine := e\<rparr>))"
  using assms
proof (induction ms arbitrary: css c evs acts c1)
  case Nil
  then have "c1\<lparr>c_reader := \<lparr>reader_buf = []\<rparr>, c_engine := e\<rparr> = c1" by (cases c1) simp
  with Nil show ?case by simp
next
  case (Cons m ms)
  obtain d p where m: "m = (d, p)" by (cases m)
  obtain cs css' where cs: "css = cs # css'" "concat cs = encode_packet p" "[] \<notin> set cs" "cut_into ms css'"
    using Cons.prems(2) m by auto
  have ok: "packet_ok p" using Cons.prems(1) m by simp
  then have ne: "cs \<noteq> []"
    using cs(2) encode_packet_header [of p] by fastforce
  obtain e1 evs1 evs2 where e1: "on_packet cr d (c_engine c) p = Some (e1, evs1)"
    "engine_run cr e1 ms = Some (e, evs2)" "evs = evs1 @ evs2"
    using Cons.prems(3) m by (auto simp: bind_eq_Some_conv)
  obtain a1 c2 a2 where h: "handle_events os c evs1 = (a1, Continue c2)"
    "handle_events os c2 evs2 = (a2, Continue c1)" "acts = a1 @ a2"
    using Cons.prems(4) e1(3) by (auto simp: handle_events_append split: prod.splits flow.splits)
  let ?c2 = "c2\<lparr>c_reader := \<lparr>reader_buf = []\<rparr>, c_engine := e1\<rparr>"
  have "conn_loop cr c (map (\<lambda>b. (\<lambda>_. os, \<lambda>_. d, TlsRead (Some b))) cs) = Some (a1, Continue ?c2)"
    by (rule packet_arrives [OF ok e1(1) h(1) Cons.prems(5) ne cs(3)]) (simp add: Cons.prems(6) cs(2))
  moreover have "conn_loop cr ?c2 (arriving os ms css') =
      Some (a2, Continue ((c1\<lparr>c_reader := \<lparr>reader_buf = []\<rparr>, c_engine := e1\<rparr>)\<lparr>c_reader := \<lparr>reader_buf = []\<rparr>, c_engine := e\<rparr>))"
    using Cons.prems(1,5) handle_events_keeps [OF h(1)] e1(2)
    by (intro Cons.IH [OF _ cs(4) _ handle_events_frame [OF h(2)]]) simp_all
  ultimately show ?case
    using conn_loop_append h(3) by (simp add: cs(1) m)
qed

lemma cut_exists: "list_all (packet_ok \<circ> snd) ms \<Longrightarrow> cut_into ms (map (\<lambda>m. [take 3 (encode_packet (snd m)), drop 3 (encode_packet (snd m))]) ms)"
  \<comment> \<open>each message in two reads, cut within the header\<close>
proof (induction ms)
  case (Cons m ms)
  obtain fl body where "encode_packet (snd m) = [PROTO_VERSION, fl] @ u16_to_be (as_u16 (4 + length body)) @ body"
    using encode_packet_header [of "snd m"] Cons.prems by (metis list.pred_inject(2) comp_apply)
  with Cons show ?case by (simp add: u16_to_be_def)
qed simp

abbreviation handshake_messages where
  \<comment> \<open>what the server of \<open>handshake_establishes\<close> sends, each message with the draws of its handling\<close>
  "handshake_messages rnd d q i ac name r q' peer ip dns1 dns2 \<equiv>
     link_messages rnd d q @ login_messages rnd i ac name r @ address_messages rnd q' peer ip dns1 dns2"

lemma wire_handshake:
  assumes "crypto_ok cr" "conn_open cr magic os0 user pw cert buf (length buf) = Some (a0, Continue c)"
    "length d = 36" "length ac = 16" "length name \<le> 65506" "answer cr ac (rnd_16 (rnd 3)) user pw r keys"
    "\<And>w. os_write os w" "os_utun os = Some ifname" "os_ifconfig os"
    "cut_into (handshake_messages rnd d q i ac name r q' peer ip dns1 dns2) css"
  obtains acts c' where
    "conn_loop cr c (arriving os (handshake_messages rnd d q i ac name r q' peer ip dns1 dns2) css) =
       Some (acts @ [ConfigureUtun ifname ip peer, Report (ConnectedEv ifname
         \<lparr>nc_local_ip = Some ip, nc_peer_ip = Some peer, nc_dns1 = Some dns1, nc_dns2 = Some dns2\<rparr>)],
         Continue c')"
    "c_utun c' = Some ifname" "e_phase (c_engine c') = PhaseEstablished"
    "\<exists>cpkt. TlsWrite cpkt \<in> set acts \<and> (\<exists>a. packet_decode cpkt = Some (Inr (Ctrl Connected [a])))"
proof -
  let ?nc = "\<lparr>nc_local_ip = Some ip, nc_peer_ip = Some peer, nc_dns1 = Some dns1, nc_dns2 = Some dns2\<rparr>"
  let ?ms = "handshake_messages rnd d q i ac name r q' peer ip dns1 dns2"
  obtain e0 where e0: "engine_new cr magic user pw cert = Some e0"
    and c: "c = \<lparr>c_engine = e0, c_reader = \<lparr>reader_buf = []\<rparr>, c_utun = None, c_unanswered = 0\<rparr>"
    using assms(2) by (auto simp: conn_open_def Let_def bind_eq_Some_conv reader_push_def reader_new_def split: if_splits)
  have "length name \<le> 65514" using assms(5) by simp
  from handshake_run [where rnd = rnd and i = i, OF assms(1) e0 assms(3,4) this assms(6)]
  obtain e' evs cpkt where h: "routine evs" "e_phase e' = PhaseEstablished"
    "build_connected_message cr (offered_algo d) (drop 4 d) (cert_hash_of e0 (offered_algo d))
       (send_key keys) (recv_key keys) = Some cpkt"
    "engine_run cr e0 ?ms = Some (e', evs @ [Send cpkt, Established ?nc keys])" by metis
  obtain a1 where a1: "handle_events os c evs = (a1, Continue c)"
    using handle_events_routine [OF h(1) assms(7)] by blast
  have ev: "handle_events os c (evs @ [Send cpkt, Established ?nc keys]) =
      ((a1 @ [TlsWrite cpkt]) @ [ConfigureUtun ifname ip peer, Report (ConnectedEv ifname ?nc)],
       Continue (c\<lparr>c_utun := Some ifname\<rparr>))"
    using a1 assms(7-9) by (simp add: handle_events_append handle_event_def)
  note f = answer_facts [OF assms(1,6)]
  have ok: "list_all (packet_ok \<circ> snd) ?ms"
    using handshake_packets_ok [OF assms(3,4,5) f(1), of rnd q i q' peer ip dns1 dns2] by (simp add: list.pred_map)
  obtain a where "packet_decode cpkt = Some (Inr (Ctrl Connected [a]))"
    using connected_packet_decodes [OF assms(1) e0 assms(3) f(2,3) h(3)] by blast
  moreover have "conn_loop cr c (arriving os ?ms css) =
    Some ((a1 @ [TlsWrite cpkt]) @ [ConfigureUtun ifname ip peer, Report (ConnectedEv ifname ?nc)],
      Continue (c\<lparr>c_utun := Some ifname\<rparr>\<lparr>c_reader := \<lparr>reader_buf = []\<rparr>, c_engine := e'\<rparr>))"
    by (rule messages_arrive [OF ok assms(10) _ ev]) (use h(4) in \<open>simp_all add: c\<close>)
  ultimately show thesis
    using h(2) that [of "a1 @ [TlsWrite cpkt]"
        "c\<lparr>c_utun := Some ifname\<rparr>\<lparr>c_reader := \<lparr>reader_buf = []\<rparr>, c_engine := e'\<rparr>"] by auto
qed

lemma tunnel_login:
  assumes "crypto_ok cr" "conn_open cr magic os username password cert buf off = Some (a0, Continue c)"
    "conn_loop cr c is = Some (acts, f)"
    "Report (ConnectedEv name nc) \<in> set acts \<or> UtunWrite name ip \<in> set acts"
  shows "\<exists>e0 ms e evs keys name' nc' local peer. engine_new cr magic username password cert = Some e0 \<and>
    prefix (map snd ms) (stream_packets (drop off buf @ received is)) \<and>
    engine_run cr e0 ms = Some (e, evs) \<and> verified_in cr e0 ms keys \<and>
    Report (ConnectedEv name' nc') \<in> set acts \<and> (Report (ConnectedEv name nc) \<in> set acts \<longrightarrow> name' = name \<and> nc' = nc) \<and>
    Established nc' keys \<in> set evs \<and>
    nc_local_ip nc' = Some local \<and> nc_peer_ip nc' = Some peer \<and> ConfigureUtun name' local peer \<in> set acts"
proof -
  obtain e0 where e0: "engine_new cr magic username password cert = Some e0" "c_engine c = e0" "c_utun c = None"
    "reader_buf (c_reader c) = drop off buf"
    using assms(2) by (auto simp: conn_open_def Let_def bind_eq_Some_conv reader_push_def reader_new_def
        subslice_def split: if_splits)
  have s: "sound cr (received is) c acts f" by (rule conn_loop_sound [OF assms(3)])
  then obtain ms e evs where r: "engine_run cr e0 ms = Some (e, evs)" "reported acts evs"
    "consumed c (received is) (map snd ms) f"
    using e0(2) by (auto simp: sound_def)
  have "tunnelled c acts"
    using assms(4) s by (auto simp: sound_def tunnelled_def)
  then obtain name' nc' where n: "Report (ConnectedEv name' nc') \<in> set acts"
    "Report (ConnectedEv name nc) \<in> set acts \<longrightarrow> name' = name \<and> nc' = nc"
    using e0(3) unfolding tunnelled_def by metis
  then obtain keys local peer where k: "Established nc' keys \<in> set evs" "nc_local_ip nc' = Some local"
    "nc_peer_ip nc' = Some peer" "ConfigureUtun name' local peer \<in> set acts"
    using r(2) unfolding reported_def by blast
  have "verified_in cr e0 ms keys"
    using run_history [OF assms(1) engine_new_facts(7,6) [OF e0(1)] r(1)] k(1) by blast
  moreover have "prefix (map snd ms) (stream_packets (drop off buf @ received is))"
    using consumed_prefix [OF r(3), of "[]"] e0(4) by simp
  ultimately show ?thesis using e0(1) r(1) n k by blast
qed

text \<open>What a whole run of the task reports.\<close>

definition reports :: "action list \<Rightarrow> conn_event list" where
  "reports acts = concat (map (\<lambda>a. case a of Report ev \<Rightarrow> [ev] | _ \<Rightarrow> []) acts)"

lemma set_reports: "ev \<in> set (reports acts) \<longleftrightarrow> Report ev \<in> set acts"
  by (induction acts) (auto simp: reports_def split: action.splits)

lemma reports_append: "reports (a @ b) = reports a @ reports b"
  by (simp add: reports_def)

lemma conn_setup_quiet: "conn_setup net os server uuid = (acts, r) \<Longrightarrow> Report (ConnectedEv name nc) \<notin> set acts"
  by (auto simp: conn_setup_def Let_def split: if_splits option.splits)

lemma conn_setup_cert: "conn_setup net os server uuid = (acts, Inr cert) \<Longrightarrow> net_cert net = Some (Some cert)"
  by (auto simp: conn_setup_def Let_def split: if_splits option.splits)

lemma conn_open_quiet:
  "conn_open cr magic os user pw cert buf off = Some (acts, f) \<Longrightarrow> Report (ConnectedEv name nc) \<notin> set acts"
  by (auto simp: conn_open_def Let_def bind_eq_Some_conv split: if_splits)

lemma conn_run_tunnel:
  assumes "conn_run cr magic net os server user pw uuid reads is = Some acts" "Report (ConnectedEv name nc) \<in> set acts"
  obtains a1 cert buf off rest a2 c a3 f where "conn_setup net (os 0) server uuid = (a1, Inr cert)"
    "http_loop [] reads = Some (HttpDone buf off, rest)"
    "conn_open cr magic (os 1) user pw cert buf off = Some (a2, Continue c)"
    "conn_loop cr c is = Some (a3, f)" "Report (ConnectedEv name nc) \<in> set a3" "set a3 \<subseteq> set acts"
proof -
  obtain as r where r: "conn_run_inner cr magic net os server user pw uuid reads is = Some (as, r)"
    "Report (ConnectedEv name nc) \<in> set as" "set as \<subseteq> set acts"
    using assms by (auto simp: conn_run_def conn_report_def split: option.splits sum.splits)
  then obtain a1 cert buf off rest a2 c a3 f where c: "conn_setup net (os 0) server uuid = (a1, Inr cert)"
    "http_loop [] reads = Some (HttpDone buf off, rest)"
    "conn_open cr magic (os 1) user pw cert buf off = Some (a2, Continue c)"
    "conn_loop cr c is = Some (a3, f)" "as = a1 @ a2 @ a3"
    unfolding conn_run_inner_def using conn_setup_quiet conn_open_quiet
    by (fastforce split: prod.splits sum.splits option.splits http_state.splits flow.splits)
  with r(2,3) conn_setup_quiet [OF c(1)] conn_open_quiet [OF c(3)] show thesis
    using that [OF c(1-4)] by auto
qed

text \<open>The end of the connection is reported last, by \<open>conn_run\<close>: the loop itself never reports it.\<close>

primrec terminal :: "conn_event \<Rightarrow> bool" where
  "terminal (Progress p) = False"
| "terminal (ConnectedEv name nc) = False"
| "terminal DisconnectedEv = True"
| "terminal (ErrorEv e) = True"

definition unfinished :: "action list \<Rightarrow> bool" where
  "unfinished acts \<longleftrightarrow> (\<forall>ev\<in>set (reports acts). \<not> terminal ev)"

lemma unfinished_append [simp]: "unfinished (a @ b) \<longleftrightarrow> unfinished a \<and> unfinished b"
  by (auto simp: unfinished_def reports_append)

lemma unfinished_simps [simp]:
  "unfinished []"
  "unfinished (TlsWrite w # as) \<longleftrightarrow> unfinished as"
  "unfinished (ConfigureUtun name local peer # as) \<longleftrightarrow> unfinished as"
  "unfinished (UtunWrite name p # as) \<longleftrightarrow> unfinished as"
  "unfinished (Report ev # as) \<longleftrightarrow> \<not> terminal ev \<and> unfinished as"
  by (simp_all add: unfinished_def reports_def)

lemma handle_event_unfinished: "handle_event os c ev = (acts, f) \<Longrightarrow> unfinished acts"
  by (auto simp: handle_event_def split: event.splits option.splits if_splits)

lemma handle_events_unfinished: "handle_events os c evs = (acts, f) \<Longrightarrow> unfinished acts"
proof (induction evs arbitrary: c acts f)
  case (Cons ev evs)
  then show ?case
    by (auto split: prod.splits flow.splits dest: handle_event_unfinished)
qed simp

lemma drain_unfinished: "drain cr os rnd n c = Some (acts, f) \<Longrightarrow> unfinished acts"
  by (induction rule: drain_induct) (auto dest: handle_events_unfinished)

lemma conn_step_unfinished: "conn_step cr os rnd c i = Some (acts, f) \<Longrightarrow> unfinished acts"
  by (auto simp: conn_step_def Let_def split: conn_input.splits option.splits if_splits dest: drain_unfinished)

lemma conn_setup_unfinished: "conn_setup net os server uuid = (acts, r) \<Longrightarrow> unfinished acts"
  by (auto simp: conn_setup_def Let_def split: if_splits option.splits)

lemma conn_open_unfinished:
  "conn_open cr magic os user pw cert buf off = Some (acts, f) \<Longrightarrow> unfinished acts"
  by (auto simp: conn_open_def Let_def bind_eq_Some_conv split: if_splits)

lemma engine_new_exists: "crypto_ok cr \<Longrightarrow> \<exists>e. engine_new cr magic user pw cert = Some e"
  by (auto simp: engine_new_def crypto_lengths Let_def)

text \<open>A whole run on a working system with a server that follows the protocol.\<close>

lemma conn_loop_unfinished: "conn_loop cr c is = Some (acts, f) \<Longrightarrow> unfinished acts"
proof (induction "is" arbitrary: c acts f)
  case (Cons x xs)
  obtain os rnd i where x: "x = (os, rnd, i)" by (cases x)
  obtain a1 f1 where s: "conn_step cr os rnd c i = Some (a1, f1)"
    using Cons.prems x by (auto split: option.splits)
  have "unfinished a1" by (rule conn_step_unfinished [OF s])
  with s x Cons show ?case by (auto split: option.splits flow.splits)
qed simp

lemma run_connects:
  assumes "crypto_ok cr" "server_host server \<noteq> []" "net_tcp net" "net_tls net" "net_cert net = Some (Some cert)"
    "http_loop [] reads = Some (HttpDone buf (length buf), rest)"
    "length d = 36" "length ac = 16" "length name \<le> 65506" "answer cr ac (rnd_16 (rnd 3)) user pw r keys"
    "\<And>w. os_write os w" "os_utun os = Some ifname" "os_ifconfig os"
    "cut_into (handshake_messages rnd d q i ac name r q' peer ip dns1 dns2) css"
  obtains acts where "conn_run cr magic net (\<lambda>_. os) server user pw uuid reads
      (arriving os (handshake_messages rnd d q i ac name r q' peer ip dns1 dns2) css) =
    Some (acts @ [ConfigureUtun ifname ip peer, Report (ConnectedEv ifname
      \<lparr>nc_local_ip = Some ip, nc_peer_ip = Some peer, nc_dns1 = Some dns1, nc_dns2 = Some dns2\<rparr>)])" "unfinished acts"
proof -
  obtain e where e: "engine_new cr magic user pw cert = Some e"
    using engine_new_exists [OF assms(1)] by blast
  obtain a1 where 1: "conn_setup net os server uuid = (a1, Inr cert)"
    using assms(2-5,11) by (simp add: conn_setup_def Let_def)
  obtain a2 c where 2: "conn_open cr magic os user pw cert buf (length buf) = Some (a2, Continue c)"
    using e assms(11) by (simp add: conn_open_def subslice_def Let_def)
  let ?nc = "\<lparr>nc_local_ip = Some ip, nc_peer_ip = Some peer, nc_dns1 = Some dns1, nc_dns2 = Some dns2\<rparr>"
  obtain a3 c' where 3: "conn_loop cr c (arriving os (handshake_messages rnd d q i ac name r q' peer ip dns1 dns2) css) =
      Some (a3 @ [ConfigureUtun ifname ip peer, Report (ConnectedEv ifname ?nc)], Continue c')"
    by (rule wire_handshake [OF assms(1) 2 assms(7-14)]) (rule that)
  show thesis
    by (rule that [of "a1 @ a2 @ a3"])
      (use 1 2 3 assms(6) conn_setup_unfinished [OF 1] conn_open_unfinished [OF 2] conn_loop_unfinished [OF 3] in
        \<open>simp_all add: conn_run_def conn_run_inner_def\<close>)
qed

section \<open>Properties\<close>

text \<open>
  C1. From the HTTP handshake on, the task reports a tunnel, or passes an IP packet of the
  server to one, only after a login: the packets at the front of the stream of bytes that was
  read contain a Challenge that was answered with the user's password and a later Success that
  verified against that response. The engine established the tunnel on these packets with the
  addresses reported, and they are the ones of the interface that was set up.
\<close>

theorem tunnel_needs_login:
  assumes "crypto_ok cr" "conn_open cr magic os username password cert buf off = Some (a0, Continue c)"
    "conn_loop cr c is = Some (acts, f)"
    "Report (ConnectedEv name nc) \<in> set acts \<or> UtunWrite name ip \<in> set acts"
  shows "\<exists>e0 ms e evs keys name' nc' local peer. engine_new cr magic username password cert = Some e0 \<and>
    prefix (map snd ms) (stream_packets (drop off buf @ received is)) \<and>
    engine_run cr e0 ms = Some (e, evs) \<and> verified_in cr e0 ms keys \<and>
    Report (ConnectedEv name' nc') \<in> set acts \<and> (Report (ConnectedEv name nc) \<in> set acts \<longrightarrow> name' = name \<and> nc' = nc) \<and>
    Established nc' keys \<in> set evs \<and>
    nc_local_ip nc' = Some local \<and> nc_peer_ip nc' = Some peer \<and> ConfigureUtun name' local peer \<in> set acts"
  by (rule tunnel_login [OF assms])

lemma toy_open:
  obtains a0 c where "conn_open toy_crypto 7 \<lparr>os_write = \<lambda>w. True, os_utun = Some (lit ''utun4''), os_ifconfig = True\<rparr>
    (lit ''bob'') (lit ''pw'') [1, 2, 3] [1] 1 = Some (a0, Continue c)"
proof -
  obtain e where "engine_new toy_crypto 7 (lit ''bob'') (lit ''pw'') [1, 2, 3] = Some e"
    by (rule engine_new_toy)
  then show thesis using that by (simp add: conn_open_def Let_def)
qed

theorem tunnel_needs_login_witness:
  "\<exists>c is acts f name nc e0 ms keys. conn_loop toy_crypto c is = Some (acts, f) \<and>
     Report (ConnectedEv name nc) \<in> set acts \<and> verified_in toy_crypto e0 ms keys"
proof -
  let ?os = "\<lparr>os_write = \<lambda>w::bytes. True, os_utun = Some (lit ''utun4''), os_ifconfig = True\<rparr>"
  let ?r = "\<lambda>k::nat. \<lparr>rnd_u32 = \<lambda>n::nat. 0::u32, rnd_16 = replicate 16 (1::u8)\<rparr>"
  obtain a0 c where o: "conn_open toy_crypto 7 ?os (lit ''bob'') (lit ''pw'') [1, 2, 3] [1] 1 = Some (a0, Continue c)"
    by (rule toy_open)
  then have o': "conn_open toy_crypto 7 ?os (lit ''bob'') (lit ''pw'') [1, 2, 3] [1] (length [1 :: u8]) = Some (a0, Continue c)"
    by simp
  obtain r keys where a: "answer toy_crypto (replicate 16 2) (rnd_16 (?r 3)) (lit ''bob'') (lit ''pw'') r keys"
    using toy_crypto_ok by (rule answer_exists)
  have l: "length (replicate 36 (3::u8)) = 36" "length (replicate 16 (2::u8)) = 16"
    "length ([]::bytes) \<le> 65506" by simp_all
  have w: "os_write ?os x" "os_utun ?os = Some (lit ''utun4'')" "os_ifconfig ?os" for x by simp_all
  let ?ms = "handshake_messages ?r (replicate 36 3) 9 5 (replicate 16 2) [] r 1 (10, 0, 0, 1) (10, 0, 0, 2) (8, 8, 8, 8) (8, 8, 4, 4)"
  obtain css where css: "cut_into ?ms css"
    using cut_exists handshake_packets_ok [OF l answer_facts(1) [OF toy_crypto_ok a]] unfolding list.pred_map by blast
  obtain acts c' nc where s: "conn_loop toy_crypto c (arriving ?os ?ms css) =
      Some (acts @ [ConfigureUtun (lit ''utun4'') (10, 0, 0, 2) (10, 0, 0, 1), Report (ConnectedEv (lit ''utun4'') nc)], Continue c')"
    by (rule wire_handshake [where rnd = ?r, OF toy_crypto_ok o' l a w(1) w(2,3) css]) (rule that)
  have "Report (ConnectedEv (lit ''utun4'') nc) \<in> set (acts @
      [ConfigureUtun (lit ''utun4'') (10, 0, 0, 2) (10, 0, 0, 1), Report (ConnectedEv (lit ''utun4'') nc)])" by simp
  with tunnel_needs_login [OF toy_crypto_ok o s, of "lit ''utun4''" nc] s show ?thesis by blast
qed

text \<open>
  C5. Once CONNECT_ACK has been handled, the connection task never panics: whatever arrives on
  the stream, in whatever pieces, whichever writes fail and whatever the user does, the loop
  goes on or returns a result.
\<close>

theorem connection_task_never_panics:
  assumes "crypto_ok cr" "engine_ok (c_engine c)" "e_hash_algo (c_engine c) \<noteq> None"
  shows "\<exists>acts f. conn_loop cr c is = Some (acts, f)"
  using conn_loop_goes_on [OF assms(1), of c "is"] assms(2,3) by (auto simp: goes_on_def acknowledged_def)

theorem connection_task_never_panics_witness:
  "\<exists>c acts f. engine_ok (c_engine c) \<and>
     conn_loop toy_crypto c [(\<lambda>_. \<lparr>os_write = \<lambda>w. False, os_utun = None, os_ifconfig = False\<rparr>,
       \<lambda>_. \<lparr>rnd_u32 = \<lambda>n. 0, rnd_16 = []\<rparr>, TlsRead (Some [16, 0, 0, 5, 9, 16, 7, 7]))] = Some (acts, f)"
proof -
  obtain e where e: "engine_ok e" "e_phase e = PhaseIpcp" "e_hash_algo e = Some AlgoSha256"
    by (rule toy_engine)
  define c where "c = \<lparr>c_engine = e, c_reader = reader_new, c_utun = None, c_unanswered = 0\<rparr>"
  have k: "engine_ok (c_engine c)" "e_hash_algo (c_engine c) \<noteq> None" using e by (simp_all add: c_def)
  show ?thesis
    using connection_task_never_panics [OF toy_crypto_ok k] k(1) by blast
qed

definition idle :: "os \<Rightarrow> nat \<Rightarrow> ((nat \<Rightarrow> os) \<times> (nat \<Rightarrow> draws) \<times> conn_input) list" where
  \<comment> \<open>idle periods in a row\<close>
  "idle os n = replicate n (\<lambda>_. os, \<lambda>_. \<lparr>rnd_u32 = \<lambda>_. 0, rnd_16 = []\<rparr>, IdleTick)"

lemma conn_loop_tick:
  "conn_loop cr c (idle os (Suc n)) =
     (if c_unanswered c \<ge> 4 then Some ([], Return (Inl (ProtocolError NoResponse)))
      else let w = build_echo_request (c_engine c)
        in if os_write os w
           then map_option (\<lambda>(a, f). (TlsWrite w # a, f)) (conn_loop cr (c\<lparr>c_unanswered := c_unanswered c + 1\<rparr>) (idle os n))
           else Some ([], Return (Inl (ProtocolError KeepaliveWriteFailed))))"
  by (auto simp: idle_def conn_step_def MAX_UNANSWERED_ECHOES_def build_echo_request_def Let_def split: option.splits)

lemma conn_loop_idle_Nil: "conn_loop cr c (idle os 0) = Some ([], Continue c)"
  by (simp add: idle_def)

lemma four_le: "k \<le> 4 \<Longrightarrow> (4 :: u32) \<le> of_nat k \<longleftrightarrow> k = 4"
  by (simp add: word_le_nat_alt unat_of_nat)

lemma idle_run:
  assumes "\<And>w. os_write os w"
  shows "k \<le> 4 \<Longrightarrow> c_unanswered c = of_nat k \<Longrightarrow> conn_loop cr c (idle os n) =
    Some (replicate (min n (4 - k)) (TlsWrite (encode_ctrl msg_type.EchoRequest [])),
          if n \<le> 4 - k then Continue (c\<lparr>c_unanswered := of_nat (k + n)\<rparr>)
          else Return (Inl (ProtocolError NoResponse)))"
proof (induction n arbitrary: c k)
  case 0
  then show ?case by (simp add: conn_loop_idle_Nil)
next
  case (Suc n)
  show ?case
  proof (cases "k = 4")
    case True
    with Suc.prems show ?thesis by (simp add: conn_loop_tick)
  next
    case False
    let ?c = "c\<lparr>c_unanswered := c_unanswered c + 1\<rparr>"
    have k: "Suc k \<le> 4" "c_unanswered ?c = of_nat (Suc k)" using False Suc.prems by simp_all
    have "\<not> (4 :: u32) \<le> of_nat k" using four_le [of k] False Suc.prems by simp
    moreover have "4 - k = Suc (4 - Suc k)" using k(1) by simp
    ultimately show ?thesis
      using Suc.IH [OF k] Suc.prems assms
      by (simp add: conn_loop_tick build_echo_request_def add.commute)
  qed
qed

lemma drain_unanswered:
  assumes "drain cr os rnd n c = Some (acts, Continue c')"
  shows "c_unanswered c' = c_unanswered c"
proof -
  have "f = Continue c' \<Longrightarrow> c_unanswered c' = c_unanswered c" if "drain cr os rnd n c = Some (acts, f)" for f
    using that
    by (induction rule: drain_induct) (auto dest: handle_events_keeps)
  with assms show ?thesis by blast
qed

text \<open>
  C30. The watchdog: from the last byte received, a silent server is sent four echo requests, one
  for each idle period, and at the fifth the connection is given up; anything received, unless
  it ends the connection, starts the count again.
\<close>

theorem silent_server_is_given_up:
  assumes "\<And>w. os_write os w" "c_unanswered c = 0"
  shows "conn_loop cr c (idle os n) =
      Some (replicate (min n 4) (TlsWrite (encode_ctrl msg_type.EchoRequest [])),
            if n \<le> 4 then Continue (c\<lparr>c_unanswered := of_nat n\<rparr>) else Return (Inl (ProtocolError NoResponse))) \<and>
    (\<forall>os' rnd bs acts c0 c1. conn_step cr os' rnd c0 (TlsRead (Some bs)) = Some (acts, Continue c1) \<longrightarrow>
       c_unanswered c1 = 0)"
proof -
  have "conn_loop cr c (idle os n) =
      Some (replicate (min n 4) (TlsWrite (encode_ctrl msg_type.EchoRequest [])),
            if n \<le> 4 then Continue (c\<lparr>c_unanswered := of_nat n\<rparr>) else Return (Inl (ProtocolError NoResponse)))"
    using idle_run [of os 0 c cr n] assms by simp
  moreover have "c_unanswered c1 = 0"
    if "conn_step cr os' rnd c0 (TlsRead (Some bs)) = Some (acts, Continue c1)" for os' rnd bs acts c0 c1
    using that drain_unanswered by (fastforce simp: conn_step_def split: if_splits)
  ultimately show ?thesis by blast
qed

theorem silent_server_is_given_up_witness:
  "\<exists>c. conn_loop toy_crypto c (idle \<lparr>os_write = \<lambda>w. True, os_utun = None, os_ifconfig = True\<rparr> 5) =
     Some (replicate 4 (TlsWrite (encode_ctrl msg_type.EchoRequest [])), Return (Inl (ProtocolError NoResponse)))"
proof -
  let ?os = "\<lparr>os_write = \<lambda>w::bytes. True, os_utun = None :: rstr option, os_ifconfig = True\<rparr>"
  obtain e where "engine_ok e" by (rule toy_engine)
  define c where "c = \<lparr>c_engine = e, c_reader = reader_new, c_utun = None, c_unanswered = 0\<rparr>"
  have w: "os_write ?os x" for x by simp
  have u: "c_unanswered c = 0" by (simp add: c_def)
  show ?thesis using silent_server_is_given_up [OF w u, of toy_crypto 5] by (intro exI [of _ c]) simp
qed

definition http_result :: "bytes \<Rightarrow> parse_error + u16 \<times> nat \<Rightarrow> http_state" where
  "http_result b x = (case x of Inr (c, off) \<Rightarrow> HttpDone b off
     | Inl e \<Rightarrow> HttpFailed (ProtocolError (HttpHandshakeFailed e)))"

lemma http_read_complete:
  "parse_response (buf @ ch) = Some x \<Longrightarrow> ch \<noteq> [] \<Longrightarrow> x \<noteq> Inl HeadersIncomplete \<Longrightarrow>
   http_loop buf (Some ch # rs) = Some (http_result (buf @ ch) x, rs)"
  by (auto simp: http_read_def http_result_def Let_def split: sum.splits parse_error.splits prod.splits)

lemma http_loop_chunks:
  assumes "\<forall>c\<in>set cs. c \<noteq> []" "sublist DOUBLE_CRLF (buf @ concat cs)" "\<not> sublist DOUBLE_CRLF buf"
  shows "\<exists>k. k \<le> length cs \<and> \<not> (\<exists>x. parse_response (buf @ concat (take k cs)) = Some (Inl x) \<and> x = HeadersIncomplete) \<and>
    parse_response (buf @ concat (take k cs)) = parse_response (buf @ concat cs) \<and>
    http_loop buf (map Some cs) =
      Some (http_result (buf @ concat (take k cs)) (the (parse_response (buf @ concat cs))), map Some (drop k cs))"
  using assms
proof (induction cs arbitrary: buf)
  case (Cons ch cs)
  let ?buf = "buf @ ch"
  obtain x where x: "parse_response ?buf = Some x"
    using runs_parse_response [of ?buf] by (auto simp: runs_def)
  show ?case
  proof (cases "x = Inl HeadersIncomplete")
    case True
    then have "\<not> sublist DOUBLE_CRLF ?buf" using x parse_response_incomplete [of ?buf] by simp
    from Cons.IH [OF _ _ this] Cons.prems obtain k where k: "k \<le> length cs"
      "\<not> (\<exists>x. parse_response (?buf @ concat (take k cs)) = Some (Inl x) \<and> x = HeadersIncomplete)"
      "parse_response (?buf @ concat (take k cs)) = parse_response (?buf @ concat cs)"
      "http_loop ?buf (map Some cs) =
        Some (http_result (?buf @ concat (take k cs)) (the (parse_response (?buf @ concat cs))), map Some (drop k cs))"
      by auto
    have "http_loop buf (map Some (ch # cs)) = http_loop ?buf (map Some cs)"
      using x True Cons.prems(1) by (simp add: http_read_def Let_def)
    with k show ?thesis by (intro exI [of _ "Suc k"]) simp
  next
    case False
    have a: "parse_response (?buf @ concat cs) = Some x" by (rule parse_response_append [OF x False])
    have "http_loop buf (map Some (ch # cs)) = Some (http_result ?buf x, map Some cs)"
      using http_read_complete [OF x _ False] Cons.prems(1) by (simp del: http_loop.simps)
    with x a False show ?thesis by (intro exI [of _ 1]) auto
  qed
qed simp

text \<open>
  C24. It does not matter how the response is cut into reads: as soon as the blank line has
  arrived, the outcome is that of the whole stream, and no byte of the binary stream is lost:
  what is left of the buffer and the reads not yet made are what follows the blank line.
\<close>

theorem http_handshake_ignores_chunking:
  assumes "\<forall>c\<in>set cs. c \<noteq> []" "sublist DOUBLE_CRLF (concat cs)"
  shows "\<exists>k. k \<le> length cs \<and>
    (case parse_response (concat cs) of
       Some (Inr (code, off)) \<Rightarrow> code = 200 \<and>
         http_loop [] (map Some cs) = Some (HttpDone (concat (take k cs)) off, map Some (drop k cs)) \<and>
         drop off (concat (take k cs)) @ concat (drop k cs) = drop off (concat cs)
     | Some (Inl e) \<Rightarrow> e \<noteq> HeadersIncomplete \<and>
         http_loop [] (map Some cs) = Some (HttpFailed (ProtocolError (HttpHandshakeFailed e)), map Some (drop k cs))
     | None \<Rightarrow> False)"
proof -
  have "\<not> sublist DOUBLE_CRLF []" by (simp add: DOUBLE_CRLF_def)
  from http_loop_chunks [OF assms(1) _ this] assms(2)
  obtain k where k: "k \<le> length cs" "parse_response (concat (take k cs)) = parse_response (concat cs)"
    "parse_response (concat (take k cs)) \<noteq> Some (Inl HeadersIncomplete)"
    "http_loop [] (map Some cs) =
      Some (http_result (concat (take k cs)) (the (parse_response (concat cs))), map Some (drop k cs))"
    by auto
  obtain x where x: "parse_response (concat cs) = Some x"
    using runs_parse_response [of "concat cs"] by (auto simp: runs_def)
  show ?thesis
  proof (cases x)
    case (Inl e)
    with k x show ?thesis by (intro exI [of _ k]) (auto simp: http_result_def)
  next
    case (Inr y)
    obtain c off where y: "y = (c, off)" by (cases y)
    have o: "off \<le> length (concat (take k cs)) \<and> c = 200"
      using k(2) x Inr y find_double_crlf_Some [of "concat (take k cs)"]
      by (auto simp: parse_response_def Let_def split: option.splits if_splits)
    have "concat cs = concat (take k cs) @ concat (drop k cs)"
      by (metis append_take_drop_id concat_append)
    with o have "drop off (concat (take k cs)) @ concat (drop k cs) = drop off (concat cs)"
      by simp
    with k x Inr y o show ?thesis by (intro exI [of _ k]) (simp add: http_result_def)
  qed
qed

theorem http_handshake_ignores_chunking_witness:
  "\<exists>k. http_loop [] (map Some [[72, 84, 84, 80, 47, 32, 50, 48, 48, 13], [10, 13], [10, 16], [1]]) =
     Some (HttpDone (concat (take k [[72, 84, 84, 80, 47, 32, 50, 48, 48, 13], [10, 13], [10, 16], [1]])) 13,
       map Some (drop k [[72, 84, 84, 80, 47, 32, 50, 48, 48, 13], [10, 13], [10, 16], [1]]))"
proof -
  let ?cs = "[[72, 84, 84, 80, 47, 32, 50, 48, 48, 13], [10, 13], [10, 16], [1]] :: bytes list"
  have p: "parse_response (concat ?cs) = Some (Inr (200, 13))"
    by (simp add: parse_response_def double_crlf_at_def DOUBLE_CRLF_def from_utf8_lossy_def str_lines_def
        strip_eol_def numeral_3_eq_3 starts_with_def lit_def parse_u16_def Let_def)
  then have "sublist DOUBLE_CRLF (concat ?cs)"
    using parse_response_incomplete [of "concat ?cs"] by auto
  moreover have "\<forall>c\<in>set ?cs. c \<noteq> []" by simp
  ultimately obtain k where "case parse_response (concat ?cs) of
       Some (Inr (code, off)) \<Rightarrow> code = 200 \<and>
         http_loop [] (map Some ?cs) = Some (HttpDone (concat (take k ?cs)) off, map Some (drop k ?cs)) \<and>
         drop off (concat (take k ?cs)) @ concat (drop k ?cs) = drop off (concat ?cs)
     | Some (Inl e) \<Rightarrow> e \<noteq> HeadersIncomplete \<and>
         http_loop [] (map Some ?cs) = Some (HttpFailed (ProtocolError (HttpHandshakeFailed e)), map Some (drop k ?cs))
     | None \<Rightarrow> False"
    using http_handshake_ignores_chunking [of ?cs] by blast
  then show ?thesis unfolding p option.case sum.case prod.case by blast
qed

text \<open>
  IP packets pass unchanged. One from the tunnel interface is sent as a data packet whose
  frame is that packet under the protocol number of IP; such a data packet from the server is
  written to the tunnel interface as it is, in every phase, or dropped while there is none.
  Before the tunnel exists nothing is taken from it.
\<close>

theorem ip_packets_pass_unchanged:
  assumes "\<And>w. os_write (os 0) w" "length p \<le> 65527" "reader_buf (c_reader c) = []"
  shows "(case c_utun c of
      None \<Rightarrow> conn_step cr os rnd c (UtunPacket p) = Some ([], Continue c)
    | Some u \<Rightarrow> \<exists>w f. conn_step cr os rnd c (UtunPacket p) = Some ([TlsWrite w], Continue c) \<and>
        packet_decode w = Some (Inr (Data f)) \<and> ppp_decode f = Some (Some (ProtoIp, p))) \<and>
    conn_step cr os rnd c (TlsRead (Some (encode_data (ppp_encode ProtoIp p)))) =
      Some (case c_utun c of None \<Rightarrow> [] | Some u \<Rightarrow> [UtunWrite u p], Continue (c\<lparr>c_unanswered := 0\<rparr>))"
proof -
  let ?f = "ppp_encode ProtoIp p"
  let ?w = "encode_data ?f"
  have w: "packet_decode ?w = Some (Inr (Data ?f))" "ppp_decode ?f = Some (Some (ProtoIp, p))"
    using assms(2) packet_decode_data [of ?f "[]"] by (simp_all add: ppp_decode_encode)
  have ne: "?w \<noteq> []" by (simp add: encode_data_def)
  let ?c = "c\<lparr>c_unanswered := 0, c_reader := reader_push ?w (c_reader c)\<rparr>"
  have "next_packet (c_reader ?c) = Some (Inr (Some (Data ?f)), (c_reader ?c)\<lparr>reader_buf := []\<rparr>)"
    using assms(2,3) by (intro next_packet_wire) (simp_all add: reader_push_def)
  moreover have "on_packet cr (rnd 0) (c_engine ?c) (Data ?f) = Some (c_engine c, [DeliverIpPacket p])"
    using w(2) by (simp add: on_packet_def on_ppp_frame_def)
  moreover have "(c_reader ?c)\<lparr>reader_buf := []\<rparr> = c_reader c"
    using assms(3) by (cases "c_reader c") (simp add: reader_push_def)
  moreover have "c\<lparr>c_unanswered := 0, c_reader := c_reader c, c_engine := c_engine c\<rparr> = c\<lparr>c_unanswered := 0\<rparr>"
    by (cases c) simp
  moreover have "next_packet (c_reader c) = Some (Inr None, c_reader c)"
    using assms(3) by (simp add: next_packet_eq packet_decode_def header_lens)
  moreover have "c\<lparr>c_unanswered := 0, c_reader := c_reader c\<rparr> = c\<lparr>c_unanswered := 0\<rparr>"
    by (cases c) simp
  ultimately have "drain cr os rnd 0 ?c =
      Some (case c_utun c of None \<Rightarrow> [] | Some u \<Rightarrow> [UtunWrite u p], Continue (c\<lparr>c_unanswered := 0\<rparr>))"
    by (simp add: drain.simps [of cr os rnd 0 ?c] drain.simps [of cr os rnd "Suc 0" "c\<lparr>c_unanswered := 0\<rparr>"]
        handle_event_def split: option.split)
  with ne assms(1) w show ?thesis
    by (simp add: conn_step_def Let_def split: option.split)
qed

theorem ip_packets_pass_unchanged_witness:
  "\<exists>c. c_utun c = Some (lit ''utun4'') \<and>
     conn_step toy_crypto (\<lambda>_. \<lparr>os_write = \<lambda>w. True, os_utun = None, os_ifconfig = True\<rparr>)
       (\<lambda>_. \<lparr>rnd_u32 = \<lambda>n. 0, rnd_16 = []\<rparr>) c (TlsRead (Some (encode_data (ppp_encode ProtoIp [69, 0])))) =
     Some ([UtunWrite (lit ''utun4'') [69, 0]], Continue (c\<lparr>c_unanswered := 0\<rparr>))"
proof -
  let ?os = "\<lambda>_::nat. \<lparr>os_write = \<lambda>w::bytes. True, os_utun = None :: rstr option, os_ifconfig = True\<rparr>"
  obtain e where "engine_ok e" by (rule toy_engine)
  define c where "c = \<lparr>c_engine = e, c_reader = reader_new, c_utun = Some (lit ''utun4''), c_unanswered = 2\<rparr>"
  have u: "c_utun c = Some (lit ''utun4'')" "reader_buf (c_reader c) = []" by (simp_all add: c_def reader_new_def)
  have w: "os_write (?os 0) x" for x by simp
  have l: "length [69, 0 :: u8] \<le> 65527" by simp
  from ip_packets_pass_unchanged [OF w l u(2)] u(1) show ?thesis
    by (intro exI [of _ c]) simp
qed

text \<open>
  What follows when the engine reports the tunnel established: without both addresses, or
  when the interface cannot be made or configured, the connection ends with that error and
  nothing is reported to the user; otherwise the interface gets exactly the two addresses.
\<close>

theorem established_outcomes:
  assumes "\<And>w. os_write os w" "routine pre"
  shows "\<exists>acts. (\<forall>a\<in>set acts. (\<exists>w. a = TlsWrite w) \<or> (\<exists>t. a = Report (Progress (EngineTrace t)))) \<and>
    handle_events os c (pre @ [Established nc keys]) =
      (case (nc_local_ip nc, nc_peer_ip nc) of
         (Some local, Some peer) \<Rightarrow>
           (case os_utun os of
              None \<Rightarrow> (acts, Return (Inl UtunFailed))
            | Some name \<Rightarrow>
                if os_ifconfig os
                then (acts @ [ConfigureUtun name local peer, Report (ConnectedEv name nc)],
                      Continue (c\<lparr>c_utun := Some name\<rparr>))
                else (acts @ [ConfigureUtun name local peer], Return (Inl (ProtocolError IfconfigFailed))))
       | _ \<Rightarrow> (acts, Return (Inl (ProtocolError MissingAddress))))"
  using assms(2)
proof (induction pre)
  case Nil
  show ?case
    by (rule exI [of _ "[]"]) (auto simp: handle_event_def split: option.split)
next
  case (Cons ev pre)
  then have "routine pre" by (cases ev) simp_all
  from Cons.IH [OF this] obtain acts where
    a: "\<forall>a\<in>set acts. (\<exists>w. a = TlsWrite w) \<or> (\<exists>t. a = Report (Progress (EngineTrace t)))"
    and h: "handle_events os c (pre @ [Established nc keys]) =
      (case (nc_local_ip nc, nc_peer_ip nc) of
         (Some local, Some peer) \<Rightarrow>
           (case os_utun os of
              None \<Rightarrow> (acts, Return (Inl UtunFailed))
            | Some name \<Rightarrow>
                if os_ifconfig os
                then (acts @ [ConfigureUtun name local peer, Report (ConnectedEv name nc)],
                      Continue (c\<lparr>c_utun := Some name\<rparr>))
                else (acts @ [ConfigureUtun name local peer], Return (Inl (ProtocolError IfconfigFailed))))
       | _ \<Rightarrow> (acts, Return (Inl (ProtocolError MissingAddress))))"
    by blast
  obtain x where x: "handle_event os c ev = ([x], Continue c)"
    "(\<exists>w. x = TlsWrite w) \<or> (\<exists>t. x = Report (Progress (EngineTrace t)))"
    using Cons.prems assms(1) by (cases ev) (auto simp: handle_event_def)
  show ?case
    by (rule exI [of _ "x # acts"]) (use a h x in \<open>auto split: option.split\<close>)
qed

theorem established_outcomes_witness:
  "\<exists>c acts. handle_events \<lparr>os_write = \<lambda>w. True, os_utun = Some (lit ''utun4''), os_ifconfig = True\<rparr> c
     ([Send [1]] @ [Established \<lparr>nc_local_ip = Some (10, 0, 0, 2), nc_peer_ip = None, nc_dns1 = None, nc_dns2 = None\<rparr>
       \<lparr>send_key = [], recv_key = []\<rparr>]) = (acts, Return (Inl (ProtocolError MissingAddress)))"
proof -
  let ?os = "\<lparr>os_write = \<lambda>w::bytes. True, os_utun = Some (lit ''utun4''), os_ifconfig = True\<rparr>"
  obtain a0 c where o: "conn_open toy_crypto 7 ?os (lit ''bob'') (lit ''pw'') [1, 2, 3] [1] 1 = Some (a0, Continue c)"
    by (rule toy_open)
  have w: "os_write ?os x" for x by simp
  have r: "routine [Send [1]]" by simp
  from established_outcomes [OF w r, of c
      "\<lparr>nc_local_ip = Some (10, 0, 0, 2), nc_peer_ip = None, nc_dns1 = None, nc_dns2 = None\<rparr>"
      "\<lparr>send_key = [], recv_key = []\<rparr>"]
  show ?thesis by (simp del: handle_events.simps) blast
qed

end
