(* ===== verification/Utun.thy ===== *)
theory Utun
  imports Rust_Text Ipcp
begin

text \<open>
  The virtual network interface (\<open>utun.rs\<close>) and the thread that reads it (\<open>connection.rs\<close>).
  The system calls are arguments: a call returns its result and what it wrote into the buffers it
  was given, a \<open>read\<close> the bytes it placed at the start of the buffer, of which POSIX promises that
  they are at most as many as were asked for.
\<close>

definition AF_INET :: nat where "AF_INET = 2"
definition AF_SYSTEM :: u8 where "AF_SYSTEM = 32"
definition AF_SYS_CONTROL :: u16 where "AF_SYS_CONTROL = 2"
definition UTUN_CONTROL_NAME :: bytes where
  "UTUN_CONTROL_NAME = utf8 (lit ''com.apple.net.utun_control'') @ [0]"
definition IPV4_FAMILY_HEADER :: bytes where "IPV4_FAMILY_HEADER = [0, 0, 0, of_nat AF_INET]"

record ctl_info =
  ctl_id :: u32
  ctl_name :: bytes

record sockaddr_ctl =
  sc_len :: u8
  sc_family :: u8
  ss_sysaddr :: u16
  sc_id :: u32
  sc_unit :: u32
  sc_reserved :: "u32 list"

definition size_ctl_info :: nat where "size_ctl_info = 4 + 96"
definition size_sockaddr_ctl :: nat where "size_sockaddr_ctl = 1 + 1 + 2 + 4 + 4 + 5 * 4"

definition ctliocginfo :: u32 where
  "ctliocginfo =
     (let IOC_INOUT = 0x80000000 OR 0x40000000; IOCPARM_MASK = 0x1fff; len = of_nat size_ctl_info
      in IOC_INOUT OR push_bit 16 (len AND IOCPARM_MASK) OR push_bit 8 78 OR 3)"

datatype utun_error = SocketFailed | ControlInfoFailed | ConnectFailed | GetIfNameFailed

record utun_os =
  uo_socket :: int
  uo_ioctl :: "u32 \<Rightarrow> ctl_info \<Rightarrow> int \<times> ctl_info"
  uo_connect :: "sockaddr_ctl \<Rightarrow> nat \<Rightarrow> int"
  uo_getsockopt :: "nat \<Rightarrow> int \<times> bytes"  \<comment> \<open>given the room: the result and the name with its NUL\<close>

record utun = u_fd :: int u_name :: rstr

definition write_name :: "bytes \<Rightarrow> bytes \<Rightarrow> bytes" where
  \<comment> \<open>the \<open>zip\<close> loop over \<open>ctl_name\<close>\<close>
  "write_name slots name = take (length slots) name @ drop (length name) slots"

definition sockaddr_for :: "u32 \<Rightarrow> sockaddr_ctl" where
  "sockaddr_for ident =
     \<lparr>sc_len = of_nat size_sockaddr_ctl, sc_family = AF_SYSTEM, ss_sysaddr = AF_SYS_CONTROL,
      sc_id = ident, sc_unit = 0, sc_reserved = replicate 5 0\<rparr>"

definition trim_end_nul :: "rstr \<Rightarrow> rstr" where
  "trim_end_nul s = rev (dropWhile (\<lambda>c. c = 0) (rev s))"

definition utun_create :: "utun_os \<Rightarrow> utun_error + utun" where
  "utun_create os =
     (let raw_fd = uo_socket os
      in if raw_fd < 0 then Inl SocketFailed
         else let info0 = \<lparr>ctl_id = 0, ctl_name = write_name (replicate 96 0) UTUN_CONTROL_NAME\<rparr>;
                  (ret, info) = uo_ioctl os ctliocginfo info0
           in if ret \<noteq> 0 then Inl ControlInfoFailed
              else if uo_connect os (sockaddr_for (ctl_id info)) size_sockaddr_ctl \<noteq> 0 then Inl ConnectFailed
              else let (ret, name_buf) = uo_getsockopt os 64
                in if ret \<noteq> 0 then Inl GetIfNameFailed
                   else Inr \<lparr>u_fd = raw_fd, u_name = trim_end_nul (from_utf8_lossy name_buf)\<rparr>)"

definition show_ipv4 :: "ipv4 \<Rightarrow> rstr" where
  "show_ipv4 a = join [46] (map (\<lambda>b. show_dec (unat b)) (octets a))"

definition configure_ipv4_args :: "utun \<Rightarrow> ipv4 \<Rightarrow> ipv4 \<Rightarrow> rstr list" where
  \<comment> \<open>the arguments of \<open>/sbin/ifconfig\<close>\<close>
  "configure_ipv4_args u local peer = [u_name u, lit ''inet'', show_ipv4 local, show_ipv4 peer, lit ''up'']"

definition configure_ipv4 :: "(rstr list \<Rightarrow> (unit + bool)) \<Rightarrow> utun \<Rightarrow> ipv4 \<Rightarrow> ipv4 \<Rightarrow> unit + unit" where
  \<comment> \<open>\<open>ifconfig\<close>: cannot be started, or whether it succeeded\<close>
  "configure_ipv4 ifconfig u local peer =
     (case ifconfig (configure_ipv4_args u local peer) of
        Inl e \<Rightarrow> Inl e
      | Inr success \<Rightarrow> if success then Inr () else Inl ())"

definition read_packet :: "(nat \<Rightarrow> unit + bytes) \<Rightarrow> bytes \<Rightarrow> (unit + nat \<times> bytes) option" where
  \<comment> \<open>the count and the buffer afterwards\<close>
  "read_packet rd buf =
     (let framed0 = replicate (length buf + 4) 0
      in case rd (length framed0) of
           Inl e \<Rightarrow> Some (Inl e)
         | Inr got \<Rightarrow>
             let n = length got; framed = got @ drop n framed0
             in if n < 4 then Some (Inr (0, buf))
                else do {
                  let payload_len = n - 4;
                  payload \<leftarrow> subslice framed 4 n;
                  buf' \<leftarrow> copy_into buf 0 payload_len payload;
                  Some (Inr (payload_len, buf'))
                })"

definition write_packet :: "(bytes \<Rightarrow> int) \<Rightarrow> bytes \<Rightarrow> unit + unit" where
  "write_packet wr ip_packet =
     (let framed = IPV4_FAMILY_HEADER @ ip_packet; n = wr framed
      in if n < 0 then Inl () else Inr ())"

fun reader_thread :: "bytes \<Rightarrow> (nat \<Rightarrow> unit + bytes) list \<Rightarrow> bytes list option" where
  \<comment> \<open>the packets the \<open>spawn_blocking\<close> thread sends, given what each \<open>read\<close> returns\<close>
  "reader_thread buf [] = Some []"
| "reader_thread buf (r # rs) = do {
     res \<leftarrow> read_packet r buf;
     case res of
       Inl _ \<Rightarrow> Some []
     | Inr (n, buf') \<Rightarrow>
         if n = 0 then reader_thread buf' rs
         else do {
           pkt \<leftarrow> subslice buf' 0 n;
           ps \<leftarrow> reader_thread buf' rs;
           Some (pkt # ps)
         }
   }"

definition BUF_LEN :: nat where "BUF_LEN = 16 * 1024"

section \<open>Facts\<close>

lemma length_header [simp]: "length IPV4_FAMILY_HEADER = 4"
  by (simp add: IPV4_FAMILY_HEADER_def)

lemma read_packet_ok:
  assumes "rd (length buf + 4) = Inr got" "length got \<le> length buf + 4"
  shows "read_packet rd buf =
    Some (Inr (length got - 4, (if length got < 4 then buf else drop 4 got @ drop (length got - 4) buf)))"
  using assms by (simp add: read_packet_def Let_def)

lemma reader_thread_packets:
  assumes "\<forall>g\<in>set gs. length g \<le> length buf + 4"
  shows "reader_thread buf (map (\<lambda>g n. Inr g) gs @ (\<lambda>n. Inl ()) # rest) =
    Some (filter (\<lambda>p. p \<noteq> []) (map (drop 4) gs))"
  using assms
proof (induction gs arbitrary: buf)
  case Nil
  then show ?case by (simp add: read_packet_def Let_def)
next
  case (Cons g gs)
  have r: "read_packet (\<lambda>n. Inr g) buf =
      Some (Inr (length g - 4, (if length g < 4 then buf else drop 4 g @ drop (length g - 4) buf)))"
    using Cons.prems by (intro read_packet_ok) simp_all
  show ?case
  proof (cases "length g \<le> 4")
    case True
    then have "reader_thread buf (map (\<lambda>g n. Inr g) (g # gs) @ (\<lambda>n. Inl ()) # rest) =
        reader_thread buf (map (\<lambda>g n. Inr g) gs @ (\<lambda>n. Inl ()) # rest)"
      using r by simp
    with Cons True show ?thesis by simp
  next
    case False
    let ?b = "drop 4 g @ drop (length g - 4) buf"
    have "length ?b = length buf" using Cons.prems False by simp
    with Cons have "reader_thread ?b (map (\<lambda>g n. Inr g) gs @ (\<lambda>n. Inl ()) # rest) =
        Some (filter (\<lambda>p. p \<noteq> []) (map (drop 4) gs))"
      by simp
    then show ?thesis using r False by simp
  qed
qed

section \<open>Properties\<close>

text \<open>
  C40. The packets pass the device unchanged: whatever sequence of packets is written to an
  interface and comes back frame by frame, as far as each fits the read buffer, is what the reader
  thread hands to the connection, in order, without the empty ones, whatever the buffer holds; the
  thread does not panic on short frames or long ones, and stops at the first error.
\<close>

theorem device_roundtrip:
  assumes "\<forall>p\<in>set ps. length p \<le> length buf" "\<forall>g\<in>set runts. length g \<le> 4"
  shows "reader_thread buf (map (\<lambda>g n. Inr g) (runts @ map (\<lambda>p. IPV4_FAMILY_HEADER @ p) ps) @ (\<lambda>n. Inl ()) # rest) =
      Some (filter (\<lambda>p. p \<noteq> []) ps) \<and>
    (\<forall>p. write_packet wr p = (if wr (IPV4_FAMILY_HEADER @ p) < 0 then Inl () else Inr ()))"
proof -
  have "\<forall>g\<in>set (runts @ map (\<lambda>p. IPV4_FAMILY_HEADER @ p) ps). length g \<le> length buf + 4"
    using assms by fastforce
  from reader_thread_packets [OF this, of rest] assms(2) show ?thesis
    by (simp add: write_packet_def Let_def o_def filter_empty_conv)
qed

theorem device_roundtrip_witness:
  "reader_thread (replicate BUF_LEN 0) (map (\<lambda>g n. Inr g) ([[1, 2, 3]] @ map (\<lambda>p. IPV4_FAMILY_HEADER @ p) [[0x45, 0], [], [0x45]]) @
     (\<lambda>n. Inl ()) # []) = Some [[0x45, 0], [0x45]]"
  using device_roundtrip [of "[[0x45, 0], [], [0x45]]" "replicate BUF_LEN 0" "[[1, 2, 3]]" "[]"]
  by (simp add: BUF_LEN_def del: reader_thread.simps)

text \<open>
  What is asked of the kernel to create an interface: the request number 0xc0644e03 that the
  system documents, with the name of the utun control, padded to its 96 bytes; then a connection
  to the control the kernel named, with unit 0 and a record that announces its own size. When all
  four calls succeed the interface has the name the kernel reported, without the NUL, and
  otherwise the failed call is reported.
\<close>

theorem create_asks_for_a_utun:
  assumes "\<And>i. uo_ioctl os 0xc0644e03 i = (ret, i\<lparr>ctl_id := k\<rparr>)"
    "uo_connect os \<lparr>sc_len = 32, sc_family = 32, ss_sysaddr = 2, sc_id = k, sc_unit = 0, sc_reserved = [0, 0, 0, 0, 0]\<rparr> 32 = con"
    "uo_getsockopt os 64 = (got, utf8 name @ [0])" "\<forall>c\<in>set name. 0 < c \<and> c < 128"
  shows "utun_create os =
      (if uo_socket os < 0 then Inl SocketFailed else if ret \<noteq> 0 then Inl ControlInfoFailed
       else if con \<noteq> 0 then Inl ConnectFailed else if got \<noteq> 0 then Inl GetIfNameFailed
       else Inr \<lparr>u_fd = uo_socket os, u_name = name\<rparr>) \<and>
    length (write_name (replicate 96 0) UTUN_CONTROL_NAME) = 96"
proof -
  have io: "ctliocginfo = 0xc0644e03"
    by (simp add: ctliocginfo_def size_ctl_info_def)
  have sa: "sockaddr_for k = \<lparr>sc_len = 32, sc_family = 32, ss_sysaddr = 2, sc_id = k, sc_unit = 0,
      sc_reserved = [0, 0, 0, 0, 0]\<rparr>" "size_sockaddr_ctl = 32"
    by (simp_all add: sockaddr_for_def size_sockaddr_ctl_def AF_SYSTEM_def AF_SYS_CONTROL_def numeral_eq_Suc)
  have "utf8 name @ [0] = utf8 (name @ [0])" by (simp add: utf8_def utf8_char_def)
  moreover have "\<forall>c\<in>set (name @ [0]). rchar c"
    using assms(4) rchar_ascii by auto
  ultimately have "from_utf8_lossy (utf8 name @ [0]) = name @ [0]"
    using from_utf8_lossy_utf8 [of "name @ [0]"] by simp
  moreover have "dropWhile (\<lambda>c. c = 0) (rev name) = rev name"
    using assms(4) by (cases name rule: rev_cases) simp_all
  ultimately have n: "trim_end_nul (from_utf8_lossy (utf8 name @ [0])) = name"
    by (simp add: trim_end_nul_def)
  have "length UTUN_CONTROL_NAME \<le> 96"
    by (simp add: UTUN_CONTROL_NAME_def lit_def utf8_def utf8_char_def)
  then show ?thesis
    using assms(1-3) sa n by (simp add: utun_create_def io write_name_def Let_def)
qed

theorem create_asks_for_a_utun_witness:
  "utun_create \<lparr>uo_socket = 5, uo_ioctl = \<lambda>r i. (0, i\<lparr>ctl_id := 9\<rparr>), uo_connect = \<lambda>a n. 0,
     uo_getsockopt = \<lambda>n. (0, utf8 (lit ''utun7'') @ [0])\<rparr> = Inr \<lparr>u_fd = 5, u_name = lit ''utun7''\<rparr>"
  using create_asks_for_a_utun [where os = "\<lparr>uo_socket = 5, uo_ioctl = \<lambda>r i. (0, i\<lparr>ctl_id := 9\<rparr>), uo_connect = \<lambda>a n. 0,
     uo_getsockopt = \<lambda>n. (0, utf8 (lit ''utun7'') @ [0])\<rparr>" and ret = 0 and k = 9 and con = 0 and got = 0 and
     name = "lit ''utun7''"] by (simp add: lit_def)

end
