(* ===== verification/Ipc.thy ===== *)
theory Ipc
  imports Rust_Text
begin

text \<open>
  The files by which the GUI and the root worker coordinate (\<open>src/ipc.rs\<close>, \<open>src/log.rs\<close>): the
  state of the support directory and every operation on it. The JSON text of the status file is
  written and read by serde and stands for the record itself; a write that the code ignores the
  failure of succeeds here, one whose failure is reported takes its outcome as an argument. A write
  that fails leaves the file as it was if it could not be opened, and with what was written so far
  if it could: opening it has removed the old text.
  \<open>kill\<close> is the system call with signal 0: its result and \<open>errno\<close>.
\<close>

datatype worker_state = WorkerConnecting | WorkerConnected | WorkerDisconnected | WorkerError

record vpn_status_file =
  vs_state :: "worker_state option"
  vs_interface :: "rstr option"
  vs_local_ip :: "rstr option"
  vs_peer_ip :: "rstr option"
  vs_dns1 :: "rstr option"
  vs_dns2 :: "rstr option"
  vs_message :: "rstr option"
  vs_pid :: "u32 option"

definition default_status :: vpn_status_file where
  "default_status =
     \<lparr>vs_state = None, vs_interface = None, vs_local_ip = None, vs_peer_ip = None,
      vs_dns1 = None, vs_dns2 = None, vs_message = None, vs_pid = None\<rparr>"

record files =
  f_status :: "vpn_status_file option"
  f_disconnect :: bool
  f_password :: "rstr option"
  f_snapshot :: "rstr option"
  f_log :: rstr

definition write_status :: "vpn_status_file \<Rightarrow> files \<Rightarrow> files" where
  "write_status st fs = fs\<lparr>f_status := Some st\<rparr>"

definition read_status :: "files \<Rightarrow> vpn_status_file option" where
  "read_status fs = f_status fs"

definition clear_status :: "files \<Rightarrow> files" where
  "clear_status fs = fs\<lparr>f_status := None\<rparr>"

definition EPERM :: int where "EPERM = 1"

definition pid_alive :: "(u32 \<Rightarrow> int \<times> int) \<Rightarrow> u32 \<Rightarrow> bool" where
  "pid_alive kill pid = (let (ret, errno) = kill pid in ret = 0 \<or> errno = EPERM)"

datatype staging = Staged | StagingWriteFailed rstr "nat option" | StagingModeFailed rstr
  \<comment> \<open>how writing the file and setting its mode go, with the text of the error; of a failed write,
    how many characters it wrote, \<open>None\<close> when the file could not be opened\<close>

definition write_pending_password :: "staging \<Rightarrow> rstr \<Rightarrow> files \<Rightarrow> (rstr + unit) \<times> files" where
  "write_pending_password staging password fs =
     (case staging of
        StagingWriteFailed e written \<Rightarrow>
          (Inl e, case written of None \<Rightarrow> fs | Some n \<Rightarrow> fs\<lparr>f_password := Some (take n password)\<rparr>)
      | _ \<Rightarrow>
          let fs1 = fs\<lparr>f_password := Some password\<rparr>
          in (case staging of StagingModeFailed e \<Rightarrow> (Inl e, fs1) | _ \<Rightarrow> (Inr (), fs1)))"

definition take_pending_password :: "files \<Rightarrow> (unit + rstr) \<times> files" where
  "take_pending_password fs =
     (let result = (case f_password fs of Some p \<Rightarrow> Inr p | None \<Rightarrow> Inl ())
      in (result, fs\<lparr>f_password := None\<rparr>))"

definition request_disconnect :: "files \<Rightarrow> files" where
  "request_disconnect fs = fs\<lparr>f_disconnect := True\<rparr>"

definition disconnect_requested :: "files \<Rightarrow> bool" where
  "disconnect_requested fs = f_disconnect fs"

definition clear_disconnect_request :: "files \<Rightarrow> files" where
  "clear_disconnect_request fs = fs\<lparr>f_disconnect := False\<rparr>"

definition append_to :: "rstr \<Rightarrow> files \<Rightarrow> files" where
  \<comment> \<open>\<open>append_to\<close> with the log's path\<close>
  "append_to line fs = fs\<lparr>f_log := f_log fs @ line @ [10]\<rparr>"

definition log_tail :: "nat \<Rightarrow> files \<Rightarrow> rstr" where
  "log_tail max_lines fs =
     (let ls = str_lines (f_log fs);
          start = length ls - max_lines
      in join [10] (drop start ls))"

section \<open>Facts\<close>

lemmas ipc_defs = write_status_def read_status_def clear_status_def write_pending_password_def
  take_pending_password_def request_disconnect_def disconnect_requested_def
  clear_disconnect_request_def append_to_def

lemma raw_lines_append:
  "s = [] \<or> last s = 10 \<Longrightarrow> raw_lines (s @ t) = raw_lines s @ raw_lines t"
proof (induction s)
  case (Cons c s)
  show ?case
  proof (cases "s = []")
    case True
    with Cons.prems show ?thesis by simp
  next
    case False
    with Cons have "raw_lines (s @ t) = raw_lines s @ raw_lines t" by simp
    moreover have "raw_lines s \<noteq> []" using False by (cases s) (auto split: list.split)
    ultimately show ?thesis by (auto split: list.splits)
  qed
qed simp

definition log_ok :: "files \<Rightarrow> bool" where
  \<comment> \<open>the log ends at the end of a line\<close>
  "log_ok fs \<longleftrightarrow> f_log fs = [] \<or> last (f_log fs) = 10"

lemma append_to_ok: "log_ok (append_to line fs)"
  by (simp add: log_ok_def append_to_def)

lemma str_lines_append_to:
  assumes "log_ok fs" "10 \<notin> set line" "line = [] \<or> last line \<noteq> 13"
  shows "str_lines (f_log (append_to line fs)) = str_lines (f_log fs) @ [line]"
proof -
  have "raw_lines (line @ [10]) = [line @ [10]]"
    using raw_lines_line [OF assms(2), of "[]"] by simp
  moreover have "strip_eol (line @ [10]) = line"
    using assms(3) by (auto simp: strip_eol_def Let_def)
  ultimately show ?thesis
    using assms(1) raw_lines_append [of "f_log fs" "line @ [10]"]
    by (simp add: str_lines_def append_to_def log_ok_def)
qed

primrec append_all :: "rstr list \<Rightarrow> files \<Rightarrow> files" where
  "append_all [] fs = fs"
| "append_all (l # ls) fs = append_all ls (append_to l fs)"

lemma str_lines_append_all:
  "log_ok fs \<Longrightarrow> \<forall>l\<in>set ls. 10 \<notin> set l \<and> (l = [] \<or> last l \<noteq> 13) \<Longrightarrow>
   str_lines (f_log (append_all ls fs)) = str_lines (f_log fs) @ ls"
proof (induction ls arbitrary: fs)
  case (Cons l ls)
  then have "str_lines (f_log (append_to l fs)) = str_lines (f_log fs) @ [l]"
    by (intro str_lines_append_to) auto
  with Cons.IH [OF append_to_ok, of l fs] Cons.prems show ?case by simp
qed simp

section \<open>Properties\<close>

text \<open>
  The log panel shows the last lines that were appended, in order, one per line, at most as
  many as asked for; older lines and lines of earlier sessions appear only as long as there is
  room.
\<close>

theorem log_tail_shows_last_lines:
  assumes "log_ok fs" "\<forall>l\<in>set ls. 10 \<notin> set l \<and> (l = [] \<or> last l \<noteq> 13)"
  shows "log_tail n (append_all ls fs) =
      join [10] (drop (length (str_lines (f_log fs)) + length ls - n) (str_lines (f_log fs) @ ls)) \<and>
    (n \<le> length ls \<longrightarrow> log_tail n (append_all ls fs) = join [10] (drop (length ls - n) ls))"
  using str_lines_append_all [OF assms] by (simp add: log_tail_def)

theorem log_tail_shows_last_lines_witness:
  "log_tail 2 (append_all [[97], [98], [99]] \<lparr>f_status = None, f_disconnect = False, f_password = None,
     f_snapshot = None, f_log = [120, 10]\<rparr>) = [98, 10, 99]"
  using log_tail_shows_last_lines [of "\<lparr>f_status = None, f_disconnect = False, f_password = None,
     f_snapshot = None, f_log = [120, 10]\<rparr>" "[[97], [98], [99]]" 2] by (simp add: log_ok_def)

end
