(* ===== verification/Elevate.thy ===== *)
theory Elevate
  imports Rust_Text
begin

text \<open>
  Quoting and the command lines of the privileged helper (\<open>src/elevate.rs\<close>, the command built by
  \<open>spawn_connect\<close> and the argument dispatch of \<open>main\<close> in \<open>src/main.rs\<close>). A quoted text is
  read by programs that are not part of this one: \<open>shell_words\<close> and \<open>as_literal\<close> are the
  documented rules by which \<open>/bin/sh\<close> splits a simple command into words and AppleScript
  reads a string literal, as far as the properties need them.
\<close>

section \<open>Quoting\<close>

definition QUOTE :: nat where "QUOTE = 39"
definition BACKSLASH_CH :: nat where "BACKSLASH_CH = 92"
definition DQUOTE :: nat where "DQUOTE = 34"

lemmas quote_chars [simp] = QUOTE_def BACKSLASH_CH_def DQUOTE_def

definition shell_quote :: "rstr \<Rightarrow> rstr" where
  "shell_quote s = [QUOTE] @ replace_char QUOTE [QUOTE, BACKSLASH_CH, QUOTE, QUOTE] s @ [QUOTE]"

definition applescript_quote :: "rstr \<Rightarrow> rstr" where
  "applescript_quote s =
     replace_char DQUOTE [BACKSLASH_CH, DQUOTE] (replace_char BACKSLASH_CH [BACKSLASH_CH, BACKSLASH_CH] s)"

definition notification_script :: "rstr \<Rightarrow> rstr \<Rightarrow> rstr" where
  \<comment> \<open>the script of \<open>show_notification\<close>\<close>
  "notification_script title message =
     lit ''display notification \"'' @ applescript_quote message @ lit ''\" with title \"'' @
     applescript_quote title @ lit ''\"''"

definition elevated_script :: "rstr \<Rightarrow> rstr" where
  \<comment> \<open>the script of \<open>run_elevated\<close>\<close>
  "elevated_script shell_cmd =
     lit ''do shell script \"'' @ applescript_quote shell_cmd @ lit ''\" with administrator privileges''"

record command_output =
  co_success :: bool
  co_stdout :: bytes
  co_stderr :: bytes

definition run_elevated :: "(rstr \<Rightarrow> rstr + command_output) \<Rightarrow> rstr \<Rightarrow> rstr + rstr" where
  \<comment> \<open>\<open>osascript\<close> runs a script, or cannot be started; \<open>Inl\<close> is the error\<close>
  "run_elevated osascript shell_cmd =
     (case osascript (elevated_script shell_cmd) of
        Inl e \<Rightarrow> Inl e
      | Inr out \<Rightarrow>
          if co_success out then Inr (from_utf8_lossy (co_stdout out))
          else Inl (from_utf8_lossy (co_stderr out)))"

section \<open>The readers of quoted texts\<close>

datatype lex_state = Bare | Quoted | Escape

definition plain_char :: "nat \<Rightarrow> bool" where
  \<comment> \<open>characters without a special meaning: letters, digits, \<open>-\<close>, \<open>.\<close>, \<open>/\<close>\<close>
  "plain_char c \<longleftrightarrow> 45 \<le> c \<and> c \<le> 57 \<or> 65 \<le> c \<and> c \<le> 90 \<or> 97 \<le> c \<and> c \<le> 122"

fun sh_word :: "lex_state \<Rightarrow> rstr \<Rightarrow> rstr \<Rightarrow> (rstr \<times> rstr) option" where
  \<comment> \<open>one word, up to a blank or the end; \<open>None\<close> when a quote is left open or an unquoted
    character is special to the shell\<close>
  "sh_word Bare acc [] = Some (acc, [])"
| "sh_word Quoted acc [] = None"
| "sh_word Escape acc [] = None"
| "sh_word Bare acc (c # s) =
     (if c = 32 then Some (acc, c # s)
      else if c = 39 then sh_word Quoted acc s
      else if c = 92 then sh_word Escape acc s
      else if plain_char c then sh_word Bare (acc @ [c]) s
      else None)"
| "sh_word Quoted acc (c # s) = (if c = 39 then sh_word Bare acc s else sh_word Quoted (acc @ [c]) s)"
| "sh_word Escape acc (c # s) = (if c = 10 then None else sh_word Bare (acc @ [c]) s)"

lemma sh_word_rest: "sh_word st acc s = Some (w, r) \<Longrightarrow> length r \<le> length s"
  by (induction st acc s rule: sh_word.induct) (auto split: if_splits)

lemma sh_word_progress:
  "sh_word Bare [] (c # s) = Some (w, r) \<Longrightarrow> c \<noteq> 32 \<Longrightarrow> length r < length (c # s)"
  by (auto dest!: sh_word_rest split: if_splits)

function shell_words :: "rstr \<Rightarrow> rstr list option" where
  \<comment> \<open>the words of a simple command\<close>
  "shell_words [] = Some []"
| "shell_words (c # s) =
     (if c = 32 then shell_words s
      else case sh_word Bare [] (c # s) of
             None \<Rightarrow> None
           | Some (w, r) \<Rightarrow> map_option ((#) w) (shell_words r))"
  by pat_completeness auto
termination
  by (relation "measure length") (auto dest: sh_word_progress simp del: sh_word.simps)

fun as_literal :: "rstr \<Rightarrow> (rstr \<times> rstr) option" where
  \<comment> \<open>an AppleScript literal behind its opening quote: its text and what follows the closing quote\<close>
  "as_literal [] = None"
| "as_literal (c # s) =
     (if c = 34 then Some ([], s)
      else if c = 92 then
        (case s of
           [] \<Rightarrow> None
         | d # s' \<Rightarrow>
             if d = 92 \<or> d = 34 then map_option (\<lambda>(t, r). (d # t, r)) (as_literal s') else None)
      else map_option (\<lambda>(t, r). (c # t, r)) (as_literal s))"

text \<open>What it means for a quoting to be safe for a reader, whatever the text.\<close>

locale quoting =
  fixes quoted :: "rstr \<Rightarrow> rstr"
    and reader :: "rstr \<Rightarrow> (rstr \<times> rstr) option"
    and delimited :: "rstr \<Rightarrow> bool"
  assumes reads_back: "delimited r \<Longrightarrow> reader (quoted s @ r) = Some (s, r)"
    and delimited_Nil: "delimited []"
begin

lemma quoted_inj: "quoted s = quoted t \<Longrightarrow> s = t"
  using reads_back [OF delimited_Nil, of s] reads_back [OF delimited_Nil, of t] by simp

lemma no_confusion:
  "delimited r \<Longrightarrow> delimited r' \<Longrightarrow> quoted s @ r = quoted t @ r' \<Longrightarrow> s = t \<and> r = r'"
  by (metis reads_back option.inject prod.inject)

end

lemma sh_word_quoted:
  "sh_word Quoted acc (replace_char 39 [39, 92, 39, 39] s @ 39 # r) = sh_word Bare (acc @ s) r"
proof (induction s arbitrary: acc)
  case (Cons c s)
  then show ?case by (cases "c = 39") (simp_all add: replace_char_def)
qed (simp add: replace_char_def)

lemma as_literal_quote: "as_literal (applescript_quote s @ 34 # r) = Some (s, r)"
proof (induction s)
  case (Cons c s)
  then show ?case by (auto simp: applescript_quote_def replace_char_def)
qed (simp add: applescript_quote_def replace_char_def)

interpretation sh: quoting shell_quote "sh_word Bare []" "\<lambda>r. r = [] \<or> hd r = 32"
proof
  show "sh_word Bare [] (shell_quote s @ r) = Some (s, r)" if "r = [] \<or> hd r = 32" for s r
    using that by (cases r) (auto simp: shell_quote_def sh_word_quoted)
qed simp

interpretation applescript: quoting "\<lambda>s. applescript_quote s @ [DQUOTE]" as_literal "\<lambda>r. True"
  by unfold_locales (simp_all add: as_literal_quote)

section \<open>The command line of the worker\<close>

definition WORKER_FLAG :: rstr where "WORKER_FLAG = lit ''--vpn-worker''"

definition connect_command :: "rstr \<Rightarrow> rstr \<Rightarrow> rstr \<Rightarrow> rstr" where
  \<comment> \<open>the command \<open>spawn_connect\<close> hands to \<open>run_elevated\<close>\<close>
  "connect_command exe server username =
     shell_quote exe @ [32] @ WORKER_FLAG @ [32] @ shell_quote server @ [32] @ shell_quote username"

datatype launch = RunWorker rstr rstr | UsageExit nat | RunGui

definition main_dispatch :: "rstr list \<Rightarrow> launch" where
  \<comment> \<open>the start of \<open>main\<close>\<close>
  "main_dispatch args =
     (if idx args 1 = Some WORKER_FLAG
      then case (idx args 2, idx args 3) of
             (Some server, Some username) \<Rightarrow> RunWorker server username
           | _ \<Rightarrow> UsageExit 2
      else RunGui)"

lemma shell_words_quote:
  assumes "r = [] \<or> hd r = 32"
  shows "shell_words (shell_quote s @ r) = map_option ((#) s) (shell_words r)"
proof -
  obtain x where x: "shell_quote s @ r = 39 # x" by (simp add: shell_quote_def)
  have "sh_word Bare [] (39 # x) = Some (s, r)"
    using sh.reads_back [OF assms, of s] x by simp
  then show ?thesis unfolding x by (simp del: sh_word.simps)
qed

lemma sh_word_plain: "list_all plain_char w \<Longrightarrow> sh_word Bare acc (w @ 32 # r) = Some (acc @ w, 32 # r)"
proof (induction w arbitrary: acc)
  case (Cons c w)
  then have "c \<noteq> 32" "c \<noteq> 39" "c \<noteq> 92" by (auto simp: plain_char_def)
  with Cons show ?case by simp
qed simp

lemma shell_words_plain:
  assumes "list_all plain_char w" "w \<noteq> []"
  shows "shell_words (w @ 32 # r) = map_option ((#) w) (shell_words r)"
proof -
  obtain c w' where w: "w = c # w'" using assms(2) by (cases w) auto
  then have "c \<noteq> 32" using assms(1) by (auto simp: plain_char_def)
  moreover have "sh_word Bare [] (c # w' @ 32 # r) = Some (w, 32 # r)"
    using sh_word_plain [OF assms(1), of "[]" r] by (simp add: w)
  ultimately show ?thesis by (simp add: w del: sh_word.simps)
qed

lemma connect_command_words:
  "shell_words (connect_command exe server username) = Some [exe, WORKER_FLAG, server, username]"
proof -
  have f: "list_all plain_char WORKER_FLAG" "WORKER_FLAG \<noteq> []"
    by (simp_all add: WORKER_FLAG_def lit_def plain_char_def)
  have u: "shell_words (shell_quote username) = Some [username]"
    using shell_words_quote [of "[]" username] by simp
  have "shell_words (shell_quote server @ 32 # shell_quote username) = Some [server, username]"
    using shell_words_quote [of "32 # shell_quote username" server] u by simp
  then have "shell_words (WORKER_FLAG @ 32 # shell_quote server @ 32 # shell_quote username) =
      Some [WORKER_FLAG, server, username]"
    using shell_words_plain [OF f] by simp
  then show ?thesis
    using shell_words_quote [of "32 # WORKER_FLAG @ 32 # shell_quote server @ 32 # shell_quote username" exe]
    by (simp add: connect_command_def)
qed

section \<open>Properties\<close>

text \<open>
  C20. Nothing in the path of the program, the server name or the user name can change the
  command that runs as root: AppleScript reads exactly the built command out of the script, the
  shell splits it into exactly four words, and the program so started runs the worker with
  exactly this server and user.
\<close>

theorem elevated_command_is_not_injectable:
  "(\<exists>script. elevated_script (connect_command exe server username) = lit ''do shell script \"'' @ script \<and>
      as_literal script = Some (connect_command exe server username, lit '' with administrator privileges'')) \<and>
   shell_words (connect_command exe server username) = Some [exe, WORKER_FLAG, server, username] \<and>
   main_dispatch [exe, WORKER_FLAG, server, username] = RunWorker server username"
proof (intro conjI)
  let ?cmd = "connect_command exe server username"
  have "lit ''\" with administrator privileges'' = 34 # lit '' with administrator privileges''"
    by (simp add: lit_def)
  then have "elevated_script ?cmd = lit ''do shell script \"'' @
      (applescript_quote ?cmd @ 34 # lit '' with administrator privileges'')"
    by (simp add: elevated_script_def)
  then show "\<exists>script. elevated_script ?cmd = lit ''do shell script \"'' @ script \<and>
      as_literal script = Some (?cmd, lit '' with administrator privileges'')"
    using as_literal_quote by blast
  show "shell_words ?cmd = Some [exe, WORKER_FLAG, server, username]"
    by (rule connect_command_words)
  show "main_dispatch [exe, WORKER_FLAG, server, username] = RunWorker server username"
    by (simp add: main_dispatch_def)
qed

text \<open>
  The quoting of both languages is exact for every text, the empty and hostile ones too: the
  reader gets the text back and stops where the quoting ends. So different texts are quoted
  differently, and a notification shows its title and message unchanged.
\<close>

theorem quoting_reads_back:
  assumes "r = [] \<or> hd r = 32"
  shows "sh_word Bare [] (shell_quote s @ r) = Some (s, r) \<and>
   as_literal (applescript_quote s @ DQUOTE # r) = Some (s, r) \<and>
   (shell_quote s = shell_quote t) = (s = t) \<and> (applescript_quote s = applescript_quote t) = (s = t) \<and>
   (\<exists>x y. notification_script s t = lit ''display notification \"'' @ x \<and>
      as_literal x = Some (t, lit '' with title \"'' @ y) \<and> as_literal y = Some (s, []))"
proof -
  have "lit ''\" with title \"'' = 34 # lit '' with title \"''" "lit ''\"'' = [34]"
    by (simp_all add: lit_def)
  then have "notification_script s t = lit ''display notification \"'' @
      (applescript_quote t @ 34 # lit '' with title \"'' @ (applescript_quote s @ 34 # []))"
    by (simp add: notification_script_def)
  then have "\<exists>x y. notification_script s t = lit ''display notification \"'' @ x \<and>
      as_literal x = Some (t, lit '' with title \"'' @ y) \<and> as_literal y = Some (s, [])"
    using as_literal_quote by blast
  then show ?thesis
    using sh.reads_back [OF assms, of s] sh.quoted_inj [of s t] applescript.quoted_inj [of s t] as_literal_quote
    by (auto simp del: sh_word.simps as_literal.simps)
qed

theorem quoting_reads_back_witness:
  "sh_word Bare [] (shell_quote [39, 59, 36, 40, 92] @ [32, 35]) = Some ([39, 59, 36, 40, 92], [32, 35])"
  using quoting_reads_back [of "[32, 35]" "[39, 59, 36, 40, 92]" "[]"] by simp

end
