(* ===== verification/Route.thy ===== *)
theory Route
  imports Ipc Elevate
begin

text \<open>
  The default-route safety net (\<open>src/route.rs\<close>). What commands print and whether they succeed are
  arguments: \<open>route_get\<close> for \<open>route -n get default\<close> (\<open>None\<close> when it cannot be started),
  \<open>ifconfig\<close> for the existence of an interface. \<open>HEALING_IN_PROGRESS\<close> is a flag of the state.
\<close>

fun find_map :: "('a \<Rightarrow> 'b option) \<Rightarrow> 'a list \<Rightarrow> 'b option" where
  "find_map f [] = None"
| "find_map f (x # xs) = (case f x of Some y \<Rightarrow> Some y | None \<Rightarrow> find_map f xs)"

definition current_default_route :: "command_output option \<Rightarrow> (rstr \<times> rstr) option" where
  "current_default_route out0 = do {
     out \<leftarrow> out0;
     if \<not> co_success out then None
     else do {
       let text = from_utf8_lossy (co_stdout out);
       g \<leftarrow> find_map (\<lambda>l. strip_prefix (lit ''gateway: '') (trim l)) (str_lines text);
       let gateway = trim g;
       i \<leftarrow> find_map (\<lambda>l. strip_prefix (lit ''interface: '') (trim l)) (str_lines text);
       let iface = trim i;
       Some (gateway, iface)
     }
   }"

definition owned_by_live_worker :: "(u32 \<Rightarrow> int \<times> int) \<Rightarrow> files \<Rightarrow> rstr \<Rightarrow> bool" where
  "owned_by_live_worker kill fs iface =
     (case read_status fs of
        None \<Rightarrow> False
      | Some status \<Rightarrow>
          (case vs_interface status of
             None \<Rightarrow> False
           | Some status_iface \<Rightarrow>
               if status_iface \<noteq> iface then False
               else (case vs_pid status of Some pid \<Rightarrow> pid_alive kill pid | None \<Rightarrow> False)))"

record machine =
  m_kill :: "u32 \<Rightarrow> int \<times> int"
  m_route_get :: "command_output option"
  m_ifconfig :: "rstr \<Rightarrow> bool"

definition is_utun :: "rstr \<Rightarrow> bool" where
  "is_utun iface = starts_with (lit ''utun'') iface"

definition has_default_route :: "machine \<Rightarrow> files \<Rightarrow> bool" where
  "has_default_route m fs =
     (case current_default_route (m_route_get m) of
        None \<Rightarrow> False
      | Some (_, iface) \<Rightarrow>
          if is_utun iface \<and> \<not> owned_by_live_worker (m_kill m) fs iface then False
          else m_ifconfig m iface)"

definition save_route_snapshot :: "machine \<Rightarrow> files \<Rightarrow> files" where
  "save_route_snapshot m fs =
     (case current_default_route (m_route_get m) of
        Some (gateway, iface) \<Rightarrow>
          if \<not> (is_utun iface \<and> owned_by_live_worker (m_kill m) fs iface)
          then fs\<lparr>f_snapshot := Some gateway\<rparr> else fs
      | None \<Rightarrow> fs)"

definition load_route_snapshot :: "files \<Rightarrow> rstr option" where
  "load_route_snapshot fs =
     (case f_snapshot fs of
        None \<Rightarrow> None
      | Some s \<Rightarrow> let t = trim s in if t \<noteq> [] then Some t else None)"

definition clear_route_snapshot :: "files \<Rightarrow> files" where
  "clear_route_snapshot fs = fs\<lparr>f_snapshot := None\<rparr>"

definition cleanup_fragment :: "(u32 \<Rightarrow> int \<times> int) \<Rightarrow> files \<Rightarrow> rstr" where
  "cleanup_fragment kill fs =
     (let cmd = lit ''dscacheutil -flushcache 2>/dev/null; killall -HUP mDNSResponder 2>/dev/null''
      in case read_status fs of
           Some status \<Rightarrow>
             (case vs_pid status of
                Some pid \<Rightarrow>
                  if pid_alive kill pid
                  then lit ''kill -9 '' @ show_dec (unat pid) @ lit '' 2>/dev/null; '' @ cmd else cmd
              | None \<Rightarrow> cmd)
         | None \<Rightarrow> cmd)"

datatype heal_action =
    Elevated rstr
  | HealLog rstr
  | Diagnostics rstr  \<comment> \<open>\<open>log_network_diagnostics\<close>\<close>
  | NotifyRestored
  | NotifyFailed
  | Sleep

definition route_command :: "rstr \<Rightarrow> rstr" where
  "route_command gw =
     lit ''route -n add default '' @ shell_quote gw @ lit '' 2>/dev/null || route -n change default '' @
     shell_quote gw @ lit ''; ''"

definition MAX_ATTEMPTS :: nat where "MAX_ATTEMPTS = 4"

fun heal_attempts ::
  "(nat \<Rightarrow> machine) \<Rightarrow> (nat \<Rightarrow> vpn_status_file option) \<Rightarrow> bool \<Rightarrow> rstr \<Rightarrow> nat list \<Rightarrow> files \<Rightarrow> heal_action list \<times> files" where
  \<comment> \<open>the \<open>for\<close> loop; \<open>m k\<close> is the machine and \<open>st k\<close> the status file once attempt \<open>k\<close> has run,
    \<open>m (k - 1)\<close> and \<open>st (k - 1)\<close> before it\<close>
  "heal_attempts m st notify gw [] fs =
     ([HealLog (lit ''failed to restore default route automatically after retries, keeping snapshot for the next attempt''),
       Diagnostics (lit ''heal: restore failed after retries''), NotifyFailed], fs)"
| "heal_attempts m st notify gw (k # ks) fs =
     (let cmd = Elevated (route_command gw @ cleanup_fragment (m_kill (m (k - 1))) (fs\<lparr>f_status := st (k - 1)\<rparr>));
          fs1 = fs\<lparr>f_status := st k\<rparr>
      in if has_default_route (m k) fs1
         then ([cmd, HealLog (lit ''default route restored (attempt '' @ show_dec k @ [47] @ show_dec MAX_ATTEMPTS @ lit '')'')] @
               (if notify then [NotifyRestored] else []), clear_route_snapshot fs1)
         else let (acts, fs') = heal_attempts m st notify gw ks fs1
           in (cmd # (if k < MAX_ATTEMPTS then [Sleep] else []) @ acts, fs'))"

definition heal_thread ::
  "(nat \<Rightarrow> machine) \<Rightarrow> (nat \<Rightarrow> vpn_status_file option) \<Rightarrow> bool \<Rightarrow> files \<Rightarrow> heal_action list \<times> files" where
  \<comment> \<open>the spawned thread\<close>
  "heal_thread m st notify fs =
     (case load_route_snapshot fs of
        None \<Rightarrow>
          ([HealLog (lit ''internet looks down and no pre-VPN gateway was saved to restore''),
            Diagnostics (lit ''heal: no snapshot available''),
            Elevated (cleanup_fragment (m_kill (m 0)) (fs\<lparr>f_status := st 0\<rparr>))], fs\<lparr>f_status := st 0\<rparr>)
      | Some gw \<Rightarrow>
          let (acts, fs') = heal_attempts m st notify gw [1..<Suc MAX_ATTEMPTS] fs
          in (HealLog (lit ''default route missing after VPN teardown, restoring gateway '' @ gw @ lit ''...'') # acts, fs'))"

datatype heal_outcome = RouteFine | AlreadyHealing | ThreadSpawned

definition heal_route_if_broken :: "machine \<Rightarrow> bool \<Rightarrow> files \<Rightarrow> heal_outcome \<times> bool \<times> files" where
  \<comment> \<open>the call itself: with the flag before and after\<close>
  "heal_route_if_broken m healing fs =
     (if has_default_route m fs then (RouteFine, healing, clear_route_snapshot fs)
      else if healing then (AlreadyHealing, healing, fs)
      else (ThreadSpawned, True, fs))"

section \<open>Properties\<close>

definition restored_at :: "(nat \<Rightarrow> machine) \<Rightarrow> (nat \<Rightarrow> vpn_status_file option) \<Rightarrow> files \<Rightarrow> nat \<Rightarrow> bool" where
  \<comment> \<open>the check behind attempt \<open>k\<close> finds a working default route\<close>
  "restored_at m st fs k \<longleftrightarrow> has_default_route (m k) (fs\<lparr>f_status := st k\<rparr>)"

lemma restored_at_status [simp]: "restored_at m st (fs\<lparr>f_status := x\<rparr>) k = restored_at m st fs k"
  by (simp add: restored_at_def)

lemma heal_attempts_snapshot:
  "\<exists>x. snd (heal_attempts m st notify gw ks fs) =
     (if \<exists>k\<in>set ks. restored_at m st fs k then clear_route_snapshot fs else fs)\<lparr>f_status := x\<rparr>"
proof (induction ks arbitrary: fs)
  case Nil
  show ?case by (rule exI [of _ "f_status fs"]) simp
next
  case (Cons k ks)
  show ?case
  proof (cases "restored_at m st fs k")
    case True
    then show ?thesis
      by (intro exI [of _ "st k"]) (simp add: restored_at_def clear_route_snapshot_def Let_def)
  next
    case False
    obtain x where "snd (heal_attempts m st notify gw ks (fs\<lparr>f_status := st k\<rparr>)) =
        (if \<exists>k\<in>set ks. restored_at m st fs k then clear_route_snapshot (fs\<lparr>f_status := st k\<rparr>)
         else fs\<lparr>f_status := st k\<rparr>)\<lparr>f_status := x\<rparr>"
      using Cons.IH [of "fs\<lparr>f_status := st k\<rparr>"] by auto
    with False show ?thesis
      by (intro exI [of _ x]) (auto simp: restored_at_def clear_route_snapshot_def Let_def split: prod.splits)
  qed
qed

lemma heal_attempts_elevated:
  "length (filter (\<lambda>a. \<exists>c. a = Elevated c) (fst (heal_attempts m st notify gw ks fs))) \<le> length ks"
  by (induction m st notify gw ks fs rule: heal_attempts.induct) (auto simp: Let_def split: prod.splits)

lemma heal_attempts_notify:
  "(NotifyRestored \<in> set (fst (heal_attempts m st notify gw ks fs)) \<longleftrightarrow>
      notify \<and> (\<exists>k\<in>set ks. restored_at m st fs k)) \<and>
   (NotifyFailed \<in> set (fst (heal_attempts m st notify gw ks fs)) \<longleftrightarrow>
      \<not> (\<exists>k\<in>set ks. restored_at m st fs k))"
  by (induction m st notify gw ks fs rule: heal_attempts.induct)
    (auto simp: Let_def restored_at_def split: prod.splits)

lemma heal_attempts_status:
  "f_status fs = x \<Longrightarrow> f_status (snd (heal_attempts m (\<lambda>k. x) notify gw ks fs)) = x"
proof (induction ks arbitrary: fs)
  case (Cons k ks)
  then have "f_status (snd (heal_attempts m (\<lambda>k. x) notify gw ks (fs\<lparr>f_status := x\<rparr>))) = x" by simp
  moreover obtain as fs' where "heal_attempts m (\<lambda>k. x) notify gw ks (fs\<lparr>f_status := x\<rparr>) = (as, fs')"
    by fastforce
  ultimately show ?case by (simp add: Let_def clear_route_snapshot_def)
qed simp

text \<open>
  C19. The way back is never lost, whatever happens to the machine and to the status file between
  the attempts: a healing thread gives up the saved gateway only when one of its attempts was
  confirmed to have restored a working default route, and touches no other file but the log; it runs
  at most four elevated commands, the user is told of the recovery only if asked for, and of a
  failure always. A second call while a thread is running does nothing.
\<close>

theorem snapshot_kept_until_restored:
  assumes "load_route_snapshot fs = Some gw"
  shows "let (acts, fs') = heal_thread m st notify fs;
             restored = (\<exists>k\<in>{1..4}. has_default_route (m k) (fs\<lparr>f_status := st k\<rparr>))
    in (if restored then f_snapshot fs' = None else \<exists>x. fs' = fs\<lparr>f_status := x\<rparr>) \<and>
       ((\<forall>k. st k = f_status fs) \<and> \<not> restored \<longrightarrow> fs' = fs) \<and>
       length (filter (\<lambda>a. \<exists>c. a = Elevated c) acts) \<le> 4 \<and>
       (NotifyRestored \<in> set acts \<longleftrightarrow> notify \<and> restored) \<and> (NotifyFailed \<in> set acts \<longleftrightarrow> \<not> restored) \<and>
       (\<not> has_default_route m0 fs \<longrightarrow> heal_route_if_broken m0 True fs = (AlreadyHealing, True, fs))"
proof -
  define ks where "ks = [1..<Suc MAX_ATTEMPTS]"
  have ks: "set ks = {1..4}" "length ks = 4"
    by (auto simp: ks_def MAX_ATTEMPTS_def)
  obtain acts fs' where h: "heal_attempts m st notify gw ks fs = (acts, fs')"
    by fastforce
  have keep: "f_status fs' = f_status fs" if "\<forall>k. st k = f_status fs"
  proof -
    have "st = (\<lambda>k. f_status fs)" using that by auto
    then show ?thesis using heal_attempts_status [of fs "f_status fs" m notify gw ks] h by simp
  qed
  obtain x where x: "fs' = (if \<exists>k\<in>{1..4}. restored_at m st fs k then clear_route_snapshot fs else fs)\<lparr>f_status := x\<rparr>"
    using heal_attempts_snapshot [of m st notify gw ks fs] h ks by auto
  obtain l where "heal_thread m st notify fs = (HealLog l # acts, fs')"
    using assms h unfolding heal_thread_def ks_def [symmetric] by simp
  then show ?thesis
    using x keep heal_attempts_elevated [of m st notify gw ks fs]
      heal_attempts_notify [of m st notify gw ks fs] h ks
    by (auto simp: heal_route_if_broken_def clear_route_snapshot_def restored_at_def)
qed

text \<open>A machine on which \<open>route\<close> prints a route over the given interface.\<close>

definition toy_machine :: "rstr \<Rightarrow> machine" where
  "toy_machine iface =
     \<lparr>m_kill = \<lambda>pid. (- 1, 3),
      m_route_get = Some \<lparr>co_success = True, co_stdout = utf8 (lit ''gateway: 10.0.0.1'' @ [10] @
        lit ''interface: '' @ iface @ [10]), co_stderr = []\<rparr>,
      m_ifconfig = \<lambda>i. True\<rparr>"

definition toy_files :: files where
  "toy_files = \<lparr>f_status = None, f_disconnect = False, f_password = None,
     f_snapshot = Some (lit ''192.168.1.1'' @ [10]), f_log = []\<rparr>"

lemma toy_snapshot: "load_route_snapshot toy_files = Some (lit ''192.168.1.1'')"
  by (simp add: load_route_snapshot_def toy_files_def lit_def trim_def trim_end_def is_whitespace_def Let_def)

theorem snapshot_kept_until_restored_witness:
  "\<exists>acts. heal_thread (\<lambda>k. \<lparr>m_kill = \<lambda>pid. (0, 0), m_route_get = None, m_ifconfig = \<lambda>i. True\<rparr>) (\<lambda>k. None) True toy_files =
       (acts, toy_files) \<and>
     NotifyFailed \<in> set acts"
proof -
  let ?m = "\<lambda>k::nat. \<lparr>m_kill = \<lambda>pid::u32. (0::int, 0::int), m_route_get = None, m_ifconfig = \<lambda>i::rstr. True\<rparr>"
  have "\<not> has_default_route (?m k) fs" for k fs
    by (simp add: has_default_route_def current_default_route_def)
  moreover have "f_status toy_files = None" by (simp add: toy_files_def)
  ultimately show ?thesis
    using snapshot_kept_until_restored [OF toy_snapshot, of ?m "\<lambda>k. None" True "?m 0"]
    by (auto simp: Let_def split: prod.splits)
qed

end
