(* ===== verification/Worker.thy ===== *)
theory Worker
  imports Connection Route Utun
begin

text \<open>
  The root worker process (\<open>src/worker.rs\<close>). An input is what one round of its select loop gets:
  an event of the connection task, the end of the event channel, or a poll tick with the state of
  the disconnect marker. \<open>err_text\<close> is the message text of an error; the addresses of
  \<open>route\<close> commands are texts as they are passed on the command line.
\<close>

datatype worker_error =
    PasswordUnreadable
  | EmptyPassword
  | Unresolved rstr
  | NoRuntime
  | ConnectionFailed connect_error

datatype worker_log =
    WorkerStarting rstr
  | WorkerProgress progress
  | TunnelUp rstr negotiated_config
  | NoGatewayKnown
  | TunnelDown
  | TunnelError connect_error
  | DisconnectAsked
  | WorkerFailed worker_error

datatype worker_action =
    Log worker_log
  | AddHostRoute rstr rstr
  | DeleteHostRoute rstr
  | DeleteDefaultRoute
  | AddDefaultRoute rstr
  | Status vpn_status_file
  | Disconnect
  | ClearMarker

record worker =
  w_handle :: bool
  w_route_protected :: bool
  w_disconnect_sent :: bool

datatype worker_input = WorkerEvent conn_event | ChannelClosed | PollTick bool

definition connected_status :: "u32 \<Rightarrow> rstr \<Rightarrow> negotiated_config \<Rightarrow> vpn_status_file" where
  "connected_status pid iface nc =
     \<lparr>vs_state = Some WorkerConnected, vs_interface = Some iface,
      vs_local_ip = map_option show_ipv4 (nc_local_ip nc), vs_peer_ip = map_option show_ipv4 (nc_peer_ip nc),
      vs_dns1 = map_option show_ipv4 (nc_dns1 nc), vs_dns2 = map_option show_ipv4 (nc_dns2 nc),
      vs_message = None, vs_pid = Some pid\<rparr>"

definition add_protective_host_route :: "rstr \<Rightarrow> rstr \<Rightarrow> worker_action list" where
  "add_protective_host_route server_ip gateway = [AddHostRoute server_ip gateway]"

definition remove_protective_host_route :: "rstr \<Rightarrow> worker_action list" where
  "remove_protective_host_route server_ip = [DeleteHostRoute server_ip]"

definition set_default_route_via_interface :: "rstr \<Rightarrow> worker_action list" where
  "set_default_route_via_interface iface = [DeleteDefaultRoute, AddDefaultRoute iface]"

definition worker_finish :: "rstr \<Rightarrow> worker \<Rightarrow> worker_action list" where
  \<comment> \<open>what follows the loop of \<open>async_main\<close>\<close>
  "worker_finish server_ip w =
     (if w_route_protected w then remove_protective_host_route server_ip else []) @
     [Status (default_status\<lparr>vs_state := Some WorkerDisconnected\<rparr>)]"

definition worker_step ::
  "rstr \<Rightarrow> rstr option \<Rightarrow> u32 \<Rightarrow> worker \<Rightarrow> worker_input \<Rightarrow>
   worker_action list \<times> (worker + (worker_error + unit))" where
  \<comment> \<open>one round of the select loop: \<open>Inl\<close> goes on, \<open>Inr\<close> is the result of \<open>async_main\<close>\<close>
  "worker_step server_ip gateway pid w i =
     (case i of
        WorkerEvent (Progress msg) \<Rightarrow> ([Log (WorkerProgress msg)], Inl w)
      | WorkerEvent (ConnectedEv iface nc) \<Rightarrow>
          let (a1, w1) = (case gateway of
                Some gw \<Rightarrow> (add_protective_host_route server_ip gw, w\<lparr>w_route_protected := True\<rparr>)
              | None \<Rightarrow> ([Log NoGatewayKnown], w))
          in ([Log (TunnelUp iface nc)] @ a1 @ set_default_route_via_interface iface @
              [Status (connected_status pid iface nc)], Inl w1)
      | WorkerEvent DisconnectedEv \<Rightarrow> (Log TunnelDown # worker_finish server_ip w, Inr (Inr ()))
      | WorkerEvent (ErrorEv e) \<Rightarrow>
          ([Log (TunnelError e)] @
           (if w_route_protected w then remove_protective_host_route server_ip else []),
           Inr (Inl (ConnectionFailed e)))
      | ChannelClosed \<Rightarrow> (worker_finish server_ip w, Inr (Inr ()))
      | PollTick requested \<Rightarrow>
          if \<not> w_disconnect_sent w \<and> requested
          then (Log DisconnectAsked # (if w_handle w then [Disconnect] else []),
                Inl (w\<lparr>w_disconnect_sent := True, w_handle := False\<rparr>))
          else ([], Inl w))"

fun worker_loop ::
  "rstr \<Rightarrow> rstr option \<Rightarrow> u32 \<Rightarrow> worker \<Rightarrow> worker_input list \<Rightarrow>
   worker_action list \<times> (worker + (worker_error + unit))" where
  "worker_loop server_ip gateway pid w [] = ([], Inl w)"
| "worker_loop server_ip gateway pid w (i # is) =
     (case worker_step server_ip gateway pid w i of
        (acts, Inr r) \<Rightarrow> (acts, Inr r)
      | (acts, Inl w1) \<Rightarrow>
          (case worker_loop server_ip gateway pid w1 is of (acts', x) \<Rightarrow> (acts @ acts', x)))"

definition worker_run_inner ::
  "machine \<Rightarrow> rstr option \<Rightarrow> bool \<Rightarrow> u32 \<Rightarrow> rstr \<Rightarrow> files \<Rightarrow> worker_input list \<Rightarrow>
   worker_action list \<times> (worker + (worker_error + unit)) \<times> files" where
  \<comment> \<open>\<open>resolved\<close>: the address of the server; \<open>runtime\<close>: the async runtime could be started\<close>
  "worker_run_inner m resolved runtime pid server fs is =
     (case take_pending_password fs of
        (Inl _, fs1) \<Rightarrow> ([], Inr (Inl PasswordUnreadable), fs1)
      | (Inr password, fs1) \<Rightarrow>
          if password = [] then ([], Inr (Inl EmptyPassword), fs1)
          else let a1 = [Log (WorkerStarting server),
                         Status (default_status\<lparr>vs_state := Some WorkerConnecting, vs_pid := Some pid\<rparr>)]
            in case resolved of
                 None \<Rightarrow> (a1, Inr (Inl (Unresolved server)), fs1)
               | Some server_ip \<Rightarrow>
                   let pre_vpn_gateway = map_option fst (current_default_route (m_route_get m))
                   in if \<not> runtime then (a1, Inr (Inl NoRuntime), fs1)
                      else (case worker_loop server_ip pre_vpn_gateway pid
                               \<lparr>w_handle = True, w_route_protected = False, w_disconnect_sent = False\<rparr> is of
                              (acts, x) \<Rightarrow> (a1 @ acts, x, fs1)))"

definition tunnel_up_in :: "worker_action list \<Rightarrow> bool" where
  \<comment> \<open>an interface was made: its reader thread, which blocks in a read, belongs to the runtime\<close>
  "tunnel_up_in acts \<longleftrightarrow> list_ex (\<lambda>a. case a of Log (TunnelUp iface nc) \<Rightarrow> True | _ \<Rightarrow> False) acts"

definition worker_run ::
  "(worker_error \<Rightarrow> rstr) \<Rightarrow> machine \<Rightarrow> rstr option \<Rightarrow> bool \<Rightarrow> bool \<Rightarrow> u32 \<Rightarrow> rstr \<Rightarrow> files \<Rightarrow> worker_input list \<Rightarrow>
   worker_action list \<times> nat option \<times> files" where
  \<comment> \<open>\<open>run\<close>, with the exit code once the process ends; dropping the runtime at the end of \<open>run_inner\<close>
    waits for the reader thread of the interface, and \<open>reader_ends\<close> says whether that returns\<close>
  "worker_run err_text m resolved runtime reader_ends pid server fs is =
     (case worker_run_inner m resolved runtime pid server fs is of
        (acts, Inl w, fs1) \<Rightarrow> (acts, None, fs1)
      | (acts, Inr result, fs1) \<Rightarrow>
          if tunnel_up_in acts \<and> \<not> reader_ends then (acts, None, fs1)
          else (case result of
              Inr _ \<Rightarrow> (acts @ [ClearMarker], Some 0, clear_disconnect_request fs1)
            | Inl e \<Rightarrow>
                (acts @ [Log (WorkerFailed e),
                         Status (default_status\<lparr>vs_state := Some WorkerError, vs_message := Some (err_text e)\<rparr>),
                         ClearMarker],
                 Some 1, clear_disconnect_request fs1)))"

section \<open>Facts\<close>

definition host_routes :: "worker_action list \<Rightarrow> rstr set \<Rightarrow> rstr set" where
  \<comment> \<open>the addresses with a protective route after the actions, given those with one before\<close>
  "host_routes acts before =
     fold (\<lambda>a ips. case a of AddHostRoute ip gw \<Rightarrow> insert ip ips | DeleteHostRoute ip \<Rightarrow> ips - {ip} | _ \<Rightarrow> ips) acts before"

lemma host_routes_append: "host_routes (a @ b) p = host_routes b (host_routes a p)"
  by (simp add: host_routes_def)

definition protected_ips :: "rstr \<Rightarrow> worker \<Rightarrow> rstr set" where
  "protected_ips ip w = (if w_route_protected w then {ip} else {})"

fun last_state :: "worker_action list \<Rightarrow> worker_state option \<Rightarrow> worker_state option" where
  \<comment> \<open>the state in the status file after the actions\<close>
  "last_state [] s = s"
| "last_state (a # as) s = last_state as (case a of Status st \<Rightarrow> vs_state st | _ \<Rightarrow> s)"

lemma last_state_append: "last_state (a @ b) s = last_state b (last_state a s)"
  by (induction a arbitrary: s) simp_all

lemmas worker_defs = worker_step_def worker_finish_def add_protective_host_route_def
  remove_protective_host_route_def set_default_route_via_interface_def

lemma worker_step_route:
  assumes "worker_step ip gw pid w i = (acts, x)"
  shows "case x of Inl w' \<Rightarrow> host_routes acts (protected_ips ip w) = protected_ips ip w'
    | Inr r \<Rightarrow> host_routes acts (protected_ips ip w) = {} \<and> (r = Inr () \<longrightarrow> last_state acts s = Some WorkerDisconnected)"
  using assms
  by (cases i; (cases gw)?)
    (auto simp: worker_defs host_routes_def protected_ips_def default_status_def split: conn_event.splits if_splits)

lemma worker_loop_route:
  "worker_loop ip gw pid w is = (acts, x) \<Longrightarrow>
   case x of Inl w' \<Rightarrow> host_routes acts (protected_ips ip w) = protected_ips ip w'
     | Inr r \<Rightarrow> host_routes acts (protected_ips ip w) = {} \<and> (r = Inr () \<longrightarrow> last_state acts s = Some WorkerDisconnected)"
proof (induction "is" arbitrary: w acts s x)
  case (Cons i xs)
  obtain a1 x1 where s: "worker_step ip gw pid w i = (a1, x1)" by fastforce
  note r = worker_step_route [OF s]
  show ?case
  proof (cases x1)
    case (Inr r')
    with s r Cons.prems show ?thesis by auto
  next
    case (Inl w1)
    obtain a2 x2 where l: "worker_loop ip gw pid w1 xs = (a2, x2)" by fastforce
    with s Inl Cons.prems have "acts = a1 @ a2" "x = x2" by simp_all
    with Cons.IH [OF l, of "last_state a1 s"] r Inl show ?thesis
      by (auto simp: host_routes_append last_state_append split: sum.splits)
  qed
qed (simp add: host_routes_def)

lemma worker_step_disconnects:
  assumes "worker_step ip gw pid w i = (acts, x)"
  shows "count_list acts Disconnect + (case x of Inl w' \<Rightarrow> if w_handle w' then 1 else 0 | Inr r \<Rightarrow> 0) \<le>
    (if w_handle w then 1 else 0)"
  using assms
  by (cases i; (cases gw)?) (auto simp: worker_defs split: conn_event.splits if_splits)

lemma worker_loop_disconnects:
  "worker_loop ip gw pid w is = (acts, x) \<Longrightarrow> count_list acts Disconnect \<le> (if w_handle w then 1 else 0)"
proof (induction "is" arbitrary: w acts x)
  case (Cons i xs)
  obtain a1 x1 where s: "worker_step ip gw pid w i = (a1, x1)" by fastforce
  note d = worker_step_disconnects [OF s]
  show ?case
  proof (cases x1)
    case (Inr r')
    with s d Cons.prems show ?thesis by auto
  next
    case (Inl w1)
    obtain a2 x2 where l: "worker_loop ip gw pid w1 xs = (a2, x2)" by fastforce
    with s Inl Cons.prems have "acts = a1 @ a2" by simp
    with Cons.IH [OF l] d Inl show ?thesis by (auto split: if_splits)
  qed
qed simp

lemma worker_run_inner_ends:
  assumes "worker_run_inner m resolved runtime pid server fs is = (a, x, fs1)"
  shows "f_password fs1 = None" "count_list a Disconnect \<le> 1"
    "(\<exists>w. x = Inl w) \<or>
     (\<exists>r. x = Inr r \<and> host_routes a {} = {} \<and> (r = Inr () \<longrightarrow> last_state a s = Some WorkerDisconnected))"
proof -
  let ?w = "\<lparr>w_handle = True, w_route_protected = False, w_disconnect_sent = False\<rparr>"
  show "f_password fs1 = None"
    using assms by (auto simp: worker_run_inner_def take_pending_password_def Let_def
        split: option.splits if_splits prod.splits)
  have "(\<exists>r. x = Inr r \<and> host_routes a {} = {} \<and> r \<noteq> Inr ()) \<and> count_list a Disconnect = 0 \<or>
      (\<exists>ip gw b c. worker_loop ip gw pid ?w is = (b, x) \<and>
         a = [Log (WorkerStarting server), Status c] @ b)"
    using assms by (auto simp: worker_run_inner_def take_pending_password_def Let_def host_routes_def
        split: option.splits if_splits prod.splits)
  then consider (early) r where "x = Inr r" "host_routes a {} = {}" "r \<noteq> Inr ()" "count_list a Disconnect = 0"
    | (loop) ip gw b c where "worker_loop ip gw pid ?w is = (b, x)" "a = [Log (WorkerStarting server), Status c] @ b"
    by blast
  then have "((\<exists>w. x = Inl w) \<or>
      (\<exists>r. x = Inr r \<and> host_routes a {} = {} \<and> (r = Inr () \<longrightarrow> last_state a s = Some WorkerDisconnected))) \<and>
      count_list a Disconnect \<le> 1"
  proof cases
    case early
    then show ?thesis by simp
  next
    case loop
    then have "host_routes a {} = host_routes b {}" "last_state a s = last_state b (vs_state c)"
      by (simp_all add: host_routes_def)
    with worker_loop_route [OF loop(1), of "vs_state c"] worker_loop_disconnects [OF loop(1)] loop(2)
    show ?thesis by (cases x) (auto simp: protected_ips_def)
  qed
  then show "count_list a Disconnect \<le> 1"
    "(\<exists>w. x = Inl w) \<or>
     (\<exists>r. x = Inr r \<and> host_routes a {} = {} \<and> (r = Inr () \<longrightarrow> last_state a s = Some WorkerDisconnected))"
    by blast+
qed

section \<open>Properties\<close>

text \<open>
  C16. However the connection ends, a worker that comes to its end leaves things as it found them,
  but for the default route that the GUI restores: no protective host route stays behind for any
  address, the password file and the disconnect marker are gone, the status file says disconnected
  when the exit code is 0 and error, with the message, when it is 1; and the connection is asked to
  disconnect at most once. A worker whose interface's reader thread never returns does not come to
  its end: dropping the runtime waits for that thread.
\<close>

theorem worker_cleans_up:
  assumes "worker_run err_text m resolved runtime reader_ends pid server fs is = (acts, Some code, fs')"
  shows "host_routes acts {} = {} \<and> f_password fs' = None \<and> \<not> disconnect_requested fs' \<and>
    (code = 0 \<and> last_state acts s = Some WorkerDisconnected \<or>
     code = 1 \<and> last_state acts s = Some WorkerError \<and>
       (\<exists>e. Status (default_status\<lparr>vs_state := Some WorkerError, vs_message := Some (err_text e)\<rparr>) \<in> set acts)) \<and>
    count_list acts Disconnect \<le> 1"
proof -
  obtain a x fs1 where i: "worker_run_inner m resolved runtime pid server fs is = (a, x, fs1)"
    by (metis prod_cases3)
  have x: "x = Inr (Inr ()) \<and> acts = a @ [ClearMarker] \<and> code = 0 \<and> fs' = clear_disconnect_request fs1 \<or>
      (\<exists>e. x = Inr (Inl e) \<and> acts = a @ [Log (WorkerFailed e),
         Status (default_status\<lparr>vs_state := Some WorkerError, vs_message := Some (err_text e)\<rparr>), ClearMarker] \<and>
         code = 1 \<and> fs' = clear_disconnect_request fs1)"
    using assms i by (auto simp: worker_run_def split: sum.splits if_splits)
  then show ?thesis
    using worker_run_inner_ends(1,2) [OF i] worker_run_inner_ends(3) [OF i, of s]
    by (auto simp: host_routes_append last_state_append ipc_defs default_status_def) (auto simp: host_routes_def)
qed

definition handed_over :: files where
  \<comment> \<open>the support directory as \<open>spawn_connect\<close> leaves it, and a disconnect marker beside it\<close>
  "handed_over = \<lparr>f_status = None, f_disconnect = True, f_password = Some [112], f_snapshot = None, f_log = []\<rparr>"

theorem worker_cleans_up_witness:
  "\<exists>acts fs'. worker_run (\<lambda>e. []) \<lparr>m_kill = \<lambda>pid. (0, 0), m_route_get = None, m_ifconfig = \<lambda>i. True\<rparr>
       (Some [49]) True True 7 [115] handed_over
       [WorkerEvent (ConnectedEv [117] (ipcp_negotiated ipcp_new)), PollTick True, PollTick True, WorkerEvent DisconnectedEv] =
       (acts, Some 0, fs') \<and>
     Disconnect \<in> set acts \<and> count_list acts Disconnect \<le> 1 \<and> f_password fs' = None \<and> \<not> disconnect_requested fs' \<and>
     last_state acts None = Some WorkerDisconnected"
proof -
  let ?m = "\<lparr>m_kill = \<lambda>pid::u32. (0::int, 0::int), m_route_get = None, m_ifconfig = \<lambda>i::rstr. True\<rparr>"
  let ?es = "[WorkerEvent (ConnectedEv [117] (ipcp_negotiated ipcp_new)), PollTick True, PollTick True, WorkerEvent DisconnectedEv]"
  obtain acts fs' where r: "worker_run (\<lambda>e. []) ?m (Some [49]) True True 7 [115] handed_over ?es = (acts, Some 0, fs')"
      "Disconnect \<in> set acts"
    by (simp add: worker_run_def worker_run_inner_def take_pending_password_def handed_over_def
        current_default_route_def worker_defs Let_def)
  show ?thesis
    using worker_cleans_up [OF r(1), of None] r by auto
qed

end
