(* ===== verification/Keychain.thy ===== *)
theory Keychain
  imports Elevate
begin

text \<open>
  Stored passwords (\<open>src/keychain.rs\<close>). The command \<open>security\<close> is a parameter: it takes its
  arguments and the state of the keychain, and gives its output (\<open>None\<close> when it cannot be started)
  and the state afterwards.
\<close>

type_synonym 'k security = "rstr list \<Rightarrow> 'k \<Rightarrow> command_output option \<times> 'k"

definition SERVICE_NAME :: rstr where "SERVICE_NAME = lit ''sstp-gui''"

definition delete_args :: "rstr \<Rightarrow> rstr list" where
  "delete_args profile_id = [lit ''delete-generic-password'', lit ''-a'', profile_id, lit ''-s'', SERVICE_NAME]"

definition add_args :: "rstr \<Rightarrow> rstr \<Rightarrow> rstr list" where
  "add_args profile_id password =
     [lit ''add-generic-password'', lit ''-a'', profile_id, lit ''-s'', SERVICE_NAME, lit ''-w'', password, lit ''-U'']"

definition find_args :: "rstr \<Rightarrow> rstr list" where
  "find_args profile_id =
     [lit ''find-generic-password'', lit ''-a'', profile_id, lit ''-s'', SERVICE_NAME, lit ''-w'']"

definition keychain_set :: "'k security \<Rightarrow> rstr \<Rightarrow> rstr \<Rightarrow> 'k \<Rightarrow> bool \<times> 'k" where
  "keychain_set security profile_id password k =
     (let (_, k1) = security (delete_args profile_id) k;
          (out, k2) = security (add_args profile_id password) k1
      in (case out of Some o1 \<Rightarrow> co_success o1 | None \<Rightarrow> False, k2))"

definition keychain_get :: "'k security \<Rightarrow> rstr \<Rightarrow> 'k \<Rightarrow> rstr option \<times> 'k" where
  "keychain_get security profile_id k =
     (case security (find_args profile_id) k of
        (None, k1) \<Rightarrow> (None, k1)
      | (Some out, k1) \<Rightarrow>
          if \<not> co_success out then (None, k1)
          else let pw = trim (from_utf8_lossy (co_stdout out))
            in (if pw \<noteq> [] then Some pw else None, k1))"

definition keychain_delete :: "'k security \<Rightarrow> rstr \<Rightarrow> 'k \<Rightarrow> 'k" where
  "keychain_delete security profile_id k = snd (security (delete_args profile_id) k)"

lemmas keychain_defs = keychain_set_def keychain_get_def keychain_delete_def

section \<open>What the command documents\<close>

definition succeeded :: "command_output option \<Rightarrow> bool" where
  "succeeded out \<longleftrightarrow> (case out of Some o1 \<Rightarrow> co_success o1 | None \<Rightarrow> False)"

definition printable :: "rstr \<Rightarrow> bool" where
  \<comment> \<open>printable ASCII: of other passwords nothing is said of how the command prints them\<close>
  "printable p \<longleftrightarrow> p \<noteq> [] \<and> (\<forall>c\<in>set p. 32 \<le> c \<and> c \<le> 126)"

definition security_documented :: "'k security \<Rightarrow> ('k \<Rightarrow> rstr \<Rightarrow> rstr option) \<Rightarrow> bool" where
  \<comment> \<open>\<open>stored\<close> reads the passwords of this program's entries. Every call may fail, and no call touches
    the entry of another profile; deleting, if it reports success, has removed the entry, and adding
    has stored the password (\<open>-U\<close> replaces); finding changes nothing and succeeds only for an entry
    there is, whose password it prints on a line of its own when it is printable ASCII\<close>
  "security_documented security stored \<longleftrightarrow>
     (\<forall>a b k. a \<noteq> b \<longrightarrow> stored (snd (security (delete_args a) k)) b = stored k b) \<and>
     (\<forall>a b p k. a \<noteq> b \<longrightarrow> stored (snd (security (add_args a p) k)) b = stored k b) \<and>
     (\<forall>a k. succeeded (fst (security (delete_args a) k)) \<longrightarrow> stored (snd (security (delete_args a) k)) a = None) \<and>
     (\<forall>a p k. succeeded (fst (security (add_args a p) k)) \<longrightarrow> stored (snd (security (add_args a p) k)) a = Some p) \<and>
     (\<forall>a k. stored (snd (security (find_args a) k)) = stored k) \<and>
     (\<forall>a k. succeeded (fst (security (find_args a) k)) \<longrightarrow> stored k a \<noteq> None) \<and>
     (\<forall>a k p out. fst (security (find_args a) k) = Some out \<longrightarrow> co_success out \<longrightarrow>
        stored k a = Some p \<longrightarrow> printable p \<longrightarrow> co_stdout out = utf8 (p @ [10]))"

definition toy_security :: "(rstr \<Rightarrow> rstr option) security" where
  \<comment> \<open>an instance that refuses empty passwords and does not print one that is not printable ASCII\<close>
  "toy_security args k =
     (let done = Some \<lparr>co_success = True, co_stdout = [], co_stderr = []\<rparr>;
          failed = Some \<lparr>co_success = False, co_stdout = [], co_stderr = []\<rparr>;
          a = args ! 2
      in if hd args = lit ''delete-generic-password''
         then (if k a = None then (failed, k) else (done, k(a := None)))
         else if hd args = lit ''add-generic-password''
         then (if args ! 6 = [] then (failed, k) else (done, k(a := Some (args ! 6))))
         else case k a of
           Some p \<Rightarrow> (Some \<lparr>co_success = True, co_stdout = utf8 (if printable p then p @ [10] else [63, 10]), co_stderr = []\<rparr>, k)
         | None \<Rightarrow> (failed, k))"

lemma security_docs:
  assumes "security_documented security stored"
  shows "a \<noteq> b \<Longrightarrow> stored (snd (security (delete_args a) k)) b = stored k b"
    "a \<noteq> b \<Longrightarrow> stored (snd (security (add_args a p) k)) b = stored k b"
    "succeeded (fst (security (delete_args a) k)) \<Longrightarrow> stored (snd (security (delete_args a) k)) a = None"
    "succeeded (fst (security (add_args a p) k)) \<Longrightarrow> stored (snd (security (add_args a p) k)) a = Some p"
    "stored (snd (security (find_args a) k)) = stored k"
    "succeeded (fst (security (find_args a) k)) \<Longrightarrow> stored k a \<noteq> None"
    "fst (security (find_args a) k) = Some out \<Longrightarrow> co_success out \<Longrightarrow> stored k a = Some p \<Longrightarrow> printable p \<Longrightarrow>
       co_stdout out = utf8 (p @ [10])"
  using assms unfolding security_documented_def by blast+

lemma toy_security_documented: "security_documented toy_security (\<lambda>k. k)"
  by (simp add: security_documented_def toy_security_def Let_def delete_args_def add_args_def
      find_args_def lit_def succeeded_def split: option.split)

lemma trim_eq_self: "trim s = s \<longleftrightarrow> s = [] \<or> \<not> is_whitespace (hd s) \<and> \<not> is_whitespace (last s)"
proof
  assume t: "trim s = s"
  have le: "length (trim_end x) \<le> length x" for x
    using length_dropWhile_le [of is_whitespace "rev x"] by (simp add: trim_end_def)
  show "s = [] \<or> \<not> is_whitespace (hd s) \<and> \<not> is_whitespace (last s)"
  proof (cases "s = [] \<or> is_whitespace (hd s)")
    case True
    then show ?thesis
    proof
      assume w: "is_whitespace (hd s)"
      show ?thesis
      proof (cases s)
        case (Cons c s')
        then have "length (trim s) \<le> length s'"
          using w le [of "dropWhile is_whitespace s'"] length_dropWhile_le [of is_whitespace s']
          by (simp add: trim_def)
        with t Cons show ?thesis by simp
      qed simp
    qed simp
  next
    case False
    then have e: "trim_end s = s" using t by (cases s) (simp_all add: trim_def)
    show ?thesis
    proof (cases s rule: rev_cases)
      case (snoc s' c)
      have "is_whitespace c \<Longrightarrow> length (trim_end s) \<le> length s'"
        using snoc le [of s'] by (simp add: trim_end_def)
      then have "\<not> is_whitespace c"
        using e snoc by auto
      with False snoc show ?thesis by simp
    qed simp
  qed
qed (rule trim_id)

lemma trim_ends:
  assumes "trim s \<noteq> []"
  shows "\<not> is_whitespace (hd (trim s))" "\<not> is_whitespace (last (trim s))"
proof -
  let ?d = "dropWhile is_whitespace s"
  have "rev (takeWhile is_whitespace (rev ?d) @ dropWhile is_whitespace (rev ?d)) = ?d"
    by (simp only: takeWhile_dropWhile_id rev_rev_ident)
  then have d: "trim s @ rev (takeWhile is_whitespace (rev ?d)) = ?d"
    by (simp only: trim_def trim_end_def rev_append)
  then have "hd ?d = hd (trim s)" "?d \<noteq> []"
    using assms by (metis hd_append2, metis append_is_Nil_conv)
  then show "\<not> is_whitespace (hd (trim s))"
    using hd_dropWhile [of is_whitespace s] by simp
  show "\<not> is_whitespace (last (trim s))"
    using assms hd_dropWhile [of is_whitespace "rev ?d"] by (simp add: trim_def trim_end_def last_rev)
qed

lemma trim_newline: "trim (p @ [10]) = trim p"
proof -
  have w: "is_whitespace 10" by (simp add: is_whitespace_def)
  then have e: "trim_end (x @ [10]) = trim_end x" for x by (simp add: trim_end_def)
  show ?thesis
  proof (cases "\<forall>c\<in>set p. is_whitespace c")
    case True
    then have d: "dropWhile is_whitespace p = []" by (simp add: dropWhile_eq_Nil_conv)
    from w True show ?thesis by (simp add: trim_def dropWhile_append d)
  next
    case False
    then have "dropWhile is_whitespace (p @ [10]) = dropWhile is_whitespace p @ [10]"
      by (auto simp: dropWhile_append)
    with e show ?thesis by (simp add: trim_def)
  qed
qed

section \<open>Properties\<close>

lemma keychain_get_trimmed:
  \<comment> \<open>whatever the command prints, no text with white space at its ends is loaded\<close>
  assumes "fst (keychain_get security a k) = Some pw"
  shows "pw \<noteq> [] \<and> \<not> is_whitespace (hd pw) \<and> \<not> is_whitespace (last pw)"
  using assms trim_ends
  by (auto simp: keychain_get_def Let_def split: prod.splits option.splits if_splits)

lemma keychain_get_found:
  "\<not> succeeded (fst (security (find_args a) k)) \<Longrightarrow> fst (keychain_get security a k) = None"
  by (auto simp: keychain_get_def succeeded_def split: prod.splits option.splits)

lemma keychain_get_stored:
  assumes "security_documented security stored" "stored k a = Some p" "printable p"
    "succeeded (fst (security (find_args a) k))"
  shows "fst (keychain_get security a k) = (if trim p = [] then None else Some (trim p))"
proof -
  obtain out k1 where out: "security (find_args a) k = (Some out, k1)" "co_success out"
    using assms(4) by (cases "security (find_args a) k") (auto simp: succeeded_def split: option.splits)
  have "from_utf8_lossy (utf8 (p @ [10])) = p @ [10]"
    using assms(3) by (intro from_utf8_lossy_utf8) (auto simp: list_all_iff rchar_def printable_def)
  then show ?thesis
    using security_docs(7) [OF assms(1), of a k out p] out assms(2,3) trim_newline [of p]
    by (simp add: keychain_get_def Let_def del: utf8_append)
qed

text \<open>
  C39. A password with white space at either end, or an empty one, is never loaded: whatever the
  keychain holds and whatever the command prints, the text that comes back has none. Under what
  the command documents, a printable ASCII password whose saving was reported as a success comes
  back, when the entry can be read, trimmed, or not at all when it was only white space; so it is the
  saved one exactly if it neither began nor ended with white space. An entry that cannot be read
  gives nothing, entries of other profiles are not touched, and an entry whose deletion succeeded
  is gone.
\<close>

theorem saved_password_is_trimmed:
  assumes "security_documented security stored" "keychain_set security a pw k = (ok, k1)"
  shows "(pw = [] \<or> is_whitespace (hd pw) \<or> is_whitespace (last pw) \<longrightarrow>
      (\<forall>k'. fst (keychain_get security a k') \<noteq> Some pw)) \<and>
    (ok \<and> printable pw \<and> succeeded (fst (security (find_args a) k1)) \<longrightarrow>
      fst (keychain_get security a k1) = (if trim pw = [] then None else Some (trim pw)) \<and>
      (fst (keychain_get security a k1) = Some pw \<longleftrightarrow> \<not> is_whitespace (hd pw) \<and> \<not> is_whitespace (last pw))) \<and>
    (\<not> succeeded (fst (security (find_args a) k1)) \<longrightarrow> fst (keychain_get security a k1) = None) \<and>
    (\<forall>b. b \<noteq> a \<longrightarrow> stored k1 b = stored k b) \<and>
    (succeeded (fst (security (delete_args a) k1)) \<longrightarrow>
      fst (keychain_get security a (keychain_delete security a k1)) = None)"
proof -
  note d = security_docs [OF assms(1)]
  obtain o1 k0 where s1: "security (delete_args a) k = (o1, k0)" by fastforce
  obtain o2 where s2: "security (add_args a pw) k0 = (o2, k1)" and ok: "ok = succeeded o2"
    using assms(2) s1 by (auto simp: keychain_set_def succeeded_def split: prod.splits)
  have never: "pw = [] \<or> is_whitespace (hd pw) \<or> is_whitespace (last pw) \<longrightarrow>
      (\<forall>k'. fst (keychain_get security a k') \<noteq> Some pw)"
    using keychain_get_trimmed [of security a _ pw] by blast
  have get: "fst (keychain_get security a k1) = (if trim pw = [] then None else Some (trim pw)) \<and>
      (fst (keychain_get security a k1) = Some pw \<longleftrightarrow> \<not> is_whitespace (hd pw) \<and> \<not> is_whitespace (last pw))"
    if h: "ok \<and> printable pw \<and> succeeded (fst (security (find_args a) k1))"
  proof -
    have "stored k1 a = Some pw" using d(4) [of a pw k0] s2 ok h by simp
    then have "fst (keychain_get security a k1) = (if trim pw = [] then None else Some (trim pw))"
      using keychain_get_stored [OF assms(1)] h by blast
    then show ?thesis
      using h trim_eq_self [of pw] by (auto simp: printable_def split: if_splits)
  qed
  have others: "\<forall>b. b \<noteq> a \<longrightarrow> stored k1 b = stored k b"
    using d(1) [of a _ k] d(2) [of a _ pw k0] s1 s2 by force
  have gone: "fst (keychain_get security a (keychain_delete security a k1)) = None"
    if "succeeded (fst (security (delete_args a) k1))"
    using d(3) [OF that] d(6) [of a "keychain_delete security a k1"] keychain_get_found [of security a]
    by (auto simp: keychain_delete_def)
  show ?thesis using never get others gone keychain_get_found [of security a k1] by blast
qed

theorem saved_password_is_trimmed_witness:
  "fst (keychain_get toy_security [49] (snd (keychain_set toy_security [49] [32, 112, 32] (\<lambda>a. None)))) = Some [112]"
proof -
  let ?k = "\<lambda>b. if b = [49] then Some [32, 112, 32] else None"
  have k: "keychain_set toy_security [49] [32, 112, 32] (\<lambda>a. None) = (True, ?k)"
    by (auto simp: keychain_set_def toy_security_def Let_def delete_args_def add_args_def lit_def)
  have "printable [32, 112, 32]" "succeeded (fst (toy_security (find_args [49]) ?k))"
    by (simp_all add: printable_def toy_security_def find_args_def lit_def succeeded_def)
  with saved_password_is_trimmed [OF toy_security_documented k] show ?thesis
    by (simp add: k trim_def trim_end_def is_whitespace_def)
qed

end
