(* ===== verification/I18n.thy ===== *)
theory I18n
  imports Elevate
begin

text \<open>
  The two tables of texts and the choice between them (\<open>src/i18n.rs\<close>). The texts that are not
  ASCII are given by the numbers of their characters. \<open>detected\<close> is what the command
  \<open>defaults read -g AppleLocale\<close> gives, \<open>None\<close> when it cannot be started; the cell \<open>CURRENT\<close> is
  the state of \<open>current_strings\<close>.
\<close>

datatype lang = Ru | En

definition lang_detect :: "command_output option \<Rightarrow> lang" where
  "lang_detect out =
     (case out of
        Some o1 \<Rightarrow>
          if co_success o1
          then let locale = from_utf8_lossy (co_stdout o1)
            in if starts_with (lit ''ru'') (trim locale) then Ru else En
          else En
      | None \<Rightarrow> En)"

record strings =
  s_connect :: rstr
  s_cancel :: rstr
  s_disconnect :: rstr
  s_not_connected :: rstr
  s_connecting :: rstr
  s_connected :: rstr
  s_settings :: rstr
  s_settings_hover :: rstr
  s_back :: rstr
  s_servers :: rstr
  s_add_server :: rstr
  s_remove_server_hover :: rstr
  s_profile_name_label :: rstr
  s_server_label :: rstr
  s_username_label :: rstr
  s_password_label :: rstr
  s_save_password_in_keychain :: rstr
  s_save_settings :: rstr
  s_connection_log :: rstr
  s_fill_server_username_password :: rstr
  s_default_server_name_prefix :: rstr
  s_tray_status_disconnected :: rstr
  s_tray_status_connecting :: rstr
  s_tray_status_connected :: rstr
  s_tray_connect :: rstr
  s_tray_disconnect :: rstr
  s_tray_show_window :: rstr
  s_tray_quit :: rstr
  s_notif_app_name :: rstr
  s_notif_restored_after_failure :: rstr
  s_notif_restore_failed :: rstr

definition RU :: strings where
  "RU =
     \<lparr>s_connect = [1055, 1086, 1076, 1082, 1083, 1102, 1095, 1080, 1090, 1100, 1089, 1103],
      s_cancel = [1054, 1090, 1084, 1077, 1085, 1080, 1090, 1100],
      s_disconnect = [1054, 1090, 1082, 1083, 1102, 1095, 1080, 1090, 1100, 1089, 1103],
      s_not_connected = [1053, 1077, 32, 1087, 1086, 1076, 1082, 1083, 1102, 1095, 1077, 1085, 1086],
      s_connecting = [1055, 1086, 1076, 1082, 1083, 1102, 1095, 1077, 1085, 1080, 1077, 8230],
      s_connected = [1055, 1086, 1076, 1082, 1083, 1102, 1095, 1077, 1085, 1086],
      s_settings = [1053, 1072, 1089, 1090, 1088, 1086, 1081, 1082, 1080],
      s_settings_hover = [1053, 1072, 1089, 1090, 1088, 1086, 1081, 1082, 1080],
      s_back = [1053, 1072, 1079, 1072, 1076],
      s_servers = [1057, 1077, 1088, 1074, 1077, 1088, 1099],
      s_add_server = [43, 32, 1044, 1086, 1073, 1072, 1074, 1080, 1090, 1100, 32, 1089, 1077, 1088, 1074,
        1077, 1088],
      s_remove_server_hover = [1059, 1076, 1072, 1083, 1080, 1090, 1100, 32, 1089, 1077, 1088, 1074, 1077,
        1088],
      s_profile_name_label = [1048, 1084, 1103, 32, 1087, 1088, 1086, 1092, 1080, 1083, 1103, 58],
      s_server_label = [1057, 1077, 1088, 1074, 1077, 1088, 58],
      s_username_label = [1051, 1086, 1075, 1080, 1085, 58],
      s_password_label = [1055, 1072, 1088, 1086, 1083, 1100, 58],
      s_save_password_in_keychain = [1057, 1086, 1093, 1088, 1072, 1085, 1080, 1090, 1100, 32, 1087, 1072,
        1088, 1086, 1083, 1100, 32, 1074, 32, 75, 101, 121, 99, 104, 97, 105, 110],
      s_save_settings = [1057, 1086, 1093, 1088, 1072, 1085, 1080, 1090, 1100, 32, 1085, 1072, 1089, 1090,
        1088, 1086, 1081, 1082, 1080],
      s_connection_log = [1051, 1086, 1075, 32, 1087, 1086, 1076, 1082, 1083, 1102, 1095, 1077, 1085,
        1080, 1103],
      s_fill_server_username_password = [1047, 1072, 1087, 1086, 1083, 1085, 1080, 1090, 1077, 32, 1089,
        1077, 1088, 1074, 1077, 1088, 44, 32, 1083, 1086, 1075, 1080, 1085, 32, 1080, 32, 1087, 1072,
        1088, 1086, 1083, 1100],
      s_default_server_name_prefix = [1057, 1077, 1088, 1074, 1077, 1088],
      s_tray_status_disconnected = [9679, 32, 1054, 1090, 1082, 1083, 1102, 1095, 1077, 1085, 1086],
      s_tray_status_connecting = [9679, 32, 1055, 1086, 1076, 1082, 1083, 1102, 1095, 1077, 1085, 1080,
        1077, 8230],
      s_tray_status_connected = [9679, 32, 1055, 1086, 1076, 1082, 1083, 1102, 1095, 1077, 1085, 1086],
      s_tray_connect = [1055, 1086, 1076, 1082, 1083, 1102, 1095, 1080, 1090, 1100, 1089, 1103],
      s_tray_disconnect = [1054, 1090, 1082, 1083, 1102, 1095, 1080, 1090, 1100, 1089, 1103],
      s_tray_show_window = [1055, 1086, 1082, 1072, 1079, 1072, 1090, 1100, 32, 1086, 1082, 1085, 1086],
      s_tray_quit = [1042, 1099, 1093, 1086, 1076],
      s_notif_app_name = lit ''SSTP GUI'',
      s_notif_restored_after_failure = [1042, 1086, 1089, 1089, 1090, 1072, 1085, 1086, 1074, 1083, 1077,
        1085, 32, 1076, 1086, 1089, 1090, 1091, 1087, 32, 1074, 32, 1080, 1085, 1090, 1077, 1088, 1085,
        1077, 1090, 32, 1087, 1086, 1089, 1083, 1077, 32, 1089, 1073, 1086, 1103, 32, 86, 80, 78],
      s_notif_restore_failed = [1053, 1077, 32, 1091, 1076, 1072, 1083, 1086, 1089, 1100, 32, 1074, 1086,
        1089, 1089, 1090, 1072, 1085, 1086, 1074, 1080, 1090, 1100, 32, 1080, 1085, 1090, 1077, 1088,
        1085, 1077, 1090, 32, 1072, 1074, 1090, 1086, 1084, 1072, 1090, 1080, 1095, 1077, 1089, 1082,
        1080, 44, 32, 1089, 1084, 46, 32, 1083, 1086, 1075]\<rparr>"

definition EN :: strings where
  "EN =
     \<lparr>s_connect = lit ''Connect'',
      s_cancel = lit ''Cancel'',
      s_disconnect = lit ''Disconnect'',
      s_not_connected = lit ''Not connected'',
      s_connecting = lit ''Connecting'' @ [8230],
      s_connected = lit ''Connected'',
      s_settings = lit ''Settings'',
      s_settings_hover = lit ''Settings'',
      s_back = lit ''Back'',
      s_servers = lit ''Servers'',
      s_add_server = lit ''+ Add server'',
      s_remove_server_hover = lit ''Remove server'',
      s_profile_name_label = lit ''Profile name:'',
      s_server_label = lit ''Server:'',
      s_username_label = lit ''Username:'',
      s_password_label = lit ''Password:'',
      s_save_password_in_keychain = lit ''Save password in Keychain'',
      s_save_settings = lit ''Save settings'',
      s_connection_log = lit ''Connection log'',
      s_fill_server_username_password = lit ''Fill in the server, username and password'',
      s_default_server_name_prefix = lit ''Server'',
      s_tray_status_disconnected = [9679] @ lit '' Disconnected'',
      s_tray_status_connecting = [9679] @ lit '' Connecting'' @ [8230],
      s_tray_status_connected = [9679] @ lit '' Connected'',
      s_tray_connect = lit ''Connect'',
      s_tray_disconnect = lit ''Disconnect'',
      s_tray_show_window = lit ''Show Window'',
      s_tray_quit = lit ''Quit'',
      s_notif_app_name = lit ''SSTP GUI'',
      s_notif_restored_after_failure = lit ''Internet access restored after a VPN failure'',
      s_notif_restore_failed = lit ''Could not restore internet access automatically, see the log''\<rparr>"

fun lang_strings :: "lang \<Rightarrow> strings" where
  "lang_strings Ru = RU"
| "lang_strings En = EN"

definition current_strings :: "command_output option \<Rightarrow> lang option \<Rightarrow> strings \<times> lang option" where
  \<comment> \<open>\<open>t\<close>: the texts, and the cell afterwards\<close>
  "current_strings detected current =
     (let l = (case current of Some l \<Rightarrow> l | None \<Rightarrow> lang_detect detected) in (lang_strings l, Some l))"

lemma language_is_pinned:
  "current_strings d1 c = (s, c') \<Longrightarrow> current_strings d2 c' = (s, c')"
  by (auto simp: current_strings_def Let_def)

end
