(* ===== verification/Gui.thy ===== *)
theory Gui
  imports Route Keychain I18n
begin

text \<open>
  The application (\<open>src/main.rs\<close>): profiles and configuration, the status bar, the threads behind
  connecting and disconnecting, the frame logic with its status poll, and the effects of the two
  screens. Times are milliseconds. A thread that is spawned is a job of the state; its body is a
  function that is run later. The window system delivers at most one click per frame of \<open>ui_frame\<close>
  and any number of status bar clicks per frame of \<open>logic\<close>. The state holds the files that the
  worker shares, what is on disk, notifications and elevated commands in the order of their issue.
  Fonts, colours of widgets and layout are left out.
\<close>

section \<open>Profiles and configuration\<close>

fun show_hex :: "nat \<Rightarrow> rstr" where
  "show_hex n = (if n < 16 then [hex_digit 97 n] else show_hex (n div 16) @ [hex_digit 97 (n mod 16)])"

declare show_hex.simps [simp del]

definition gen_id :: "nat \<Rightarrow> rstr" where
  \<comment> \<open>from the nanoseconds since the epoch\<close>
  "gen_id nanos = show_hex nanos"

record profile =
  p_id :: rstr
  p_name :: rstr
  p_server :: rstr
  p_username :: rstr

definition profile_blank :: "strings \<Rightarrow> nat \<Rightarrow> nat \<Rightarrow> profile" where
  "profile_blank t nanos n =
     \<lparr>p_id = gen_id nanos, p_name = s_default_server_name_prefix t @ [32] @ show_dec n,
      p_server = [], p_username = []\<rparr>"

record config =
  c_profiles :: "profile list"
  c_selected :: "rstr option"

definition config_load :: "config option \<Rightarrow> config" where
  \<comment> \<open>\<open>None\<close>: there is no file or it does not parse\<close>
  "config_load disk = (case disk of Some c \<Rightarrow> c | None \<Rightarrow> \<lparr>c_profiles = [], c_selected = None\<rparr>)"

definition selected_profile :: "config \<Rightarrow> profile option" where
  "selected_profile c = do {
     ident \<leftarrow> c_selected c;
     find (\<lambda>p. p_id p = ident) (c_profiles c)
   }"

fun update_first :: "rstr \<Rightarrow> (profile \<Rightarrow> profile) \<Rightarrow> profile list \<Rightarrow> profile list" where
  "update_first ident f [] = []"
| "update_first ident f (p # ps) = (if p_id p = ident then f p # ps else p # update_first ident f ps)"

definition update_selected :: "(profile \<Rightarrow> profile) \<Rightarrow> config \<Rightarrow> config" where
  \<comment> \<open>an assignment through \<open>selected_profile_mut\<close>\<close>
  "update_selected f c =
     (case c_selected c of None \<Rightarrow> c | Some ident \<Rightarrow> c\<lparr>c_profiles := update_first ident f (c_profiles c)\<rparr>)"

section \<open>The application\<close>

datatype vpn_status = VpnDisconnected | VpnConnecting | VpnConnected
datatype view_mode = ConnectView | SettingsView
datatype job = ConnectJob profile rstr | DisconnectJob | DisconnectWait

record tray =
  tr_status :: rstr
  tr_connect :: bool
  tr_disconnect :: bool
  tr_rgba :: "nat list"

record 'k gui =
  g_config :: config
  g_password :: rstr
  g_save_password :: bool
  g_status :: vpn_status
  g_interface :: "rstr option"
  g_busy :: bool
  g_tray :: "tray option"
  g_last_poll :: int
  g_last_heal :: "int option"
  g_view :: view_mode
  g_connected_since :: "int option"
  g_visible :: bool
  g_exited :: bool
  g_jobs :: "job list"
  g_healing :: bool
  g_heals :: "bool list"
  g_notices :: "(rstr \<times> rstr) list"
  g_elevated :: "rstr list"
  g_disk :: "config option"
  g_keychain :: 'k
  g_files :: files

definition config_save :: "'k gui \<Rightarrow> 'k gui" where
  "config_save g = g\<lparr>g_disk := Some (g_config g)\<rparr>"

definition log_line :: "rstr \<Rightarrow> 'k gui \<Rightarrow> 'k gui" where
  "log_line s g = g\<lparr>g_files := append_to s (g_files g)\<rparr>"

definition heal_route :: "machine \<Rightarrow> bool \<Rightarrow> 'k gui \<Rightarrow> 'k gui" where
  \<comment> \<open>a call of \<open>heal_route_if_broken\<close>; \<open>g_heals\<close> lists the threads it starts\<close>
  "heal_route m notify g =
     (case heal_route_if_broken m (g_healing g) (g_files g) of
        (outcome, healing, fs) \<Rightarrow>
          g\<lparr>g_healing := healing, g_files := fs,
            g_heals := g_heals g @ (if outcome = ThreadSpawned then [notify] else [])\<rparr>)"

definition initial_config :: "strings \<Rightarrow> nat \<Rightarrow> config option \<Rightarrow> config" where
  \<comment> \<open>the start of \<open>SstpApp::new\<close>\<close>
  "initial_config t nanos disk =
     (let c = config_load disk
      in if c_profiles c = []
         then let p = profile_blank t nanos 1 in c\<lparr>c_selected := Some (p_id p), c_profiles := c_profiles c @ [p]\<rparr>
         else if c_selected c = None
         then c\<lparr>c_selected := (case c_profiles c of p # _ \<Rightarrow> Some (p_id p) | [] \<Rightarrow> None)\<rparr>
         else c)"

definition gui_new :: "'k security \<Rightarrow> strings \<Rightarrow> nat \<Rightarrow> int \<Rightarrow> machine \<Rightarrow> config option \<Rightarrow> 'k \<Rightarrow> files \<Rightarrow> 'k gui" where
  "gui_new security t nanos now m disk k fs =
     (let config = initial_config t nanos disk;
          (pw, k1) = (case selected_profile config of
             None \<Rightarrow> (None, k)
           | Some p \<Rightarrow> keychain_get security (p_id p) k);
          password = (case pw of Some s \<Rightarrow> s | None \<Rightarrow> []);
          g = \<lparr>g_config = config, g_password = password, g_save_password = (password \<noteq> []),
               g_status = VpnDisconnected, g_interface = None, g_busy = False, g_tray = None,
               g_last_poll = now - 10000, g_last_heal = None, g_view = ConnectView, g_connected_since = None,
               g_visible = True, g_exited = False, g_jobs = [], g_healing = False, g_heals = [],
               g_notices = [], g_elevated = [], g_disk = disk, g_keychain = k1, g_files = fs\<rparr>;
          g1 = (if \<not> has_default_route m fs then heal_route m True g else g)
      in g1\<lparr>g_files := clear_disconnect_request (g_files g1)\<rparr>)"

definition select_profile :: "'k security \<Rightarrow> rstr \<Rightarrow> 'k gui \<Rightarrow> 'k gui" where
  "select_profile security ident g =
     (let g1 = g\<lparr>g_config := (g_config g)\<lparr>c_selected := Some ident\<rparr>\<rparr>;
          (pw, k1) = keychain_get security ident (g_keychain g1);
          password = (case pw of Some s \<Rightarrow> s | None \<Rightarrow> [])
      in config_save (g1\<lparr>g_password := password, g_save_password := (password \<noteq> []), g_keychain := k1\<rparr>))"

definition add_profile :: "'k security \<Rightarrow> strings \<Rightarrow> nat \<Rightarrow> 'k gui \<Rightarrow> 'k gui" where
  "add_profile security t nanos g =
     (let p = profile_blank t nanos (length (c_profiles (g_config g)) + 1)
      in select_profile security (p_id p)
           (g\<lparr>g_config := (g_config g)\<lparr>c_profiles := c_profiles (g_config g) @ [p]\<rparr>\<rparr>))"

definition remove_profile :: "'k security \<Rightarrow> rstr \<Rightarrow> 'k gui \<Rightarrow> 'k gui" where
  "remove_profile security ident g =
     (let g1 = g\<lparr>g_keychain := keychain_delete security ident (g_keychain g)\<rparr>;
          c = g_config g1;
          c1 = c\<lparr>c_profiles := filter (\<lambda>p. p_id p \<noteq> ident) (c_profiles c)\<rparr>;
          g2 = g1\<lparr>g_config := c1\<rparr>;
          g3 = (if c_selected c1 = Some ident
                then case c_profiles c1 of
                       p # _ \<Rightarrow> select_profile security (p_id p) g2
                     | [] \<Rightarrow> g2\<lparr>g_config := c1\<lparr>c_selected := None\<rparr>, g_password := []\<rparr>
                else g2)
      in config_save g3)"

section \<open>Connecting and disconnecting\<close>

definition spawn_connect :: "'k gui \<Rightarrow> 'k gui" where
  "spawn_connect g =
     (case selected_profile (g_config g) of
        None \<Rightarrow> g
      | Some p \<Rightarrow> g\<lparr>g_busy := True, g_status := VpnConnecting, g_jobs := g_jobs g @ [ConnectJob p (g_password g)]\<rparr>)"

definition connect_aborted :: "rstr \<Rightarrow> 'k gui \<Rightarrow> 'k gui" where
  "connect_aborted why g = (log_line (lit ''connect aborted: '' @ why) g)\<lparr>g_status := VpnDisconnected, g_busy := False\<rparr>"

definition connect_thread ::
  "strings \<Rightarrow> rstr option \<Rightarrow> staging \<Rightarrow> machine \<Rightarrow> profile \<Rightarrow> rstr \<Rightarrow> 'k gui \<Rightarrow> 'k gui" where
  \<comment> \<open>\<open>exe\<close>: the path of the program; \<open>staging\<close>: how the password hand-over goes\<close>
  "connect_thread t exe staging m p password g =
     (if p_server p = [] \<or> p_username p = [] \<or> password = []
      then connect_aborted (lit ''server/username/password not set'')
             (g\<lparr>g_notices := g_notices g @ [(s_notif_app_name t, s_fill_server_username_password t)]\<rparr>)
      else case exe of
        None \<Rightarrow> connect_aborted (lit ''could not determine our own executable path'') g
      | Some path \<Rightarrow>
          (case write_pending_password staging password (g_files g) of
             (Inl e, fs1) \<Rightarrow>
               connect_aborted (lit ''could not stage password handoff: '' @ e) (g\<lparr>g_files := fs1\<rparr>)
           | (Inr _, fs1) \<Rightarrow>
               let fs2 = clear_status fs1;
                   fs3 = clear_disconnect_request fs2;
                   fs4 = save_route_snapshot m fs3;
                   g1 = log_line (lit ''connecting to '' @ p_server p @ lit ''...'') (g\<lparr>g_files := fs4\<rparr>);
                   cmd = connect_command path (p_server p) (p_username p)
               in g1\<lparr>g_elevated := g_elevated g1 @ [cmd], g_busy := False\<rparr>))"

definition session_ended :: "rstr + rstr \<Rightarrow> 'k gui \<Rightarrow> 'k gui" where
  \<comment> \<open>the detached thread, with what \<open>run_elevated\<close> returned\<close>
  "session_ended result g =
     (case result of
        Inr out \<Rightarrow> if trim out \<noteq> [] then log_line (trim out) g else g
      | Inl e \<Rightarrow> log_line (lit ''worker session ended: '' @ e) g)"

definition spawn_disconnect :: "'k gui \<Rightarrow> 'k gui" where
  "spawn_disconnect g = g\<lparr>g_busy := True, g_jobs := g_jobs g @ [DisconnectJob]\<rparr>"

definition disconnect_begin :: "'k gui \<Rightarrow> 'k gui" where
  "disconnect_begin g =
     (let g1 = log_line (lit ''disconnecting...'') g in g1\<lparr>g_files := request_disconnect (g_files g1)\<rparr>)"

definition settled :: "vpn_status_file option \<Rightarrow> bool" where
  "settled st =
     (case Option.bind st vs_state of
        Some WorkerDisconnected \<Rightarrow> True
      | Some WorkerError \<Rightarrow> True
      | None \<Rightarrow> True
      | _ \<Rightarrow> False)"

fun confirm_loop :: "(int \<times> files) list \<Rightarrow> bool option" where
  \<comment> \<open>the \<open>while\<close> loop on what it sees in each round: the time since its start and the files;
    \<open>None\<close>: it has not ended yet\<close>
  "confirm_loop [] = None"
| "confirm_loop ((elapsed, fs) # rounds) =
     (if elapsed < 10000
      then if settled (read_status fs) then Some True else confirm_loop rounds
      else Some False)"

definition log_network_diagnostics ::
  "((rstr \<times> rstr) option \<Rightarrow> rstr) \<Rightarrow> (vpn_status_file option \<Rightarrow> rstr) \<Rightarrow> machine \<Rightarrow> rstr \<Rightarrow> 'k gui \<Rightarrow> 'k gui" where
  \<comment> \<open>the first two arguments are the derived \<open>Debug\<close> formats\<close>
  "log_network_diagnostics show_route show_status m ctx g =
     (let route_info = current_default_route (m_route_get m); status = read_status (g_files g)
      in log_line (lit ''[diagnostics: '' @ ctx @ lit '']'' @ [10] @ lit ''current default route: '' @
           show_route route_info @ [10] @ lit ''recorded vpn status: '' @ show_status status) g)"

definition disconnect_report ::
  "((rstr \<times> rstr) option \<Rightarrow> rstr) \<Rightarrow> (vpn_status_file option \<Rightarrow> rstr) \<Rightarrow> machine \<Rightarrow> bool \<Rightarrow> 'k gui \<Rightarrow> 'k gui" where
  \<comment> \<open>\<open>spawn_disconnect\<close> right after the loop\<close>
  "disconnect_report show_route show_status m confirmed g =
     (if \<not> confirmed
      then let a = log_line (lit ''worker did not confirm disconnect within 10s, forcing...'') g;
               b = log_network_diagnostics show_route show_status m
                     (lit ''disconnect: worker did not confirm in time'') a
        in (case Option.bind (read_status (g_files b)) vs_pid of
              Some pid \<Rightarrow>
                if pid_alive (m_kill m) pid
                then b\<lparr>g_elevated := g_elevated b @ [lit ''kill -9 '' @ show_dec (unat pid)]\<rparr> else b
            | None \<Rightarrow> b)
      else log_line (lit ''disconnected'') g)"

definition disconnect_finish ::
  "((rstr \<times> rstr) option \<Rightarrow> rstr) \<Rightarrow> (vpn_status_file option \<Rightarrow> rstr) \<Rightarrow> machine \<Rightarrow> bool \<Rightarrow> 'k gui \<Rightarrow> 'k gui" where
  \<comment> \<open>what follows the loop in \<open>spawn_disconnect\<close>\<close>
  "disconnect_finish show_route show_status m confirmed g =
     (let g1 = disconnect_report show_route show_status m confirmed g;
          g2 = g1\<lparr>g_files := clear_status (clear_disconnect_request (g_files g1)),
                  g_status := VpnDisconnected, g_interface := None\<rparr>;
          g3 = heal_route m False g2
      in g3\<lparr>g_busy := False\<rparr>)"

fun heal_act ::
  "((rstr \<times> rstr) option \<Rightarrow> rstr) \<Rightarrow> (vpn_status_file option \<Rightarrow> rstr) \<Rightarrow> strings \<Rightarrow> machine \<Rightarrow> heal_action \<Rightarrow> 'k gui \<Rightarrow> 'k gui" where
  "heal_act show_route show_status t m (Elevated cmd) g = g\<lparr>g_elevated := g_elevated g @ [cmd]\<rparr>"
| "heal_act show_route show_status t m (HealLog s) g = log_line s g"
| "heal_act show_route show_status t m (Diagnostics ctx) g = log_network_diagnostics show_route show_status m ctx g"
| "heal_act show_route show_status t m NotifyRestored g =
     g\<lparr>g_notices := g_notices g @ [(s_notif_app_name t, s_notif_restored_after_failure t)]\<rparr>"
| "heal_act show_route show_status t m NotifyFailed g =
     g\<lparr>g_notices := g_notices g @ [(s_notif_app_name t, s_notif_restore_failed t)]\<rparr>"
| "heal_act show_route show_status t m Sleep g = g"

definition heal_finish ::
  "((rstr \<times> rstr) option \<Rightarrow> rstr) \<Rightarrow> (vpn_status_file option \<Rightarrow> rstr) \<Rightarrow> strings \<Rightarrow> (nat \<Rightarrow> machine) \<Rightarrow>
   (nat \<Rightarrow> vpn_status_file option) \<Rightarrow> bool \<Rightarrow> 'k gui \<Rightarrow> 'k gui" where
  \<comment> \<open>a healing thread as the application sees it, up to the drop of its guard; the snapshot it removes
    is removed before its log lines are added, which makes no difference\<close>
  "heal_finish show_route show_status t m st notify g =
     (let (acts, fs) = heal_thread m st notify (g_files g);
          g1 = fold (heal_act show_route show_status t (m MAX_ATTEMPTS)) acts (g\<lparr>g_files := fs\<rparr>)
      in g1\<lparr>g_healing := False\<rparr>)"

section \<open>The status bar\<close>

datatype tray_event = TrayConnect | TrayDisconnect | TrayShow | TrayQuit

fun handle_tray_events :: "tray_event list \<Rightarrow> 'k gui \<Rightarrow> 'k gui" where
  "handle_tray_events [] g = g"
| "handle_tray_events (e # es) g =
     (case g_tray g of
        None \<Rightarrow> g
      | Some _ \<Rightarrow>
          (case e of
             TrayConnect \<Rightarrow> handle_tray_events es (spawn_connect g)
           | TrayDisconnect \<Rightarrow> handle_tray_events es (spawn_disconnect g)
           | TrayShow \<Rightarrow> handle_tray_events es (g\<lparr>g_visible := True\<rparr>)
           | TrayQuit \<Rightarrow> g\<lparr>g_exited := True\<rparr>))"

definition ICON_SIZE :: nat where "ICON_SIZE = 22"

definition in_dot :: "nat \<Rightarrow> nat \<Rightarrow> bool" where
  \<comment> \<open>whether the middle of the pixel is within the radius; in half pixels, so that all terms are
    integers: the floats of the code hold these small multiples of a half and a quarter exactly\<close>
  "in_dot x y \<longleftrightarrow>
     (let dx = 2 * int x + 1 - int ICON_SIZE; dy = 2 * int y + 1 - int ICON_SIZE; radius = int ICON_SIZE - 4
      in dx * dx + dy * dy \<le> radius * radius)"

fun draw_pixels :: "nat list \<Rightarrow> (nat \<times> nat) list \<Rightarrow> nat list \<Rightarrow> nat list option" where
  "draw_pixels rgba [] buf = Some buf"
| "draw_pixels rgba ((x, y) # ps) buf =
     (let i = (y * ICON_SIZE + x) * 4
      in if in_dot x y
         then (case copy_into buf i (i + 4) rgba of None \<Rightarrow> None | Some buf1 \<Rightarrow> draw_pixels rgba ps buf1)
         else draw_pixels rgba ps buf)"

definition pixels :: "(nat \<times> nat) list" where
  "pixels = concat (map (\<lambda>y. map (\<lambda>x. (x, y)) [0..<ICON_SIZE]) [0..<ICON_SIZE])"

definition make_dot_icon :: "nat list \<Rightarrow> nat list option" where
  \<comment> \<open>an icon needs four bytes for each pixel; \<open>expect\<close> panics otherwise\<close>
  "make_dot_icon rgba =
     (case draw_pixels rgba pixels (replicate (ICON_SIZE * ICON_SIZE * 4) 0) of
        None \<Rightarrow> None
      | Some buf \<Rightarrow> if length buf = ICON_SIZE * ICON_SIZE * 4 then Some buf else None)"

definition GREY :: "nat list" where "GREY = [140, 140, 140, 255]"

definition build_tray :: "strings \<Rightarrow> tray" where
  "build_tray t = \<lparr>tr_status = s_tray_status_disconnected t, tr_connect = True, tr_disconnect = False, tr_rgba = GREY\<rparr>"

definition tray_look :: "strings \<Rightarrow> vpn_status \<Rightarrow> rstr \<times> nat list" where
  "tray_look t status =
     (case status of
        VpnDisconnected \<Rightarrow> (s_tray_status_disconnected t, GREY)
      | VpnConnecting \<Rightarrow> (s_tray_status_connecting t, [230, 180, 40, 255])
      | VpnConnected \<Rightarrow> (s_tray_status_connected t, [40, 190, 90, 255]))"

definition refresh_tray :: "strings \<Rightarrow> 'k gui \<Rightarrow> 'k gui" where
  "refresh_tray t g =
     (case g_tray g of
        None \<Rightarrow> g
      | Some tr \<Rightarrow>
          let status = g_status g; busy = g_busy g; (label, rgba) = tray_look t status
          in g\<lparr>g_tray := Some \<lparr>tr_status = label, tr_connect = (\<not> busy \<and> status = VpnDisconnected),
                 tr_disconnect = (\<not> busy \<and> status \<noteq> VpnDisconnected), tr_rgba = rgba\<rparr>\<rparr>)"

section \<open>The frame logic\<close>

definition worker_up :: "machine \<Rightarrow> vpn_status_file option \<Rightarrow> bool" where
  "worker_up m st \<longleftrightarrow>
     Option.bind st vs_state = Some WorkerConnected \<and>
     (case Option.bind st vs_pid of Some pid \<Rightarrow> pid_alive (m_kill m) pid | None \<Rightarrow> False)"

definition worker_gave_up :: "machine \<Rightarrow> vpn_status_file option \<Rightarrow> bool" where
  "worker_gave_up m st =
     (case st of
        Some s \<Rightarrow> vs_state s = Some WorkerError \<or> vs_state s = Some WorkerDisconnected \<or>
          \<not> (case vs_pid s of Some pid \<Rightarrow> pid_alive (m_kill m) pid | None \<Rightarrow> False)
      | None \<Rightarrow> True)"

definition poll_status :: "machine \<Rightarrow> 'k gui \<Rightarrow> 'k gui \<times> bool" where
  \<comment> \<open>the match on the state, with \<open>needs_heal\<close>\<close>
  "poll_status m g =
     (let worker_status = read_status (g_files g)
      in case (g_status g, worker_up m worker_status) of
           (VpnConnected, False) \<Rightarrow> (g\<lparr>g_status := VpnDisconnected, g_interface := None\<rparr>, True)
         | (VpnConnecting, True) \<Rightarrow>
             (g\<lparr>g_status := VpnConnected, g_interface := Option.bind worker_status vs_interface\<rparr>, False)
         | (VpnDisconnected, True) \<Rightarrow>
             (g\<lparr>g_status := VpnConnected, g_interface := Option.bind worker_status vs_interface\<rparr>, False)
         | (VpnConnecting, False) \<Rightarrow>
             if worker_gave_up m worker_status then (g\<lparr>g_status := VpnDisconnected\<rparr>, False) else (g, False)
         | _ \<Rightarrow> (g, False))"

definition poll :: "machine \<Rightarrow> int \<Rightarrow> 'k gui \<Rightarrow> 'k gui" where
  "poll m now g =
     (if now - g_last_poll g > 3000
      then let g0 = g\<lparr>g_last_poll := now\<rparr>
        in if g_busy g0 then g0
           else (case poll_status m g0 of
                   (g1, needs_heal) \<Rightarrow>
                     if needs_heal then (heal_route m True g1)\<lparr>g_last_heal := Some now\<rparr>
                     else if g_status g1 = VpnDisconnected \<and> \<not> has_default_route m (g_files g1) \<and>
                       (case g_last_heal g1 of None \<Rightarrow> True | Some t \<Rightarrow> now - t > 30000)
                     then (heal_route m True g1)\<lparr>g_last_heal := Some now\<rparr>
                     else g1)
      else g)"

definition track_connected :: "int \<Rightarrow> 'k gui \<Rightarrow> 'k gui" where
  "track_connected now g =
     (case g_status g of
        VpnConnected \<Rightarrow> if g_connected_since g = None then g\<lparr>g_connected_since := Some now\<rparr> else g
      | _ \<Rightarrow> g\<lparr>g_connected_since := None\<rparr>)"

definition logic :: "strings \<Rightarrow> machine \<Rightarrow> int \<Rightarrow> tray_event list \<Rightarrow> bool \<Rightarrow> 'k gui \<Rightarrow> 'k gui" where
  \<comment> \<open>\<open>close\<close>: the window was asked to close\<close>
  "logic t m now events close g =
     (let g1 = (if g_tray g = None then g\<lparr>g_tray := Some (build_tray t)\<rparr> else g);
          g2 = handle_tray_events events g1
      in if g_exited g2 then g2
         else let g3 = refresh_tray t g2;
                  g4 = (if close then g3\<lparr>g_visible := False\<rparr> else g3);
                  g5 = poll m now g4
           in track_connected now g5)"

section \<open>The screens\<close>

definition pad2 :: "nat \<Rightarrow> rstr" where
  \<comment> \<open>\<open>{:02}\<close>\<close>
  "pad2 n = (if n < 10 then 48 # show_dec n else show_dec n)"

definition format_duration :: "nat \<Rightarrow> rstr" where
  "format_duration secs =
     (let h = secs div 3600; m = secs mod 3600 div 60; s = secs mod 60
      in if h > 0 then pad2 h @ [58] @ pad2 m @ [58] @ pad2 s else pad2 m @ [58] @ pad2 s)"

definition hover_text :: "strings \<Rightarrow> vpn_status \<Rightarrow> rstr" where
  "hover_text t status =
     (case status of VpnDisconnected \<Rightarrow> s_connect t | VpnConnecting \<Rightarrow> s_cancel t | VpnConnected \<Rightarrow> s_disconnect t)"

definition status_text :: "strings \<Rightarrow> vpn_status \<Rightarrow> rstr" where
  "status_text t status =
     (case status of VpnDisconnected \<Rightarrow> s_not_connected t | VpnConnecting \<Rightarrow> s_connecting t | VpnConnected \<Rightarrow> s_connected t)"

definition current_name :: "'k gui \<Rightarrow> rstr" where
  "current_name g = (case selected_profile (g_config g) of Some p \<Rightarrow> p_name p | None \<Rightarrow> [])"

definition subtitle :: "int \<Rightarrow> 'k gui \<Rightarrow> rstr" where
  "subtitle now g =
     (case g_status g of
        VpnConnected \<Rightarrow>
          let dur = (case g_connected_since g of Some t \<Rightarrow> nat (now - t) div 1000 | None \<Rightarrow> 0)
          in (case g_interface g of
                Some i \<Rightarrow> format_duration dur @ [32, 183, 32] @ i
              | None \<Rightarrow> format_duration dur)
      | _ \<Rightarrow> current_name g)"

datatype ui_event =
    PowerClick
  | SwitchTo rstr
  | GearClick
  | BackClick
  | PickInList rstr
  | RemoveInList rstr
  | AddClick
  | EditName rstr
  | EditServer rstr
  | EditUsername rstr
  | EditPassword rstr
  | ToggleSave bool
  | SaveClick

definition listed :: "rstr \<Rightarrow> 'k gui \<Rightarrow> bool" where
  \<comment> \<open>there is a label for the profile\<close>
  "listed ident g \<longleftrightarrow> ident \<in> set (map p_id (c_profiles (g_config g)))"

definition connect_screen :: "'k security \<Rightarrow> ui_event \<Rightarrow> 'k gui \<Rightarrow> 'k gui" where
  "connect_screen security ev g =
     (let status = g_status g; busy = g_busy g
      in case ev of
           SwitchTo ident \<Rightarrow>
             if listed ident g \<and> c_selected (g_config g) \<noteq> Some ident then select_profile security ident g else g
         | GearClick \<Rightarrow> g\<lparr>g_view := SettingsView\<rparr>
         | PowerClick \<Rightarrow>
             if busy then g
             else (case status of VpnDisconnected \<Rightarrow> spawn_connect g | _ \<Rightarrow> spawn_disconnect g)
         | _ \<Rightarrow> g)"

definition save_settings :: "'k security \<Rightarrow> 'k gui \<Rightarrow> 'k gui option" where
  "save_settings security g = do {
     let g1 = config_save g;
     ident \<leftarrow> c_selected (g_config g1);
     Some (if g_save_password g1 \<and> g_password g1 \<noteq> []
           then g1\<lparr>g_keychain := snd (keychain_set security ident (g_password g1) (g_keychain g1))\<rparr>
           else if \<not> g_save_password g1
           then g1\<lparr>g_keychain := keychain_delete security ident (g_keychain g1)\<rparr>
           else g1)
   }"

definition settings_form :: "'k security \<Rightarrow> ui_event \<Rightarrow> 'k gui \<Rightarrow> 'k gui option" where
  \<comment> \<open>the fields of the selected profile; \<open>None\<close> is a panic\<close>
  "settings_form security ev g = do {
     _ \<leftarrow> selected_profile (g_config g);
     (case ev of
        EditName v \<Rightarrow> Some (g\<lparr>g_config := update_selected (\<lambda>p. p\<lparr>p_name := v\<rparr>) (g_config g)\<rparr>)
      | EditServer v \<Rightarrow> Some (g\<lparr>g_config := update_selected (\<lambda>p. p\<lparr>p_server := v\<rparr>) (g_config g)\<rparr>)
      | EditUsername v \<Rightarrow> Some (g\<lparr>g_config := update_selected (\<lambda>p. p\<lparr>p_username := v\<rparr>) (g_config g)\<rparr>)
      | EditPassword v \<Rightarrow> Some (g\<lparr>g_password := v\<rparr>)
      | ToggleSave b \<Rightarrow> Some (g\<lparr>g_save_password := b\<rparr>)
      | SaveClick \<Rightarrow> save_settings security g
      | _ \<Rightarrow> Some g)
   }"

definition settings_screen :: "'k security \<Rightarrow> strings \<Rightarrow> nat \<Rightarrow> ui_event \<Rightarrow> 'k gui \<Rightarrow> 'k gui option" where
  \<comment> \<open>with the pending changes that \<open>ui\<close> applies afterwards\<close>
  "settings_screen security t nanos ev g =
     (let can_go_back = selected_profile (g_config g) \<noteq> None
      in case ev of
           BackClick \<Rightarrow> Some (if can_go_back then g\<lparr>g_view := ConnectView\<rparr> else g)
         | PickInList ident \<Rightarrow> Some (if listed ident g then select_profile security ident g else g)
         | RemoveInList ident \<Rightarrow> Some (if listed ident g then remove_profile security ident g else g)
         | AddClick \<Rightarrow> Some ((add_profile security t nanos g)\<lparr>g_view := SettingsView\<rparr>)
         | _ \<Rightarrow> if selected_profile (g_config g) = None then Some g else settings_form security ev g)"

definition ui_frame :: "'k security \<Rightarrow> strings \<Rightarrow> nat \<Rightarrow> ui_event option \<Rightarrow> 'k gui \<Rightarrow> 'k gui option" where
  "ui_frame security t nanos ev g =
     (let g1 = (if selected_profile (g_config g) = None then g\<lparr>g_view := SettingsView\<rparr> else g)
      in case ev of
           None \<Rightarrow> Some g1
         | Some e \<Rightarrow>
             (case g_view g1 of
                ConnectView \<Rightarrow> Some (connect_screen security e g1)
              | SettingsView \<Rightarrow> settings_screen security t nanos e g1))"

end
