(* ===== verification/Gui_Run.thy ===== *)
theory Gui_Run
  imports Gui
begin

text \<open>
  How the application runs: the steps its threads and frames take, the invariant of its state, and
  what the status poll, the threads and the screens do on every path.
\<close>

section \<open>What operations leave alone\<close>

lemma select_profile_simps [simp]:
  "g_config (select_profile sec i g) = (g_config g)\<lparr>c_selected := Some i\<rparr>"
  "g_status (select_profile sec i g) = g_status g"
  "g_interface (select_profile sec i g) = g_interface g"
  "g_busy (select_profile sec i g) = g_busy g"
  "g_jobs (select_profile sec i g) = g_jobs g"
  by (simp_all add: select_profile_def config_save_def Let_def split: prod.splits)

lemma add_profile_simps [simp]:
  "g_config (add_profile sec t nanos g) =
     (let p = profile_blank t nanos (length (c_profiles (g_config g)) + 1)
      in \<lparr>c_profiles = c_profiles (g_config g) @ [p], c_selected = Some (gen_id nanos)\<rparr>)"
  "g_status (add_profile sec t nanos g) = g_status g"
  "g_interface (add_profile sec t nanos g) = g_interface g"
  "g_busy (add_profile sec t nanos g) = g_busy g"
  "g_jobs (add_profile sec t nanos g) = g_jobs g"
  by (simp_all add: add_profile_def profile_blank_def Let_def)

lemma remove_profile_simps [simp]:
  "g_config (remove_profile sec i g) =
     (let c = g_config g; ps = filter (\<lambda>p. p_id p \<noteq> i) (c_profiles c)
      in \<lparr>c_profiles = ps, c_selected =
           (if c_selected c = Some i then (case ps of p # _ \<Rightarrow> Some (p_id p) | [] \<Rightarrow> None) else c_selected c)\<rparr>)"
  "g_status (remove_profile sec i g) = g_status g"
  "g_interface (remove_profile sec i g) = g_interface g"
  "g_busy (remove_profile sec i g) = g_busy g"
  "g_jobs (remove_profile sec i g) = g_jobs g"
  by (simp_all add: remove_profile_def config_save_def Let_def split: list.split)

lemma heal_route_simps [simp]:
  "g_config (heal_route m n g) = g_config g"
  "g_status (heal_route m n g) = g_status g"
  "g_interface (heal_route m n g) = g_interface g"
  "g_busy (heal_route m n g) = g_busy g"
  "g_jobs (heal_route m n g) = g_jobs g"
  "g_tray (heal_route m n g) = g_tray g"
  "g_connected_since (heal_route m n g) = g_connected_since g"
  by (simp_all add: heal_route_def split: prod.splits)

lemma log_line_simps [simp]:
  "g_config (log_line s g) = g_config g"
  "g_status (log_line s g) = g_status g"
  "g_interface (log_line s g) = g_interface g"
  "g_busy (log_line s g) = g_busy g"
  "g_jobs (log_line s g) = g_jobs g"
  "g_elevated (log_line s g) = g_elevated g"
  by (simp_all add: log_line_def)

lemma heal_act_simps [simp]:
  "g_config (heal_act fr fs t m a g) = g_config g"
  "g_status (heal_act fr fs t m a g) = g_status g"
  "g_interface (heal_act fr fs t m a g) = g_interface g"
  "g_busy (heal_act fr fs t m a g) = g_busy g"
  "g_jobs (heal_act fr fs t m a g) = g_jobs g"
  by (cases a; simp add: log_network_diagnostics_def Let_def)+

lemma heal_finish_simps [simp]:
  "g_config (heal_finish fr fs t ms st n g) = g_config g"
  "g_status (heal_finish fr fs t ms st n g) = g_status g"
  "g_interface (heal_finish fr fs t ms st n g) = g_interface g"
  "g_busy (heal_finish fr fs t ms st n g) = g_busy g"
  "g_jobs (heal_finish fr fs t ms st n g) = g_jobs g"
proof -
  have f: "g_config (fold (heal_act fr fs t m) as h) = g_config h"
    "g_status (fold (heal_act fr fs t m) as h) = g_status h"
    "g_interface (fold (heal_act fr fs t m) as h) = g_interface h"
    "g_busy (fold (heal_act fr fs t m) as h) = g_busy h"
    "g_jobs (fold (heal_act fr fs t m) as h) = g_jobs h" for m as and h :: "'a gui"
    by (induction as arbitrary: h) simp_all
  show "g_config (heal_finish fr fs t ms st n g) = g_config g"
    "g_status (heal_finish fr fs t ms st n g) = g_status g"
    "g_interface (heal_finish fr fs t ms st n g) = g_interface g"
    "g_busy (heal_finish fr fs t ms st n g) = g_busy g"
    "g_jobs (heal_finish fr fs t ms st n g) = g_jobs g"
    by (simp_all add: heal_finish_def Let_def f split: prod.split)
qed

lemma update_first_ids:
  assumes "\<And>p. p_id (f p) = p_id p"
  shows "map p_id (update_first i f ps) = map p_id ps"
  using assms by (induction ps) simp_all

section \<open>The invariant\<close>

definition config_ok :: "config \<Rightarrow> bool" where
  \<comment> \<open>profile ids are distinct, and the selected profile exists unless there is none\<close>
  "config_ok c \<longleftrightarrow>
     distinct (map p_id (c_profiles c)) \<and>
     (case c_selected c of Some i \<Rightarrow> i \<in> set (map p_id (c_profiles c)) | None \<Rightarrow> c_profiles c = [])"

definition gui_ok :: "'k gui \<Rightarrow> bool" where
  "gui_ok g \<longleftrightarrow>
     config_ok (g_config g) \<and>
     (g_busy g \<longleftrightarrow> g_jobs g \<noteq> []) \<and> length (g_jobs g) \<le> 1 \<and>
     (\<forall>p pw. g_jobs g = [ConnectJob p pw] \<longrightarrow> g_status g = VpnConnecting) \<and>
     (g_interface g \<noteq> None \<longrightarrow> g_status g = VpnConnected)"

definition fresh_clicks :: "'k gui \<Rightarrow> tray_event list \<Rightarrow> bool" where
  \<comment> \<open>a click on connect or disconnect comes alone, while the menu shows the state as it is\<close>
  "fresh_clicks g es \<longleftrightarrow>
     (TrayConnect \<notin> set es \<and> TrayDisconnect \<notin> set es) \<or>
     (es = [TrayConnect] \<and> \<not> g_busy g \<and> g_status g = VpnDisconnected) \<or>
     (es = [TrayDisconnect] \<and> \<not> g_busy g \<and> g_status g \<noteq> VpnDisconnected)"

definition loadable :: "config option \<Rightarrow> bool" where
  "loadable disk \<longleftrightarrow>
     (case disk of None \<Rightarrow> True
      | Some c \<Rightarrow> distinct (map p_id (c_profiles c)) \<and>
          (case c_selected c of Some i \<Rightarrow> c_profiles c = [] \<or> i \<in> set (map p_id (c_profiles c)) | None \<Rightarrow> True))"

lemma config_ok_initial: "loadable disk \<Longrightarrow> config_ok (initial_config t nanos disk)"
  by (auto simp: config_ok_def initial_config_def config_load_def loadable_def Let_def
      split: option.splits list.splits)

lemma config_ok_selected: "config_ok c \<Longrightarrow> selected_profile c = None \<longleftrightarrow> c_profiles c = []"
  by (auto simp: config_ok_def selected_profile_def find_None_iff split: option.splits)

lemma config_ok_select: "config_ok c \<Longrightarrow> i \<in> set (map p_id (c_profiles c)) \<Longrightarrow> config_ok (c\<lparr>c_selected := Some i\<rparr>)"
  by (simp add: config_ok_def)

lemma config_ok_update:
  assumes "config_ok c" "\<And>p. p_id (f p) = p_id p"
  shows "config_ok (update_selected f c)"
proof (cases "c_selected c")
  case (Some i)
  have "map p_id (update_first i f (c_profiles c)) = map p_id (c_profiles c)"
    by (rule update_first_ids) (rule assms(2))
  with Some assms(1) show ?thesis by (simp add: config_ok_def update_selected_def)
qed (use assms in \<open>simp add: update_selected_def\<close>)

lemma config_ok_remove:
  assumes "config_ok (g_config g)"
  shows "config_ok (g_config (remove_profile sec i g))"
proof -
  define ps where "ps = filter (\<lambda>p. p_id p \<noteq> i) (c_profiles (g_config g))"
  have d: "distinct (map p_id ps)"
    using assms by (simp add: ps_def config_ok_def distinct_map_filter)
  show ?thesis
  proof (cases "c_selected (g_config g)")
    case None
    with assms show ?thesis by (simp add: config_ok_def Let_def)
  next
    case (Some j)
    then have "j \<in> set (map p_id (c_profiles (g_config g)))"
      using assms by (simp add: config_ok_def)
    then have "j \<noteq> i \<Longrightarrow> j \<in> set (map p_id ps)" by (auto simp: ps_def)
    with d Some show ?thesis
      by (simp add: config_ok_def Let_def ps_def [symmetric] split: list.split)
  qed
qed

lemma config_ok_add:
  assumes "config_ok (g_config g)" "\<not> listed (gen_id nanos) g"
  shows "config_ok (g_config (add_profile sec t nanos g))"
  using assms by (simp add: config_ok_def listed_def Let_def profile_blank_def)

lemma gui_ok_config:
  assumes "gui_ok g" "config_ok (g_config g')" "g_status g' = g_status g" "g_interface g' = g_interface g"
    "g_busy g' = g_busy g" "g_jobs g' = g_jobs g"
  shows "gui_ok g'"
  using assms by (simp add: gui_ok_def)

lemma gui_ok_new:
  assumes "loadable disk"
  shows "gui_ok (gui_new sec t nanos now m disk k fs)"
  using config_ok_initial [OF assms, of t nanos]
  by (simp add: gui_ok_def gui_new_def Let_def split: prod.splits)

lemma gui_ok_spawn_connect:
  assumes "gui_ok g" "\<not> g_busy g" "g_status g = VpnDisconnected"
  shows "gui_ok (spawn_connect g)"
  using assms by (simp add: gui_ok_def spawn_connect_def split: option.split)

lemma gui_ok_spawn_disconnect:
  assumes "gui_ok g" "\<not> g_busy g"
  shows "gui_ok (spawn_disconnect g)"
  using assms by (simp add: gui_ok_def spawn_disconnect_def)

lemma handle_tray_quiet:
  assumes "TrayConnect \<notin> set es" "TrayDisconnect \<notin> set es"
  shows "g_config (handle_tray_events es g) = g_config g \<and> g_status (handle_tray_events es g) = g_status g \<and>
    g_interface (handle_tray_events es g) = g_interface g \<and> g_busy (handle_tray_events es g) = g_busy g \<and>
    g_jobs (handle_tray_events es g) = g_jobs g"
  using assms by (induction es g rule: handle_tray_events.induct) (auto split: option.split tray_event.splits)

lemma gui_ok_tray:
  assumes "gui_ok g" "fresh_clicks g es"
  shows "gui_ok (handle_tray_events es g)"
proof (cases "TrayConnect \<notin> set es \<and> TrayDisconnect \<notin> set es")
  case True
  then have e: "TrayConnect \<notin> set es" "TrayDisconnect \<notin> set es" by simp_all
  show ?thesis
    using handle_tray_quiet [OF e, of g] assms(1) by (simp add: gui_ok_def)
next
  case False
  with assms show ?thesis
    by (auto simp: fresh_clicks_def gui_ok_spawn_connect gui_ok_spawn_disconnect split: option.split)
qed

lemma poll_status_cases:
  obtains (up) "worker_up m (read_status (g_files g))" "g_status g \<noteq> VpnConnected"
      "poll_status m g = (g\<lparr>g_status := VpnConnected, g_interface := Option.bind (read_status (g_files g)) vs_interface\<rparr>, False)"
  | (lost) "\<not> worker_up m (read_status (g_files g))" "g_status g = VpnConnected"
      "poll_status m g = (g\<lparr>g_status := VpnDisconnected, g_interface := None\<rparr>, True)"
  | (failed) "\<not> worker_up m (read_status (g_files g))" "g_status g = VpnConnecting"
      "worker_gave_up m (read_status (g_files g))" "poll_status m g = (g\<lparr>g_status := VpnDisconnected\<rparr>, False)"
  | (same) "worker_up m (read_status (g_files g)) \<longleftrightarrow> g_status g = VpnConnected"
      "g_status g = VpnConnecting \<longrightarrow> \<not> worker_gave_up m (read_status (g_files g))" "poll_status m g = (g, False)"
  by (cases "g_status g"; cases "worker_up m (read_status (g_files g))";
      cases "worker_gave_up m (read_status (g_files g))") (auto simp: poll_status_def Let_def)

lemma poll_fields:
  "g_config (poll m now g) = g_config g" "g_busy (poll m now g) = g_busy g" "g_jobs (poll m now g) = g_jobs g"
  by (auto simp: poll_def poll_status_def Let_def split: prod.splits vpn_status.splits bool.splits if_splits)

lemma gui_ok_poll:
  assumes "gui_ok g"
  shows "gui_ok (poll m now g)"
proof -
  define h where "h = g\<lparr>g_last_poll := now\<rparr>"
  have h: "gui_ok h" using assms by (simp add: h_def gui_ok_def)
  show ?thesis
  proof (cases "now - g_last_poll g > 3000 \<and> \<not> g_busy h")
    case False
    with h assms show ?thesis by (auto simp: poll_def h_def [symmetric] Let_def)
  next
    case True
    then have j: "g_jobs h = []" using h by (simp add: gui_ok_def)
    obtain g1 n where p: "poll_status m h = (g1, n)" by fastforce
    have "config_ok (g_config g1) \<and> g_jobs g1 = [] \<and> \<not> g_busy g1 \<and> (g_interface g1 \<noteq> None \<longrightarrow> g_status g1 = VpnConnected)"
      using p True h j by (cases rule: poll_status_cases [of m h]) (auto simp: gui_ok_def)
    then show ?thesis
      using True p by (auto simp: poll_def h_def [symmetric] Let_def gui_ok_def)
  qed
qed

lemma gui_ok_logic:
  assumes "gui_ok g" "fresh_clicks g es"
  shows "gui_ok (logic t m now es close g)"
proof -
  define g1 where "g1 = (if g_tray g = None then g\<lparr>g_tray := Some (build_tray t)\<rparr> else g)"
  have "gui_ok g1" "fresh_clicks g1 es"
    using assms by (simp_all add: g1_def gui_ok_def fresh_clicks_def)
  then have g2: "gui_ok (handle_tray_events es g1)" by (rule gui_ok_tray)
  define g4 where "g4 = (let g3 = refresh_tray t (handle_tray_events es g1) in if close then g3\<lparr>g_visible := False\<rparr> else g3)"
  have "gui_ok g4"
    using g2 by (auto simp: g4_def gui_ok_def refresh_tray_def Let_def split: option.split prod.split)
  then have "gui_ok (poll m now g4)" by (rule gui_ok_poll)
  then have "gui_ok (track_connected now (poll m now g4))"
    by (auto simp: gui_ok_def track_connected_def split: vpn_status.split)
  with g2 show ?thesis
    unfolding logic_def g1_def [symmetric] Let_def g4_def [unfolded Let_def, symmetric] by simp
qed

section \<open>Steps and reachable states\<close>

inductive gui_step :: "'k security \<Rightarrow> strings \<Rightarrow> 'k gui \<Rightarrow> 'k gui \<Rightarrow> bool" for security t where
  frame: "\<not> g_exited g \<Longrightarrow> fresh_clicks g es \<Longrightarrow> gui_step security t g (logic t m now es close g)"
| ui: "ui_frame security t nanos ev g = Some g' \<Longrightarrow> \<not> listed (gen_id nanos) g \<Longrightarrow> gui_step security t g g'"
| connect: "g_jobs g = js @ ConnectJob p pw # js' \<Longrightarrow>
    gui_step security t g (connect_thread t exe staging m p pw (g\<lparr>g_jobs := js @ js'\<rparr>))"
| disconnect: "g_jobs g = js @ DisconnectJob # js' \<Longrightarrow>
    gui_step security t g (disconnect_begin (g\<lparr>g_jobs := js @ DisconnectWait # js'\<rparr>))"
| disconnected: "g_jobs g = js @ DisconnectWait # js' \<Longrightarrow>
    gui_step security t g (disconnect_finish fr fs m confirmed (g\<lparr>g_jobs := js @ js'\<rparr>))"
| session: "gui_step security t g (session_ended result g)"
| healed: "g_healing g \<Longrightarrow> g_heals g = ns @ [n] \<Longrightarrow> gui_step security t g (heal_finish fr fs t machines st n g)"
| worker: "gui_step security t g (g\<lparr>g_files := files\<rparr>)"

inductive gui_reach :: "'k security \<Rightarrow> strings \<Rightarrow> 'k gui \<Rightarrow> bool" for security t where
  start: "loadable disk \<Longrightarrow> gui_reach security t (gui_new security t nanos now m disk k fs)"
| step: "gui_reach security t g \<Longrightarrow> gui_step security t g g' \<Longrightarrow> gui_reach security t g'"

lemma gui_ok_connect_screen:
  assumes "gui_ok g"
  shows "gui_ok (connect_screen security e g)"
proof (cases e)
  case PowerClick
  with assms show ?thesis
    by (cases "g_status g")
      (simp_all add: connect_screen_def Let_def gui_ok_spawn_connect gui_ok_spawn_disconnect)
next
  case (SwitchTo i)
  show ?thesis
  proof (cases "listed i g \<and> c_selected (g_config g) \<noteq> Some i")
    case True
    have "gui_ok (select_profile security i g)"
      using True assms by (intro gui_ok_config [OF assms]) (auto simp: config_ok_def gui_ok_def listed_def)
    with SwitchTo True show ?thesis by (simp add: connect_screen_def Let_def)
  qed (use SwitchTo assms in \<open>auto simp: connect_screen_def Let_def\<close>)
qed (use assms in \<open>auto simp: connect_screen_def Let_def gui_ok_def\<close>)

lemma gui_ok_form:
  assumes "gui_ok g" "settings_form security ev g = Some g'"
  shows "gui_ok g'"
proof -
  have u: "gui_ok (g\<lparr>g_config := update_selected f (g_config g)\<rparr>)" if "\<And>p. p_id (f p) = p_id p" for f
    using assms(1) config_ok_update [OF _ that, of "g_config g"] by (simp add: gui_ok_def)
  have s: "gui_ok x" if "save_settings security g = Some x" for x
  proof -
    from that have "g_config x = g_config g \<and> g_status x = g_status g \<and> g_interface x = g_interface g \<and>
        g_busy x = g_busy g \<and> g_jobs x = g_jobs g"
      by (cases "c_selected (g_config g)") (auto simp: save_settings_def config_save_def Let_def split: if_splits)
    then show ?thesis using assms(1) by (intro gui_ok_config [OF assms(1)]) (simp_all add: gui_ok_def)
  qed
  obtain p where sel: "selected_profile (g_config g) = Some p"
    using assms(2) by (cases "selected_profile (g_config g)") (simp_all add: settings_form_def)
  show ?thesis
  proof (cases ev)
    case (EditName v)
    with assms(2) u [of "p_name_update (\<lambda>_. v)"] sel show ?thesis by (simp add: settings_form_def)
  next
    case (EditServer v)
    with assms(2) u [of "p_server_update (\<lambda>_. v)"] sel show ?thesis by (simp add: settings_form_def)
  next
    case (EditUsername v)
    with assms(2) u [of "p_username_update (\<lambda>_. v)"] sel show ?thesis by (simp add: settings_form_def)
  next
    case SaveClick
    with assms(2) s sel show ?thesis by (simp add: settings_form_def)
  qed (use assms sel in \<open>auto simp: settings_form_def gui_ok_def\<close>)
qed

lemma gui_ok_settings:
  assumes "gui_ok g" "settings_screen security t nanos e g = Some g'" "\<not> listed (gen_id nanos) g"
  shows "gui_ok g'"
proof (cases e)
  case BackClick
  with assms show ?thesis by (auto simp: settings_screen_def Let_def gui_ok_def split: if_splits)
next
  case (PickInList i)
  show ?thesis
  proof (cases "listed i g")
    case True
    have "gui_ok (select_profile security i g)"
      using True assms(1) by (intro gui_ok_config [OF assms(1)]) (auto simp: config_ok_def gui_ok_def listed_def)
    with PickInList True assms(2) show ?thesis by (simp add: settings_screen_def Let_def)
  qed (use PickInList assms in \<open>auto simp: settings_screen_def Let_def\<close>)
next
  case (RemoveInList i)
  have "gui_ok (remove_profile security i g)"
    using assms(1) by (intro gui_ok_config [OF assms(1)] config_ok_remove) (simp_all add: gui_ok_def)
  with RemoveInList assms show ?thesis by (auto simp: settings_screen_def Let_def split: if_splits)
next
  case AddClick
  have "gui_ok (add_profile security t nanos g)"
    using assms(1,3) by (intro gui_ok_config [OF assms(1)] config_ok_add) (simp_all add: gui_ok_def)
  with AddClick assms(2) show ?thesis by (auto simp: settings_screen_def Let_def gui_ok_def)
qed (use assms gui_ok_form [OF assms(1), of security e] in \<open>auto simp: settings_screen_def Let_def split: if_splits\<close>)

lemma gui_ok_ui:
  assumes "gui_ok g" "ui_frame security t nanos ev g = Some g'" "\<not> listed (gen_id nanos) g"
  shows "gui_ok g'"
proof -
  define g1 where "g1 = (if selected_profile (g_config g) = None then g\<lparr>g_view := SettingsView\<rparr> else g)"
  have g1: "gui_ok g1" "\<not> listed (gen_id nanos) g1"
    using assms(1,3) by (simp_all add: g1_def gui_ok_def listed_def)
  show ?thesis
  proof (cases ev)
    case (Some e)
    with assms(2) g1 show ?thesis
      by (cases "g_view g1") (auto simp: ui_frame_def g1_def [symmetric] gui_ok_connect_screen intro: gui_ok_settings)
  qed (use assms(2) g1 in \<open>simp add: ui_frame_def g1_def [symmetric]\<close>)
qed

lemma single_job: "gui_ok g \<Longrightarrow> g_jobs g = js @ j # js' \<Longrightarrow> js = [] \<and> js' = []"
  by (simp add: gui_ok_def)

lemma gui_ok_connect_thread:
  assumes "gui_ok g" "g_jobs g = [ConnectJob p pw]"
  shows "gui_ok (connect_thread t exe staging m p pw (g\<lparr>g_jobs := []\<rparr>))"
  using assms by (auto simp: gui_ok_def connect_thread_def connect_aborted_def Let_def
      split: option.split prod.split sum.split)

lemma gui_ok_disconnect_finish:
  assumes "gui_ok g"
  shows "gui_ok (disconnect_finish fr fs m confirmed (g\<lparr>g_jobs := []\<rparr>))"
proof -
  let ?h = "disconnect_finish fr fs m confirmed (g\<lparr>g_jobs := []\<rparr>)"
  have "g_config ?h = g_config g" "g_jobs ?h = []" "g_interface ?h = None" "\<not> g_busy ?h"
    by (simp_all add: disconnect_finish_def disconnect_report_def log_network_diagnostics_def Let_def split: option.split)
  with assms show ?thesis by (simp add: gui_ok_def)
qed

lemma gui_ok_step:
  assumes "gui_step security t g g'" "gui_ok g"
  shows "gui_ok g'"
  using assms
proof (cases rule: gui_step.cases)
  case frame
  with assms(2) show ?thesis by (simp add: gui_ok_logic)
next
  case ui
  with assms(2) show ?thesis by (simp add: gui_ok_ui)
next
  case (connect js p pw js')
  with single_job [OF assms(2)] gui_ok_connect_thread [OF assms(2)] show ?thesis by fastforce
next
  case (disconnect js js')
  with single_job [OF assms(2)] assms(2) show ?thesis
    by (fastforce simp: gui_ok_def disconnect_begin_def Let_def)
next
  case (disconnected js js')
  with single_job [OF assms(2)] gui_ok_disconnect_finish [OF assms(2)] show ?thesis by fastforce
next
  case session
  with assms(2) show ?thesis by (auto simp: gui_ok_def session_ended_def split: sum.split)
qed (simp_all add: gui_ok_def)

section \<open>The icon\<close>

lemma set_pixels: "(x, y) \<in> set pixels \<longleftrightarrow> x < ICON_SIZE \<and> y < ICON_SIZE"
  by (force simp: pixels_def)

lemma pixel_index: "x < ICON_SIZE \<Longrightarrow> y < ICON_SIZE \<Longrightarrow> (y * ICON_SIZE + x) * 4 + 4 \<le> ICON_SIZE * ICON_SIZE * 4"
proof -
  assume "x < ICON_SIZE" "y < ICON_SIZE"
  then have "Suc y * ICON_SIZE \<le> ICON_SIZE * ICON_SIZE" by (intro mult_le_mono1) simp
  with \<open>x < ICON_SIZE\<close> show ?thesis by simp
qed

lemma pixel_index_inj:
  assumes "x < ICON_SIZE" "u < ICON_SIZE" "y * ICON_SIZE + x = v * ICON_SIZE + u"
  shows "y = v \<and> x = u"
proof -
  have "(y * ICON_SIZE + x) div ICON_SIZE = y" "(v * ICON_SIZE + u) div ICON_SIZE = v" using assms(1,2) by simp_all
  with assms(3) show ?thesis by simp
qed

lemma draw_pixels_eq:
  assumes "length rgba = 4"
  shows "set ps \<subseteq> set pixels \<Longrightarrow> length buf = ICON_SIZE * ICON_SIZE * 4 \<Longrightarrow>
    \<exists>b. draw_pixels rgba ps buf = Some b \<and> length b = ICON_SIZE * ICON_SIZE * 4 \<and>
      (\<forall>u v k. u < ICON_SIZE \<and> v < ICON_SIZE \<and> k < 4 \<longrightarrow> b ! ((v * ICON_SIZE + u) * 4 + k) =
         (if (u, v) \<in> set ps \<and> in_dot u v then rgba ! k else buf ! ((v * ICON_SIZE + u) * 4 + k)))"
proof (induction ps arbitrary: buf)
  case (Cons p ps)
  obtain x y where p: "p = (x, y)" by fastforce
  show ?case
  proof (cases "in_dot x y")
    case False
    with Cons p show ?thesis by fastforce
  next
    case True
    define i where "i = (y * ICON_SIZE + x) * 4"
    define buf1 where "buf1 = take i buf @ rgba @ drop (i + 4) buf"
    have xy: "x < ICON_SIZE" "y < ICON_SIZE" using Cons.prems(1) p set_pixels by auto
    have i: "i + 4 \<le> length buf" using pixel_index [OF xy] Cons.prems(2) by (simp add: i_def)
    have l: "length buf1 = ICON_SIZE * ICON_SIZE * 4" using i Cons.prems(2) assms by (simp add: buf1_def)
    have n: "buf1 ! ((v * ICON_SIZE + u) * 4 + k) =
        (if (u, v) = (x, y) then rgba ! k else buf ! ((v * ICON_SIZE + u) * 4 + k))"
      if "u < ICON_SIZE" "v < ICON_SIZE" "k < 4" for u v k
    proof (cases "v * ICON_SIZE + u = y * ICON_SIZE + x")
      case True
      then have "(u, v) = (x, y)" using pixel_index_inj xy that by blast
      moreover have "(v * ICON_SIZE + u) * 4 + k = i + k" using True by (simp add: i_def)
      ultimately show ?thesis using that(3) i assms by (simp only: buf1_def) (simp add: nth_append)
    next
      case False
      then have "(v * ICON_SIZE + u) * 4 + k < i \<or> i + 4 \<le> (v * ICON_SIZE + u) * 4 + k"
        using that(3) by (simp add: i_def) linarith
      with False i assms show ?thesis by (auto simp: buf1_def nth_append min_absorb2)
    qed
    have d: "draw_pixels rgba (p # ps) buf = draw_pixels rgba ps buf1"
      unfolding p draw_pixels.simps Let_def i_def [symmetric] using True i assms by (simp add: buf1_def)
    have "set ps \<subseteq> set pixels" using Cons.prems(1) by simp
    from Cons.IH [OF this l] n d True show ?thesis by (auto simp: p)
  qed
qed simp

text \<open>The icon is always drawn: a disc of the colour, transparent around it.\<close>

lemma dot_icon_drawn:
  assumes "length rgba = 4"
  obtains b where "make_dot_icon rgba = Some b"
    "\<And>u v k. u < ICON_SIZE \<Longrightarrow> v < ICON_SIZE \<Longrightarrow> k < 4 \<Longrightarrow>
      b ! ((v * ICON_SIZE + u) * 4 + k) = (if in_dot u v then rgba ! k else 0)"
proof -
  obtain b where b: "draw_pixels rgba pixels (replicate (ICON_SIZE * ICON_SIZE * 4) 0) = Some b"
    "length b = ICON_SIZE * ICON_SIZE * 4"
    "\<forall>u v k. u < ICON_SIZE \<and> v < ICON_SIZE \<and> k < 4 \<longrightarrow> b ! ((v * ICON_SIZE + u) * 4 + k) =
       (if (u, v) \<in> set pixels \<and> in_dot u v then rgba ! k
        else replicate (ICON_SIZE * ICON_SIZE * 4) 0 ! ((v * ICON_SIZE + u) * 4 + k))"
    using draw_pixels_eq [OF assms, of pixels "replicate (ICON_SIZE * ICON_SIZE * 4) 0"] by auto
  have z: "(v * ICON_SIZE + u) * 4 + k < ICON_SIZE * ICON_SIZE * 4"
    if "u < ICON_SIZE" "v < ICON_SIZE" "k < 4" for u v k
    using pixel_index [OF that(1,2)] that(3) by simp
  show thesis
    by (rule that [of b]) (use b z set_pixels in \<open>auto simp: make_dot_icon_def\<close>)
qed

lemma tray_icons_drawn: "make_dot_icon (snd (tray_look t status)) \<noteq> None" "make_dot_icon GREY \<noteq> None"
proof -
  have "length (snd (tray_look t status)) = 4" "length GREY = 4"
    by (auto simp: tray_look_def GREY_def split: vpn_status.split)
  then show "make_dot_icon (snd (tray_look t status)) \<noteq> None" "make_dot_icon GREY \<noteq> None"
    by (metis dot_icon_drawn option.distinct(1))+
qed

section \<open>Properties\<close>

text \<open>
  C15. Whatever the user clicks and however the threads and the worker interleave, as long as the
  menu of the status bar is only used while it shows the true state, the clock gives a new profile
  an id not yet taken, and the configuration loaded at the start is a consistent one: the profile ids stay distinct
  and the selected profile exists, so the screens never panic; the busy flag is set exactly while
  one connect or disconnect thread runs, and never two; an interface is only shown while
  connected, and a connect thread only runs in the state Connecting.
\<close>

theorem gui_state_is_consistent:
  assumes "gui_reach security t g"
  shows "gui_ok g \<and> (c_profiles (g_config g) \<noteq> [] \<longrightarrow> selected_profile (g_config g) \<noteq> None) \<and>
    (\<forall>nanos ev. ui_frame security t nanos ev g \<noteq> None)"
proof -
  have ok: "gui_ok g"
    using assms by induction (auto intro: gui_ok_new gui_ok_step)
  have f: "settings_form security e h \<noteq> None" if "selected_profile (g_config h) \<noteq> None" for e h
    using that by (cases e) (auto simp: settings_form_def save_settings_def config_save_def
        selected_profile_def Let_def split: Option.bind_splits)
  then have "ui_frame security t nanos ev g \<noteq> None" for nanos ev
    by (auto simp: ui_frame_def settings_screen_def Let_def
        split: option.split view_mode.split ui_event.split)
  with ok config_ok_selected show ?thesis by (auto simp: gui_ok_def)
qed

definition idle_machine :: machine where
  \<comment> \<open>no process is alive, \<open>route\<close> cannot be started\<close>
  "idle_machine = \<lparr>m_kill = \<lambda>pid. (- 1, 3), m_route_get = None, m_ifconfig = \<lambda>i. False\<rparr>"

definition no_files :: files where
  "no_files = \<lparr>f_status = None, f_disconnect = False, f_password = None, f_snapshot = None, f_log = []\<rparr>"

definition first_start :: "(rstr \<Rightarrow> rstr option) gui" where
  "first_start = gui_new toy_security EN 7 0 idle_machine None (\<lambda>a. None) no_files"

theorem gui_state_is_consistent_witness:
  "gui_ok (logic EN idle_machine 100 [TrayConnect] False first_start)"
proof -
  have r: "gui_reach toy_security EN first_start"
    unfolding first_start_def by (rule gui_reach.start) (simp add: loadable_def)
  have "\<not> g_exited first_start" "fresh_clicks first_start [TrayConnect]"
    by (simp_all add: first_start_def gui_new_def heal_route_def fresh_clicks_def Let_def split: prod.splits)
  then have "gui_reach toy_security EN (logic EN idle_machine 100 [TrayConnect] False first_start)"
    by (intro gui_reach.step [OF r] gui_step.frame)
  from gui_state_is_consistent [OF this] show ?thesis by (elim conjE)
qed

lemma poll_effect:
  assumes "now - g_last_poll g > 3000" "\<not> g_busy g"
  defines "st \<equiv> read_status (g_files g)"
  shows "g_status (poll m now g) = (if worker_up m st then VpnConnected
      else if g_status g = VpnConnected \<or> worker_gave_up m st then VpnDisconnected else g_status g)"
    "g_interface (poll m now g) =
      (if worker_up m st then if g_status g = VpnConnected then g_interface g else Option.bind st vs_interface
       else if g_status g = VpnConnected then None else g_interface g)"
    "g_heals (poll m now g) = g_heals g @
      (if \<not> has_default_route m (g_files g) \<and> \<not> g_healing g \<and>
          (\<not> worker_up m st \<and> g_status g = VpnConnected \<or>
           g_status (poll m now g) = VpnDisconnected \<and> (case g_last_heal g of None \<Rightarrow> True | Some t \<Rightarrow> now - t > 30000))
       then [True] else [])"
proof -
  define h where "h = g\<lparr>g_last_poll := now\<rparr>"
  have h: "g_files h = g_files g" "g_status h = g_status g" "g_interface h = g_interface g"
    "g_busy h = g_busy g" "g_healing h = g_healing g" "g_last_heal h = g_last_heal g" "g_heals h = g_heals g"
    by (simp_all add: h_def)
  have p: "poll m now g = (case poll_status m h of
      (g1, needs_heal) \<Rightarrow>
        if needs_heal then (heal_route m True g1)\<lparr>g_last_heal := Some now\<rparr>
        else if g_status g1 = VpnDisconnected \<and> \<not> has_default_route m (g_files g1) \<and>
          (case g_last_heal g1 of None \<Rightarrow> True | Some t \<Rightarrow> now - t > 30000)
        then (heal_route m True g1)\<lparr>g_last_heal := Some now\<rparr>
        else g1)"
    using assms(1,2) by (simp add: poll_def h_def [symmetric] Let_def h)
  have r: "g_heals (heal_route m True x) = g_heals x @
      (if \<not> has_default_route m (g_files x) \<and> \<not> g_healing x then [True] else [])" for x :: "'a gui"
    by (simp add: heal_route_def heal_route_if_broken_def)
  show "g_status (poll m now g) = (if worker_up m st then VpnConnected
      else if g_status g = VpnConnected \<or> worker_gave_up m st then VpnDisconnected else g_status g)"
    unfolding p st_def by (rule poll_status_cases [of m h]; cases "g_status g") (auto simp: h)
  show "g_interface (poll m now g) =
      (if worker_up m st then if g_status g = VpnConnected then g_interface g else Option.bind st vs_interface
       else if g_status g = VpnConnected then None else g_interface g)"
    unfolding p st_def by (rule poll_status_cases [of m h]; cases "g_status g") (auto simp: h)
  show "g_heals (poll m now g) = g_heals g @
      (if \<not> has_default_route m (g_files g) \<and> \<not> g_healing g \<and>
          (\<not> worker_up m st \<and> g_status g = VpnConnected \<or>
           g_status (poll m now g) = VpnDisconnected \<and> (case g_last_heal g of None \<Rightarrow> True | Some t \<Rightarrow> now - t > 30000))
       then [True] else [])"
    unfolding p st_def by (rule poll_status_cases [of m h]; cases "g_status g") (auto simp: h r)
qed

text \<open>
  C18. The poll is the one place where the shown state follows the worker. When it is due and no
  thread is at work: connected exactly if the worker says so and lives; not connected once a
  connected worker is gone or a connecting one has given up; otherwise unchanged. The interface is
  the one the worker reported. A healing thread is started exactly if the machine has no working
  default route, none is running, and the tunnel was just lost, or the state shown is disconnected and
  nothing was tried within the last thirty seconds. Otherwise the poll leaves the state alone.
\<close>

theorem poll_follows_the_worker:
  assumes "st = read_status (g_files g)" "g' = poll m now g"
  shows "if now - g_last_poll g > 3000 \<and> \<not> g_busy g
    then g_status g' = (if worker_up m st then VpnConnected
        else if g_status g = VpnConnected \<or> worker_gave_up m st then VpnDisconnected else g_status g) \<and>
      g_interface g' = (if worker_up m st
        then if g_status g = VpnConnected then g_interface g else Option.bind st vs_interface
        else if g_status g = VpnConnected then None else g_interface g) \<and>
      g_heals g' = g_heals g @
        (if \<not> has_default_route m (g_files g) \<and> \<not> g_healing g \<and>
            (\<not> worker_up m st \<and> g_status g = VpnConnected \<or>
             g_status g' = VpnDisconnected \<and> (case g_last_heal g of None \<Rightarrow> True | Some t \<Rightarrow> now - t > 30000))
         then [True] else [])
    else g'\<lparr>g_last_poll := g_last_poll g\<rparr> = g"
proof (cases "now - g_last_poll g > 3000 \<and> \<not> g_busy g")
  case True
  with poll_effect [of now g m] assms show ?thesis by simp
next
  case False
  with assms show ?thesis by (auto simp: poll_def Let_def)
qed

theorem poll_follows_the_worker_witness:
  "g_status (poll idle_machine 5000 (first_start\<lparr>g_status := VpnConnecting\<rparr>)) = VpnDisconnected"
proof -
  let ?g = "first_start\<lparr>g_status := VpnConnecting\<rparr>"
  have "g_last_poll ?g = - 10000" "\<not> g_busy ?g" "read_status (g_files ?g) = None"
    by (simp_all add: first_start_def gui_new_def heal_route_def heal_route_if_broken_def has_default_route_def
        current_default_route_def idle_machine_def no_files_def ipc_defs config_load_def initial_config_def
        Let_def split: prod.splits)
  with poll_follows_the_worker [where now = 5000 and g = ?g and m = idle_machine, OF refl refl] show ?thesis
    by (simp add: worker_up_def worker_gave_up_def)
qed

section \<open>Threads\<close>

lemma confirm_loop_ends:
  assumes "i < length rounds" "fst (rounds ! i) \<ge> 10000"
  shows "confirm_loop rounds \<noteq> None"
  using assms
proof (induction rounds arbitrary: i rule: confirm_loop.induct)
  case (2 e fs rounds)
  then show ?case by (cases i) (auto split: if_splits)
qed simp

lemma confirm_loop_true:
  "confirm_loop rounds = Some True \<Longrightarrow>
   \<exists>i<length rounds. fst (rounds ! i) < 10000 \<and> settled (read_status (snd (rounds ! i)))"
proof (induction rounds rule: confirm_loop.induct)
  case (2 e fs rounds)
  then show ?case
    by (auto split: if_splits intro: exI [of _ 0])
qed simp

text \<open>
  C33. The disconnect thread does not wait forever: as each round begins at least 300 ms after the
  one before, it leaves the loop by its 35th round, whatever the worker writes; and it takes the
  disconnection as confirmed only if it has seen a status file that says disconnected or error, or
  none at all, within ten seconds, and else reports a timeout.
\<close>

theorem disconnect_wait_ends:
  assumes "length rounds \<ge> 35" "\<forall>i<length rounds. fst (rounds ! i) \<ge> 300 * int i"
  shows "\<exists>confirmed. confirm_loop rounds = Some confirmed \<and>
    (confirmed \<longrightarrow> (\<exists>i<length rounds. fst (rounds ! i) < 10000 \<and> settled (read_status (snd (rounds ! i)))))"
proof -
  have "34 < length rounds" "fst (rounds ! 34) \<ge> 10000"
    using assms(1) assms(2) [rule_format, of 34] by simp_all
  then have "confirm_loop rounds \<noteq> None" by (rule confirm_loop_ends)
  then obtain c where "confirm_loop rounds = Some c" by blast
  with confirm_loop_true show ?thesis by (cases c) auto
qed

theorem disconnect_wait_ends_witness:
  "\<exists>c. confirm_loop (map (\<lambda>i. (300 * int i, no_files\<lparr>f_status := Some (default_status\<lparr>vs_state := Some WorkerConnected\<rparr>)\<rparr>)) [0..<35]) =
     Some c \<and> \<not> c"
proof -
  let ?r = "map (\<lambda>i. (300 * int i, no_files\<lparr>f_status := Some (default_status\<lparr>vs_state := Some WorkerConnected\<rparr>)\<rparr>)) [0..<35]"
  have "length ?r \<ge> 35" "\<forall>i<length ?r. fst (?r ! i) \<ge> 300 * int i" by simp_all
  from disconnect_wait_ends [OF this] show ?thesis
    by (auto simp: settled_def read_status_def)
qed

lemma save_route_snapshot_fields [simp]:
  "f_status (save_route_snapshot m fs) = f_status fs"
  "f_disconnect (save_route_snapshot m fs) = f_disconnect fs"
  "f_password (save_route_snapshot m fs) = f_password fs"
  by (simp_all add: save_route_snapshot_def split: option.split prod.split)

lemma save_route_snapshot_after_clear:
  "save_route_snapshot m (clear_disconnect_request (clear_status fs)) =
     (clear_disconnect_request (clear_status fs))
       \<lparr>f_snapshot := (case current_default_route (m_route_get m) of Some (gw, _) \<Rightarrow> Some gw | None \<Rightarrow> f_snapshot fs)\<rparr>"
  by (simp add: save_route_snapshot_def owned_by_live_worker_def ipc_defs split: option.split prod.split)

lemma staged_password: "write_pending_password Staged pw fs = (Inr (), fs\<lparr>f_password := Some pw\<rparr>)"
  by (simp add: write_pending_password_def)

lemma connect_thread_launch:
  assumes "p_server p \<noteq> []" "p_username p \<noteq> []" "password \<noteq> []"
    "g' = connect_thread t (Some path) Staged m p password g"
  shows "g_elevated g' = g_elevated g @ [connect_command path (p_server p) (p_username p)]"
    "\<not> g_busy g'" "g_status g' = g_status g" "g_notices g' = g_notices g"
    "f_password (g_files g') = Some password" "f_status (g_files g') = None" "\<not> f_disconnect (g_files g')"
    "f_snapshot (g_files g') =
       (case current_default_route (m_route_get m) of Some (gw, _) \<Rightarrow> Some gw | None \<Rightarrow> f_snapshot (g_files g))"
    "g_last_poll g' = g_last_poll g"
  using assms by (simp_all add: connect_thread_def save_route_snapshot_after_clear staged_password Let_def)
    (simp_all add: log_line_def ipc_defs split: option.split)

text \<open>
  C31. The connect thread in every case. If a field is empty, the program's path is unknown or the
  password cannot be handed over, nothing is started, the state goes back to disconnected, and
  only the first case notifies the user; no password is left in a file, except when the hand-over
  itself failed half-way: then the part of the plain text that was written, all of it when only the
  mode could not be set, stays in the file that was not made private. Otherwise exactly one
  elevated command is started, which runs the worker with the server and user of the profile; the
  password is in the hand-over file, where it can be taken exactly once; and neither an old status
  nor an old disconnect request is left for the new session.
\<close>

theorem connect_thread_outcomes:
  assumes "g' = connect_thread t exe staging m p password g"
  shows "\<not> g_busy g' \<and>
    (if p_server p = [] \<or> p_username p = [] \<or> password = [] \<or> exe = None \<or> staging \<noteq> Staged
     then g_status g' = VpnDisconnected \<and> g_elevated g' = g_elevated g \<and>
       f_password (g_files g') =
         (if p_server p = [] \<or> p_username p = [] \<or> password = [] \<or> exe = None then f_password (g_files g)
          else case staging of
            StagingModeFailed e \<Rightarrow> Some password
          | StagingWriteFailed e (Some n) \<Rightarrow> Some (take n password)
          | _ \<Rightarrow> f_password (g_files g)) \<and>
       (g_notices g' = g_notices g \<longleftrightarrow> p_server p \<noteq> [] \<and> p_username p \<noteq> [] \<and> password \<noteq> [])
     else g_status g' = g_status g \<and> g_notices g' = g_notices g \<and>
       (\<exists>cmd path. g_elevated g' = g_elevated g @ [cmd] \<and> exe = Some path \<and>
          shell_words cmd = Some [path, WORKER_FLAG, p_server p, p_username p] \<and>
          main_dispatch [path, WORKER_FLAG, p_server p, p_username p] = RunWorker (p_server p) (p_username p)) \<and>
       fst (take_pending_password (g_files g')) = Inr password \<and>
       fst (take_pending_password (snd (take_pending_password (g_files g')))) = Inl () \<and>
       read_status (g_files g') = None \<and> \<not> disconnect_requested (g_files g'))"
proof (cases "p_server p = [] \<or> p_username p = [] \<or> password = [] \<or> exe = None \<or> staging \<noteq> Staged")
  case True
  then show ?thesis
    by (cases staging) (auto simp: assms connect_thread_def connect_aborted_def log_line_def append_to_def
        write_pending_password_def split: option.split)
next
  case False
  then obtain path where e: "exe = Some path" "staging = Staged" "p_server p \<noteq> []" "p_username p \<noteq> []" "password \<noteq> []"
    by auto
  note l = connect_thread_launch [OF e(3-5) assms [unfolded e(1,2)]]
  have "main_dispatch [path, WORKER_FLAG, p_server p, p_username p] = RunWorker (p_server p) (p_username p)"
    by (simp add: main_dispatch_def)
  with l e connect_command_words show ?thesis by (simp add: ipc_defs)
qed

theorem connect_thread_outcomes_witness:
  "\<exists>cmd. g_elevated (connect_thread EN (Some [97]) Staged idle_machine
      \<lparr>p_id = [49], p_name = [], p_server = [115], p_username = [117]\<rparr> [112] first_start) = g_elevated first_start @ [cmd] \<and>
    shell_words cmd = Some [[97], WORKER_FLAG, [115], [117]]"
  using connect_thread_outcomes [OF refl, of EN "Some [97]" Staged idle_machine
      "\<lparr>p_id = [49], p_name = [], p_server = [115], p_username = [117]\<rparr>" "[112]" first_start] by auto

text \<open>
  C32. Whatever happened before, a disconnect thread ends in the state disconnected, not busy,
  without interface, status file or disconnect request. The worker is killed, by the process id it
  had recorded, only if it did not confirm in time and that process is alive. The saved gateway is
  given up only if the machine has a working default route; otherwise a healing thread that does
  not announce a recovery is started, unless one is running.
\<close>

theorem disconnect_outcomes:
  assumes "g' = disconnect_finish fr fs m confirmed g"
  shows "g_status g' = VpnDisconnected \<and> \<not> g_busy g' \<and> g_interface g' = None \<and>
    read_status (g_files g') = None \<and> \<not> disconnect_requested (g_files g') \<and>
    g_elevated g' = g_elevated g @
      (case Option.bind (read_status (g_files g)) vs_pid of
         Some pid \<Rightarrow> if \<not> confirmed \<and> pid_alive (m_kill m) pid then [lit ''kill -9 '' @ show_dec (unat pid)] else []
       | None \<Rightarrow> []) \<and>
    (if has_default_route m (g_files g') then f_snapshot (g_files g') = None \<and> g_heals g' = g_heals g
     else f_snapshot (g_files g') = f_snapshot (g_files g) \<and>
       g_heals g' = g_heals g @ (if g_healing g then [] else [False]))"
proof -
  define h where "h = disconnect_report fr fs m confirmed g"
  have rs: "read_status (g_files (log_line s x)) = read_status (g_files x)"
    "f_snapshot (g_files (log_line s x)) = f_snapshot (g_files x)"
    "g_healing (log_line s x) = g_healing x" "g_heals (log_line s x) = g_heals x" for s and x :: "'a gui"
    by (simp_all add: log_line_def ipc_defs)
  have h: "g_elevated h = g_elevated g @
      (case Option.bind (read_status (g_files g)) vs_pid of
         Some pid \<Rightarrow> if \<not> confirmed \<and> pid_alive (m_kill m) pid then [lit ''kill -9 '' @ show_dec (unat pid)] else []
       | None \<Rightarrow> [])"
    "f_snapshot (g_files h) = f_snapshot (g_files g)" "g_healing h = g_healing g" "g_heals h = g_heals g"
    by (simp_all add: h_def disconnect_report_def log_network_diagnostics_def Let_def rs split: option.split)
  have r: "has_default_route m (clear_route_snapshot x) = has_default_route m x" for x
    by (simp add: has_default_route_def clear_route_snapshot_def owned_by_live_worker_def ipc_defs
        split: option.split)
  define x where "x = h\<lparr>g_files := clear_status (clear_disconnect_request (g_files h)),
      g_status := VpnDisconnected, g_interface := None\<rparr>"
  have x: "g_status x = VpnDisconnected" "g_interface x = None" "f_status (g_files x) = None" "\<not> f_disconnect (g_files x)"
    "f_snapshot (g_files x) = f_snapshot (g_files h)" "g_elevated x = g_elevated h" "g_healing x = g_healing h"
    "g_heals x = g_heals h"
    by (simp_all add: x_def ipc_defs)
  have g': "g' = (heal_route m False x)\<lparr>g_busy := False\<rparr>"
    unfolding assms disconnect_finish_def h_def [symmetric] Let_def x_def ..
  have f: "g_files g' = (if has_default_route m (g_files x) then clear_route_snapshot (g_files x) else g_files x)"
    "g_heals g' = g_heals x @ (if has_default_route m (g_files x) \<or> g_healing x then [] else [False])"
    "g_elevated g' = g_elevated x"
    by (simp_all add: g' heal_route_def heal_route_if_broken_def)
  then have d: "has_default_route m (g_files g') \<longleftrightarrow> has_default_route m (g_files x)"
    by (simp add: r)
  have s: "read_status (g_files g') = None" "\<not> disconnect_requested (g_files g')"
    using f(1) x by (simp_all add: clear_route_snapshot_def ipc_defs)
  have "g_status g' = VpnDisconnected" "\<not> g_busy g'" "g_interface g' = None"
    by (simp_all add: g' x)
  with s d f h x show ?thesis by (simp add: clear_route_snapshot_def)
qed

theorem disconnect_outcomes_witness:
  "g_elevated (disconnect_finish (\<lambda>r. []) (\<lambda>s. []) (idle_machine\<lparr>m_kill := \<lambda>pid. (0, 0)\<rparr>) False
      (first_start\<lparr>g_files := no_files\<lparr>f_status := Some (default_status\<lparr>vs_pid := Some 42\<rparr>)\<rparr>\<rparr>)) =
    g_elevated first_start @ [lit ''kill -9 '' @ show_dec 42]"
  using disconnect_outcomes [OF refl, of "\<lambda>r. []" "\<lambda>s. []" "idle_machine\<lparr>m_kill := \<lambda>pid. (0, 0)\<rparr>" False
      "first_start\<lparr>g_files := no_files\<lparr>f_status := Some (default_status\<lparr>vs_pid := Some 42\<rparr>)\<rparr>\<rparr>"]
  by (simp add: ipc_defs pid_alive_def)

section \<open>Two sessions at once\<close>

lemma refresh_tray_simps [simp]:
  "g_config (refresh_tray t g) = g_config g" "g_status (refresh_tray t g) = g_status g"
  "g_busy (refresh_tray t g) = g_busy g" "g_jobs (refresh_tray t g) = g_jobs g"
  "g_view (refresh_tray t g) = g_view g" "g_password (refresh_tray t g) = g_password g"
  "g_last_poll (refresh_tray t g) = g_last_poll g" "g_exited (refresh_tray t g) = g_exited g"
  by (simp_all add: refresh_tray_def Let_def split: option.split prod.split)

lemma track_connected_simps [simp]:
  "g_config (track_connected now g) = g_config g" "g_status (track_connected now g) = g_status g"
  "g_busy (track_connected now g) = g_busy g" "g_jobs (track_connected now g) = g_jobs g"
  "g_view (track_connected now g) = g_view g" "g_password (track_connected now g) = g_password g"
  "g_tray (track_connected now g) = g_tray g" "g_exited (track_connected now g) = g_exited g"
  by (simp_all add: track_connected_def split: vpn_status.split)

lemma logic_jobs:
  "g_tray g \<noteq> None \<Longrightarrow> g_jobs (logic t m now es close g) = g_jobs (handle_tray_events es g)"
  by (auto simp: logic_def Let_def poll_fields)

lemma logic_quiet:
  assumes "\<not> g_exited g" "now - g_last_poll g \<le> 3000"
  shows "g_busy (logic t m now [] False g) = g_busy g" "g_status (logic t m now [] False g) = g_status g"
    "g_jobs (logic t m now [] False g) = g_jobs g" "g_view (logic t m now [] False g) = g_view g"
    "g_config (logic t m now [] False g) = g_config g" "g_password (logic t m now [] False g) = g_password g"
    "\<exists>tr. g_tray (logic t m now [] False g) = Some tr \<and> tr_connect tr = (\<not> g_busy g \<and> g_status g = VpnDisconnected)"
proof -
  define g1 where "g1 = (if g_tray g = None then g\<lparr>g_tray := Some (build_tray t)\<rparr> else g)"
  have g1: "g_busy g1 = g_busy g" "g_status g1 = g_status g" "g_jobs g1 = g_jobs g" "g_view g1 = g_view g"
    "g_config g1 = g_config g" "g_password g1 = g_password g" "g_last_poll g1 = g_last_poll g" "\<not> g_exited g1"
    "g_tray g1 \<noteq> None"
    using assms(1) by (simp_all add: g1_def)
  have "logic t m now [] False g = track_connected now (refresh_tray t g1)"
    using assms(2) g1 by (simp add: logic_def g1_def [symmetric] Let_def poll_def)
  moreover have "\<exists>tr. g_tray (refresh_tray t g1) = Some tr \<and> tr_connect tr = (\<not> g_busy g \<and> g_status g = VpnDisconnected)"
    using g1 by (auto simp: refresh_tray_def Let_def split: prod.split)
  ultimately show "g_busy (logic t m now [] False g) = g_busy g" "g_status (logic t m now [] False g) = g_status g"
    "g_jobs (logic t m now [] False g) = g_jobs g" "g_view (logic t m now [] False g) = g_view g"
    "g_config (logic t m now [] False g) = g_config g" "g_password (logic t m now [] False g) = g_password g"
    "\<exists>tr. g_tray (logic t m now [] False g) = Some tr \<and> tr_connect tr = (\<not> g_busy g \<and> g_status g = VpnDisconnected)"
    using g1 by simp_all
qed

text \<open>
  C37. Why a consistent state needs fresh clicks: the menu entry of the status bar is only disabled when the
  frame logic runs, and its handler looks at neither the busy flag nor the state. A click on it
  that follows a click on the power button before the next frame starts a second connect thread,
  and two workers are started as root.
\<close>

theorem stale_menu_click_connects_twice:
  assumes "\<not> g_busy g" "g_status g = VpnDisconnected" "g_jobs g = []" "\<not> g_exited g" "g_view g = ConnectView"
    "now - g_last_poll g \<le> 3000" "selected_profile (g_config g) = Some p"
    "p_server p \<noteq> []" "p_username p \<noteq> []" "g_password g \<noteq> []"
    "h = logic t m now [] False g" "cmd = connect_command exe (p_server p) (p_username p)"
  shows "(\<exists>tr. g_tray h = Some tr \<and> tr_connect tr) \<and>
    (\<exists>h'. ui_frame security t nanos (Some PowerClick) h = Some h' \<and>
       g_jobs (logic t m now [TrayConnect] False h') = [ConnectJob p (g_password g), ConnectJob p (g_password g)]) \<and>
    g_elevated (connect_thread t (Some exe) Staged m p (g_password g)
      (connect_thread t (Some exe) Staged m p (g_password g) g)) = g_elevated g @ [cmd, cmd]"
proof -
  note h = logic_quiet [OF assms(4,6), of t m, folded assms(11)]
  let ?h = "spawn_connect h"
  have u: "ui_frame security t nanos (Some PowerClick) h = Some ?h"
    using h assms(1,2,5,7) by (simp add: ui_frame_def connect_screen_def Let_def)
  have sp: "g_jobs ?h = [ConnectJob p (g_password g)]" "g_tray ?h \<noteq> None" "g_config ?h = g_config g"
    "g_password ?h = g_password g"
    using h assms(3,7) by (auto simp: spawn_connect_def)
  then have "handle_tray_events [TrayConnect] ?h = spawn_connect ?h" by (auto split: option.split)
  then have j: "g_jobs (logic t m now [TrayConnect] False ?h) = [ConnectJob p (g_password g), ConnectJob p (g_password g)]"
    using logic_jobs [OF sp(2)] sp assms(7) by (simp add: spawn_connect_def [of ?h])
  have "g_elevated (connect_thread t (Some exe) Staged m p (g_password g) x) = g_elevated x @ [cmd]" for x :: "'a gui"
    unfolding assms(12) by (rule connect_thread_launch(1) [OF assms(8-10) refl])
  with h(7) u j assms(1,2) show ?thesis by auto
qed

definition ready :: "(rstr \<Rightarrow> rstr option) gui" where
  \<comment> \<open>one complete profile, and a typed password\<close>
  "ready = first_start
     \<lparr>g_config := \<lparr>c_profiles = [\<lparr>p_id = [55], p_name = [], p_server = [115], p_username = [117]\<rparr>], c_selected = Some [55]\<rparr>,
      g_password := [112], g_last_poll := 0\<rparr>"

lemma ready_simps [simp]:
  "g_config ready = \<lparr>c_profiles = [\<lparr>p_id = [55], p_name = [], p_server = [115], p_username = [117]\<rparr>], c_selected = Some [55]\<rparr>"
  "g_password ready = [112]" "g_last_poll ready = 0" "\<not> g_busy ready" "g_status ready = VpnDisconnected" "g_jobs ready = []"
  "\<not> g_exited ready" "g_view ready = ConnectView" "g_elevated ready = []" "g_last_heal ready = None"
  by (simp_all add: ready_def first_start_def gui_new_def heal_route_def heal_route_if_broken_def Let_def
      split: prod.splits)

theorem stale_menu_click_connects_twice_witness:
  "\<exists>h'. ui_frame toy_security EN 8 (Some PowerClick) (logic EN idle_machine 100 [] False ready) = Some h' \<and>
     length (g_jobs (logic EN idle_machine 100 [TrayConnect] False h')) = 2"
  using stale_menu_click_connects_twice [where exe = "[97]" and g = ready and now = 100 and t = EN and m = idle_machine and
      security = toy_security and nanos = 8 and p = "\<lparr>p_id = [55], p_name = [], p_server = [115], p_username = [117]\<rparr>" and
      h = "logic EN idle_machine 100 [] False ready", OF _ _ _ _ _ _ _ _ _ _ refl refl]
  by (auto simp: selected_profile_def)

section \<open>The clock\<close>

fun read_clock :: "nat \<Rightarrow> nat \<Rightarrow> rstr \<Rightarrow> nat" where
  \<comment> \<open>numbers to base 60, separated by colons\<close>
  "read_clock tot cur [] = 60 * tot + cur"
| "read_clock tot cur (c # s) =
     (if c = 58 then read_clock (60 * tot + cur) 0 s else read_clock tot (10 * cur + (c - 48)) s)"

lemma read_clock_digits:
  "\<forall>c\<in>set d. 48 \<le> c \<and> c \<le> 57 \<Longrightarrow> read_clock a b (d @ s) = read_clock a (fold (\<lambda>c n. 10 * n + (c - 48)) d b) s"
  by (induction d arbitrary: b) auto

lemma fold_show_dec: "fold (\<lambda>c n. 10 * n + (c - 48)) (show_dec n) 0 = n"
proof (induction n rule: show_dec.induct)
  case (1 n)
  then show ?case by (subst show_dec.simps) auto
qed

lemma read_clock_pad2: "read_clock a 0 (pad2 n @ s) = read_clock a n s"
proof -
  have d: "\<forall>c\<in>set (show_dec n). 48 \<le> c \<and> c \<le> 57" using show_dec_digits by blast
  then have "read_clock a 0 (show_dec n @ s) = read_clock a n s"
    using read_clock_digits [OF d, of a 0 s] fold_show_dec by simp
  then show ?thesis by (simp add: pad2_def)
qed

lemma length_pad2: "n < 60 \<Longrightarrow> length (pad2 n) = 2"
proof -
  assume "n < 60"
  then have "n div 10 < 10" by simp
  with show_dec.simps [of n] show_dec.simps [of "n div 10"] show ?thesis by (simp add: pad2_def)
qed

text \<open>
  The time shown while connected is the time that has passed, to the second, however long the
  session lasts: the text reads back as the number of seconds, so different times look different;
  it has five characters in the first hour and at least eight after it.
\<close>

theorem duration_reads_back:
  "read_clock 0 0 (format_duration secs) = secs \<and>
   length (format_duration secs) = (if secs < 3600 then 5 else 6 + length (pad2 (secs div 3600))) \<and>
   (format_duration secs = format_duration secs') = (secs = secs')"
proof -
  have f: "read_clock 0 0 (format_duration n) = n" for n
  proof -
    have e: "read_clock 0 0 (pad2 x @ s) = read_clock 0 x s" "read_clock a 0 (pad2 x) = 60 * a + x" for x a s
      using read_clock_pad2 [of a x "[]"] by (simp_all add: read_clock_pad2)
    have q: "n div 3600 = n div 60 div 60" "n mod 3600 = 60 * (n div 60 mod 60) + n mod 60"
      using div_mult2_eq [of n 60 60] mod_mult2_eq [of n 60 60] by simp_all
    then have "60 * (60 * (n div 3600) + n mod 3600 div 60) + n mod 60 = n" by simp
    then show ?thesis by (auto simp: format_duration_def Let_def e read_clock_pad2)
  qed
  have "length (format_duration secs) = (if secs < 3600 then 5 else 6 + length (pad2 (secs div 3600)))"
    by (auto simp: format_duration_def Let_def length_pad2)
  with f show ?thesis by metis
qed

end
