(* ===== verification/System.thy ===== *)
theory System
  imports Gui_Run Worker
begin

text \<open>
  The parts together. The connection task, the worker it reports to and the application that reads
  the worker's status: what a shown connection rests on. The application and the worker over the
  files they share: a tunnel that is lost, and the time between the start of a session and the
  first status of its worker, in which the administrator's password is asked for.
\<close>

lemma status_of_connected:
  assumes "worker_step ip gw pid w (WorkerEvent (ConnectedEv iface nc)) = (acts, x)" "Status st \<in> set acts"
  shows "vs_state st = Some WorkerConnected" "vs_interface st = Some iface" "vs_pid st = Some pid"
  using assms by (auto simp: worker_defs connected_status_def split: option.splits)

definition worker_events :: "worker_input list \<Rightarrow> conn_event list" where
  "worker_events is = concat (map (\<lambda>i. case i of WorkerEvent ev \<Rightarrow> [ev] | _ \<Rightarrow> []) is)"

lemma set_worker_events: "ev \<in> set (worker_events is) \<longleftrightarrow> WorkerEvent ev \<in> set is"
  by (induction "is") (auto simp: worker_events_def split: worker_input.splits)

lemma worker_step_status:
  assumes "worker_step ip gw pid w i = (acts, x)" "Status st \<in> set acts" "vs_state st = Some WorkerConnected"
  shows "\<exists>iface nc. i = WorkerEvent (ConnectedEv iface nc) \<and> st = connected_status pid iface nc"
  using assms
  by (cases i; (cases gw)?) (auto simp: worker_defs default_status_def split: conn_event.splits if_splits)

lemma worker_loop_status:
  "worker_loop ip gw pid w is = (acts, x) \<Longrightarrow> Status st \<in> set acts \<Longrightarrow> vs_state st = Some WorkerConnected \<Longrightarrow>
   \<exists>iface nc. WorkerEvent (ConnectedEv iface nc) \<in> set is \<and> st = connected_status pid iface nc"
proof (induction "is" arbitrary: w acts x)
  case (Cons i xs)
  obtain a1 x1 where s: "worker_step ip gw pid w i = (a1, x1)" by fastforce
  show ?case
  proof (cases "Status st \<in> set a1")
    case True
    from worker_step_status [OF s True Cons.prems(3)] show ?thesis by auto
  next
    case False
    with Cons.prems s obtain w1 a2 where "worker_loop ip gw pid w1 xs = (a2, x)" "Status st \<in> set a2"
      by (auto split: sum.splits prod.splits)
    from Cons.IH [OF this Cons.prems(3)] show ?thesis by auto
  qed
qed simp

lemma worker_run_status:
  assumes "worker_run err_text m resolved runtime reader_ends pid server fs is = (acts, code, fs')"
    "Status st \<in> set acts" "vs_state st = Some WorkerConnected"
  shows "\<exists>iface nc. WorkerEvent (ConnectedEv iface nc) \<in> set is \<and> st = connected_status pid iface nc"
proof -
  obtain a x fs1 where i: "worker_run_inner m resolved runtime pid server fs is = (a, x, fs1)"
    by (metis prod_cases3)
  then have "Status st \<in> set a"
    using assms by (auto simp: worker_run_def default_status_def split: sum.splits if_splits)
  with i assms(3) obtain ip gw w b where "worker_loop ip gw pid w is = (b, x)" "Status st \<in> set b"
    by (auto simp: worker_run_inner_def Let_def default_status_def split: sum.splits prod.splits if_splits option.splits)
  from worker_loop_status [OF this assms(3)] show ?thesis .
qed

lemma toy_http:
  "http_loop [] [Some [72, 84, 84, 80, 47, 32, 50, 48, 48, 13, 10, 13, 10]] =
     Some (HttpDone [72, 84, 84, 80, 47, 32, 50, 48, 48, 13, 10, 13, 10] 13, [])"
  by (simp add: http_read_def parse_response_def double_crlf_at_def DOUBLE_CRLF_def from_utf8_lossy_def str_lines_def
      strip_eol_def numeral_3_eq_3 starts_with_def lit_def parse_u16_def Let_def)

lemma worker_loop_connects:
  assumes "\<forall>ev\<in>set evs. \<not> terminal ev"
  shows "\<exists>acts w'. worker_loop ip gw pid w (map WorkerEvent evs @ [WorkerEvent (ConnectedEv iface nc)]) =
    (acts @ [Status (connected_status pid iface nc)], Inl w')"
  using assms
proof (induction evs arbitrary: w)
  case Nil
  show ?case by (cases gw) (simp_all add: worker_defs)
next
  case (Cons ev evs)
  then have "\<not> terminal ev" by simp
  then obtain a w1 where s: "worker_step ip gw pid w (WorkerEvent ev) = (a, Inl w1)"
    by (cases ev; cases gw) (simp_all add: worker_defs)
  from Cons.IH [of w1] Cons.prems obtain b w' where
    "worker_loop ip gw pid w1 (map WorkerEvent evs @ [WorkerEvent (ConnectedEv iface nc)]) =
      (b @ [Status (connected_status pid iface nc)], Inl w')" by auto
  with s show ?case by (intro exI [of _ "a @ b"] exI [of _ w']) simp
qed

lemma shown_login_run:
  assumes "crypto_ok cr" "server_host server \<noteq> []" "net_tcp net" "net_tls net" "net_cert net = Some (Some cert)"
    "http_loop [] reads = Some (HttpDone buf (length buf), rest)"
    "length d = 36" "length ac = 16" "length name \<le> 65506" "answer cr ac (rnd_16 (rnd 3)) user pw r keys"
    "\<And>w. os_write os w" "os_utun os = Some ifname" "os_ifconfig os"
    "cut_into (handshake_messages rnd d q i ac name r q' peer ip dns1 dns2) css"
    "f_password fs = Some pw" "pw \<noteq> []"
  shows "\<exists>cacts wacts fs' st.
    conn_run cr magic net (\<lambda>_. os) server user pw uuid reads
      (arriving os (handshake_messages rnd d q i ac name r q' peer ip dns1 dns2) css) = Some cacts \<and>
    ConfigureUtun ifname ip peer \<in> set cacts \<and>
    worker_run err_text wm (Some server_ip) True reader_ends pid server fs (map WorkerEvent (reports cacts)) =
      (wacts @ [Status st], None, fs') \<and>
    vs_local_ip st = Some (show_ipv4 ip) \<and> vs_peer_ip st = Some (show_ipv4 peer) \<and>
    (\<forall>(g :: 'k gui) m now. read_status (g_files g) = Some st \<and> pid_alive (m_kill m) pid \<and>
       now - g_last_poll g > 3000 \<and> \<not> g_busy g \<and> g_status g \<noteq> VpnConnected \<longrightarrow>
       g_status (poll m now g) = VpnConnected \<and> g_interface (poll m now g) = Some ifname)"
proof -
  let ?nc = "\<lparr>nc_local_ip = Some ip, nc_peer_ip = Some peer, nc_dns1 = Some dns1, nc_dns2 = Some dns2\<rparr>"
  obtain a where c: "conn_run cr magic net (\<lambda>_. os) server user pw uuid reads
      (arriving os (handshake_messages rnd d q i ac name r q' peer ip dns1 dns2) css) =
      Some (a @ [ConfigureUtun ifname ip peer, Report (ConnectedEv ifname ?nc)])" "unfinished a"
    by (rule run_connects [OF assms(1-14)]) (rule that)
  have r: "reports (a @ [ConfigureUtun ifname ip peer, Report (ConnectedEv ifname ?nc)]) =
      reports a @ [ConnectedEv ifname ?nc]"
    by (simp add: reports_def)
  obtain b w' where "worker_loop server_ip (map_option fst (current_default_route (m_route_get wm))) pid
      \<lparr>w_handle = True, w_route_protected = False, w_disconnect_sent = False\<rparr>
      (map WorkerEvent (reports a) @ [WorkerEvent (ConnectedEv ifname ?nc)]) =
      (b @ [Status (connected_status pid ifname ?nc)], Inl w')"
    using worker_loop_connects [of "reports a"] c(2) unfolding unfinished_def by blast
  with assms(15,16) obtain wacts fs' where w: "worker_run err_text wm (Some server_ip) True reader_ends pid server fs
      (map WorkerEvent (reports (a @ [ConfigureUtun ifname ip peer, Report (ConnectedEv ifname ?nc)]))) =
      (wacts @ [Status (connected_status pid ifname ?nc)], None, fs')"
    unfolding r by (fastforce simp: worker_run_def worker_run_inner_def take_pending_password_def Let_def)
  have "g_status (poll m now g) = VpnConnected \<and> g_interface (poll m now g) = Some ifname"
    if "read_status (g_files g) = Some (connected_status pid ifname ?nc)" "pid_alive (m_kill m) pid"
      "now - g_last_poll g > 3000" "\<not> g_busy g" "g_status g \<noteq> VpnConnected" for g :: "'k gui" and m now
  proof -
    have "worker_up m (read_status (g_files g))"
      using that(1,2) by (simp add: worker_up_def connected_status_def)
    with poll_effect(1,2) [OF that(3,4), of m] that(1,5) show ?thesis by (simp add: connected_status_def)
  qed
  with c(1) w show ?thesis
    by (intro exI [of _ "a @ [ConfigureUtun ifname ip peer, Report (ConnectedEv ifname ?nc)]"] exI [of _ wacts]
        exI [of _ fs'] exI [of _ "connected_status pid ifname ?nc"]) (simp add: connected_status_def)
qed

definition toy_os :: os where
  "toy_os = \<lparr>os_write = \<lambda>w. True, os_utun = Some (lit ''utun4''), os_ifconfig = True\<rparr>"

lemma toy_os_write: "os_write toy_os w"
  by (simp add: toy_os_def)

definition toy_net :: net where
  "toy_net = \<lparr>net_tcp = True, net_tls = True, net_cert = Some (Some [1, 2, 3])\<rparr>"

definition toy_rnd :: "nat \<Rightarrow> draws" where
  "toy_rnd k = \<lparr>rnd_u32 = \<lambda>n. 0, rnd_16 = replicate 16 1\<rparr>"

definition toy_start :: files where
  "toy_start = no_files\<lparr>f_password := Some (lit ''pw'')\<rparr>"

definition toy_messages :: "rstr \<Rightarrow> (draws \<times> packet) list" where
  "toy_messages r = handshake_messages toy_rnd (replicate 36 3) 9 5 (replicate 16 2) [] r 1
     (10, 0, 0, 1) (10, 0, 0, 2) (8, 8, 8, 8) (8, 8, 4, 4)"

lemma toy_login:
  obtains r keys css where "answer toy_crypto (replicate 16 2) (rnd_16 (toy_rnd 3)) (lit ''bob'') (lit ''pw'') r keys"
    "cut_into (toy_messages r) css"
    "length (replicate 36 (3 :: u8)) = 36" "length (replicate 16 (2 :: u8)) = 16" "length ([] :: bytes) \<le> 65506"
    "os_utun toy_os = Some (lit ''utun4'')" "os_ifconfig toy_os"
    "server_host [115] \<noteq> []" "net_tcp toy_net" "net_tls toy_net" "net_cert toy_net = Some (Some [1, 2, 3])"
    "http_loop [] [Some [72, 84, 84, 80, 47, 32, 50, 48, 48, 13, 10, 13, 10]] =
       Some (HttpDone [72, 84, 84, 80, 47, 32, 50, 48, 48, 13, 10, 13, 10]
         (length [72, 84, 84, 80, 47, 32, 50, 48, 48, 13, 10, 13, 10 :: u8]), [])"
    "f_password toy_start = Some (lit ''pw'')" "lit ''pw'' \<noteq> []"
proof -
  obtain r keys where a: "answer toy_crypto (replicate 16 2) (rnd_16 (toy_rnd 3)) (lit ''bob'') (lit ''pw'') r keys"
    using toy_crypto_ok by (rule answer_exists)
  moreover obtain css where "cut_into (toy_messages r) css"
  proof (rule that)
    show "cut_into (toy_messages r) (map (\<lambda>m. [take 3 (encode_packet (snd m)), drop 3 (encode_packet (snd m))]) (toy_messages r))"
      unfolding toy_messages_def
      by (rule cut_exists [OF handshake_packets_ok [OF _ _ _ answer_facts(1) [OF toy_crypto_ok a], unfolded list.pred_map]])
        simp_all
  qed
  moreover have "server_host [115] \<noteq> []" by (simp add: server_host_def rsplit_once_def)
  ultimately show thesis
    using toy_http that by (simp add: toy_os_def toy_net_def toy_start_def no_files_def lit_def)
qed

text \<open>
  C2. What the application shows rests on a login. When a poll shows the state connected on a
  status that a worker wrote, that worker is alive, its connection task got through the HTTP
  handshake of a TLS stream with a certificate, and the packets at the front of the stream behind it contain a Challenge answered
  with the password that was handed over and a later Success that verified against that response;
  the engine established the tunnel on them, and the addresses in the status are those it
  negotiated and the interface was configured with.
\<close>

theorem shown_connection_is_logged_in:
  assumes "crypto_ok cr" "take_pending_password fs = (Inr pw, fs1)"
    "conn_run cr magic net os server user pw uuid reads cins = Some cacts"
    "prefix (worker_events wins) (reports cacts)"
    "worker_run err_text wm resolved runtime reader_ends pid server fs wins = (wacts, code, fs')"
    "Status st \<in> set wacts" "read_status (g_files g) = Some st"
    "now - g_last_poll g > 3000" "\<not> g_busy g" "g_status (poll m now g) = VpnConnected"
  shows "\<exists>name nc cert e0 ms e evs keys buf off rest local peer.
    st = connected_status pid name nc \<and> pid_alive (m_kill m) pid \<and>
    net_cert net = Some (Some cert) \<and> http_loop [] reads = Some (HttpDone buf off, rest) \<and>
    engine_new cr magic user pw cert = Some e0 \<and>
    prefix (map snd ms) (stream_packets (drop off buf @ received cins)) \<and> engine_run cr e0 ms = Some (e, evs) \<and>
    verified_in cr e0 ms keys \<and> Established nc keys \<in> set evs \<and>
    nc_local_ip nc = Some local \<and> nc_peer_ip nc = Some peer \<and> ConfigureUtun name local peer \<in> set cacts"
proof -
  have "worker_up m (Some st)"
    using poll_effect(1) [OF assms(8,9), of m] assms(7,10) by (simp split: if_splits)
  then have up: "vs_state st = Some WorkerConnected" "\<exists>p. vs_pid st = Some p \<and> pid_alive (m_kill m) p"
    by (auto simp: worker_up_def split: option.splits)
  obtain name nc where n: "WorkerEvent (ConnectedEv name nc) \<in> set wins" "st = connected_status pid name nc"
    using worker_run_status [OF assms(5,6) up(1)] by blast
  then have r: "Report (ConnectedEv name nc) \<in> set cacts"
    using assms(4) set_mono_prefix unfolding set_worker_events [symmetric] set_reports [symmetric] by blast
  obtain a1 cert buf off rest a2 c a3 f where c: "http_loop [] reads = Some (HttpDone buf off, rest)"
    "conn_open cr magic (os 1) user pw cert buf off = Some (a2, Continue c)"
    "conn_loop cr c cins = Some (a3, f)" "Report (ConnectedEv name nc) \<in> set a3" "set a3 \<subseteq> set cacts"
    "net_cert net = Some (Some cert)"
    using conn_run_tunnel [OF assms(3) r] conn_setup_cert by metis
  obtain e0 ms e evs keys name' nc' local peer where l: "engine_new cr magic user pw cert = Some e0"
    "prefix (map snd ms) (stream_packets (drop off buf @ received cins))" "engine_run cr e0 ms = Some (e, evs)"
    "verified_in cr e0 ms keys" "Report (ConnectedEv name nc) \<in> set a3 \<longrightarrow> name' = name \<and> nc' = nc"
    "Established nc' keys \<in> set evs" "nc_local_ip nc' = Some local" "nc_peer_ip nc' = Some peer"
    "ConfigureUtun name' local peer \<in> set a3"
    using tunnel_login [OF assms(1) c(2,3) disjI1 [OF c(4)]] by blast
  have eq: "name' = name" "nc' = nc" using l(5) c(4) by simp_all
  have "vs_pid st = Some pid" by (simp add: n(2) connected_status_def)
  then have "pid_alive (m_kill m) pid" using up(2) by simp
  moreover have "ConfigureUtun name local peer \<in> set cacts" using l(9) c(5) eq by blast
  ultimately show ?thesis
    using n(2) c(1,6) l(1-4) l(6-8) [unfolded eq] by blast
qed

theorem shown_connection_is_logged_in_witness:
  "\<exists>st g m now e0 ms e evs keys. read_status (g_files g) = Some st \<and>
     g_status (poll m now (g :: (rstr \<Rightarrow> rstr option) gui)) = VpnConnected \<and>
     engine_new toy_crypto 7 (lit ''bob'') (lit ''pw'') [1, 2, 3] = Some e0 \<and>
     engine_run toy_crypto e0 ms = Some (e, evs) \<and> verified_in toy_crypto e0 ms keys"
proof -
  let ?reads = "[Some [72, 84, 84, 80, 47, 32, 50, 48, 48, 13, 10, 13, 10 :: u8]]"
  obtain r keys css where t: "answer toy_crypto (replicate 16 2) (rnd_16 (toy_rnd 3)) (lit ''bob'') (lit ''pw'') r keys"
    and css: "cut_into (toy_messages r) css"
    and u: "length (replicate 36 (3 :: u8)) = 36" "length (replicate 16 (2 :: u8)) = 16" "length ([] :: bytes) \<le> 65506"
    "os_utun toy_os = Some (lit ''utun4'')" "os_ifconfig toy_os"
    "server_host [115] \<noteq> []" "net_tcp toy_net" "net_tls toy_net" "net_cert toy_net = Some (Some [1, 2, 3])"
    "http_loop [] ?reads = Some (HttpDone [72, 84, 84, 80, 47, 32, 50, 48, 48, 13, 10, 13, 10]
         (length [72, 84, 84, 80, 47, 32, 50, 48, 48, 13, 10, 13, 10 :: u8]), [])"
    "f_password toy_start = Some (lit ''pw'')" "lit ''pw'' \<noteq> []"
    by (rule toy_login)
  obtain cacts wacts fs' st where c: "conn_run toy_crypto 7 toy_net (\<lambda>_. toy_os) [115] (lit ''bob'') (lit ''pw'') []
      ?reads (arriving toy_os (toy_messages r) css) = Some cacts"
    "worker_run (\<lambda>e. []) idle_machine (Some [49]) True True 42 [115] toy_start (map WorkerEvent (reports cacts)) =
      (wacts @ [Status st], None, fs')"
    and p: "\<forall>(g :: (rstr \<Rightarrow> rstr option) gui) m now. read_status (g_files g) = Some st \<and> pid_alive (m_kill m) 42 \<and>
       now - g_last_poll g > 3000 \<and> \<not> g_busy g \<and> g_status g \<noteq> VpnConnected \<longrightarrow>
       g_status (poll m now g) = VpnConnected \<and> g_interface (poll m now g) = Some (lit ''utun4'')"
    using shown_login_run [OF toy_crypto_ok u(6-10,1-3) t toy_os_write u(4,5) css [unfolded toy_messages_def] u(11,12),
        of 7 "[]" "\<lambda>e. []" idle_machine "[49]" True 42, folded toy_messages_def] by blast
  let ?g = "ready\<lparr>g_status := VpnConnecting, g_files := no_files\<lparr>f_status := Some st\<rparr>\<rparr>"
  let ?m = "idle_machine\<lparr>m_kill := \<lambda>pid. (0, 0)\<rparr>"
  have f: "read_status (g_files ?g) = Some st" "take_pending_password toy_start = (Inr (lit ''pw''), no_files)"
    by (simp_all add: ipc_defs toy_start_def no_files_def)
  have d: "5000 - g_last_poll ?g > 3000" "\<not> g_busy ?g" by simp_all
  have g: "g_status (poll ?m 5000 ?g) = VpnConnected"
    using p [rule_format, of ?g ?m 5000] f(1) by (simp add: pid_alive_def)
  have w: "prefix (worker_events (map WorkerEvent (reports cacts))) (reports cacts)"
    by (simp add: worker_events_def comp_def)
  show ?thesis
    using shown_connection_is_logged_in [OF toy_crypto_ok f(2) c(1) w c(2) _ f(1) d g] f(1) g u(9) by fastforce
qed

text \<open>
  C9. End to end: on a working system, with a server that waits for the client's answers and knows
  the password that was handed over (its Success is computed from the peer challenge the client drew
  when it handled the Challenge), the reads behind the HTTP handshake make the connection task set up the
  tunnel interface with the assigned addresses and report it, however each message is cut into
  reads; the worker goes on, and the last thing it does on these reports is to write the status with the
  interface and the assigned addresses; and the next due poll of the application that is not busy
  shows it connected, over that interface, as long as the worker lives.
\<close>

theorem login_is_shown:
  assumes "crypto_ok cr" "server_host server \<noteq> []" "net_tcp net" "net_tls net" "net_cert net = Some (Some cert)"
    "http_loop [] reads = Some (HttpDone buf (length buf), rest)"
    "length d = 36" "length ac = 16" "length name \<le> 65506" "answer cr ac (rnd_16 (rnd 3)) user pw r keys"
    "\<And>w. os_write os w" "os_utun os = Some ifname" "os_ifconfig os"
    "cut_into (handshake_messages rnd d q i ac name r q' peer ip dns1 dns2) css"
    "f_password fs = Some pw" "pw \<noteq> []"
  shows "\<exists>cacts wacts fs' st.
    conn_run cr magic net (\<lambda>_. os) server user pw uuid reads
      (arriving os (handshake_messages rnd d q i ac name r q' peer ip dns1 dns2) css) = Some cacts \<and>
    ConfigureUtun ifname ip peer \<in> set cacts \<and>
    worker_run err_text wm (Some server_ip) True reader_ends pid server fs (map WorkerEvent (reports cacts)) =
      (wacts @ [Status st], None, fs') \<and>
    vs_local_ip st = Some (show_ipv4 ip) \<and> vs_peer_ip st = Some (show_ipv4 peer) \<and>
    (\<forall>(g :: 'k gui) m now. read_status (g_files g) = Some st \<and> pid_alive (m_kill m) pid \<and>
       now - g_last_poll g > 3000 \<and> \<not> g_busy g \<and> g_status g \<noteq> VpnConnected \<longrightarrow>
       g_status (poll m now g) = VpnConnected \<and> g_interface (poll m now g) = Some ifname)"
  by (rule shown_login_run [OF assms])

theorem login_is_shown_witness:
  "\<exists>r css cacts wacts fs' st. conn_run toy_crypto 7 toy_net (\<lambda>_. toy_os) [115] (lit ''bob'') (lit ''pw'') []
      [Some [72, 84, 84, 80, 47, 32, 50, 48, 48, 13, 10, 13, 10]] (arriving toy_os (toy_messages r) css) = Some cacts \<and>
    worker_run (\<lambda>e. []) idle_machine (Some [49]) True True 42 [115] toy_start (map WorkerEvent (reports cacts)) =
      (wacts @ [Status st], None, fs') \<and>
    g_interface (poll (idle_machine\<lparr>m_kill := \<lambda>pid. (0, 0)\<rparr>) 5000
      (ready\<lparr>g_status := VpnConnecting, g_files := no_files\<lparr>f_status := Some st\<rparr>\<rparr>)) = Some (lit ''utun4'')"
proof -
  obtain r keys css where t: "answer toy_crypto (replicate 16 2) (rnd_16 (toy_rnd 3)) (lit ''bob'') (lit ''pw'') r keys"
    and css: "cut_into (toy_messages r) css"
    and u: "length (replicate 36 (3 :: u8)) = 36" "length (replicate 16 (2 :: u8)) = 16" "length ([] :: bytes) \<le> 65506"
    "os_utun toy_os = Some (lit ''utun4'')" "os_ifconfig toy_os"
    "server_host [115] \<noteq> []" "net_tcp toy_net" "net_tls toy_net" "net_cert toy_net = Some (Some [1, 2, 3])"
    "http_loop [] [Some [72, 84, 84, 80, 47, 32, 50, 48, 48, 13, 10, 13, 10]] =
       Some (HttpDone [72, 84, 84, 80, 47, 32, 50, 48, 48, 13, 10, 13, 10]
         (length [72, 84, 84, 80, 47, 32, 50, 48, 48, 13, 10, 13, 10 :: u8]), [])"
    "f_password toy_start = Some (lit ''pw'')" "lit ''pw'' \<noteq> []"
    by (rule toy_login)
  let ?g = "\<lambda>st. ready\<lparr>g_status := VpnConnecting, g_files := no_files\<lparr>f_status := Some st\<rparr>\<rparr>"
  obtain cacts wacts fs' st where c: "conn_run toy_crypto 7 toy_net (\<lambda>_. toy_os) [115] (lit ''bob'') (lit ''pw'') []
      [Some [72, 84, 84, 80, 47, 32, 50, 48, 48, 13, 10, 13, 10]] (arriving toy_os (toy_messages r) css) = Some cacts"
    "worker_run (\<lambda>e. []) idle_machine (Some [49]) True True 42 [115] toy_start (map WorkerEvent (reports cacts)) =
      (wacts @ [Status st], None, fs')"
    and p: "\<forall>(g :: (rstr \<Rightarrow> rstr option) gui) m now. read_status (g_files g) = Some st \<and> pid_alive (m_kill m) 42 \<and>
       now - g_last_poll g > 3000 \<and> \<not> g_busy g \<and> g_status g \<noteq> VpnConnected \<longrightarrow>
       g_status (poll m now g) = VpnConnected \<and> g_interface (poll m now g) = Some (lit ''utun4'')"
    using login_is_shown [OF toy_crypto_ok u(6-10,1-3) t toy_os_write u(4,5) css [unfolded toy_messages_def] u(11,12),
        of 7 "[]" "\<lambda>e. []" idle_machine "[49]" True 42, folded toy_messages_def] by blast
  have "read_status (g_files (?g st)) = Some st" by (simp add: ipc_defs)
  then have "g_interface (poll (idle_machine\<lparr>m_kill := \<lambda>pid. (0, 0)\<rparr>) 5000 (?g st)) = Some (lit ''utun4'')"
    using p [rule_format, of "?g st" "idle_machine\<lparr>m_kill := \<lambda>pid. (0, 0)\<rparr>" 5000] by (simp add: pid_alive_def)
  with c show ?thesis by blast
qed

text \<open>
  C17. The status that a worker writes when its tunnel is up is what the poll goes by. As long as the
  worker lives, the poll shows the connection and its interface, and leaves the default route alone
  that runs over it. Once the worker is dead, the next poll shows disconnected, and although the
  route over its interface may still be there, it counts as broken: a healing thread that
  announces the recovery is started at once, unless one is running.
\<close>

theorem lost_tunnel_is_noticed_and_healed:
  assumes "worker_step ip gw pid w (WorkerEvent (ConnectedEv iface nc)) = (acts, x)" "Status st \<in> set acts"
    "read_status (g_files g) = Some st" "current_default_route (m_route_get m) = Some (gateway, iface)"
    "is_utun iface" "now - g_last_poll g > 3000" "\<not> g_busy g" "g' = poll m now g"
  shows "if pid_alive (m_kill m) pid
    then g_status g' = VpnConnected \<and> (g_status g \<noteq> VpnConnected \<longrightarrow> g_interface g' = Some iface) \<and>
      g_heals g' = g_heals g
    else g_status g' = VpnDisconnected \<and>
      (g_status g = VpnConnected \<longrightarrow> g_interface g' = None \<and>
         g_heals g' = g_heals g @ (if g_healing g then [] else [True]))"
proof -
  note st = status_of_connected [OF assms(1,2)]
  note p = poll_effect [OF assms(6,7), of m, folded assms(8)]
  show ?thesis
  proof (cases "pid_alive (m_kill m) pid")
    case True
    then have "worker_up m (read_status (g_files g))" using assms(3) st by (simp add: worker_up_def)
    with True p assms(3) st show ?thesis by simp
  next
    case False
    then have u: "\<not> worker_up m (read_status (g_files g))" "worker_gave_up m (read_status (g_files g))"
      using assms(3) st by (simp_all add: worker_up_def worker_gave_up_def)
    have "\<not> has_default_route m (g_files g)"
      using False assms(3-5) st by (simp add: has_default_route_def owned_by_live_worker_def)
    with False u p show ?thesis by simp
  qed
qed

definition tunnel_files :: files where
  "tunnel_files = no_files\<lparr>f_status := Some (connected_status 42 (lit ''utun7'') (ipcp_negotiated ipcp_new))\<rparr>"

lemma toy_route: "current_default_route (m_route_get (toy_machine (lit ''utun7''))) = Some (lit ''10.0.0.1'', lit ''utun7'')"
proof -
  define a where "a = lit ''gateway: 10.0.0.1''"
  define b where "b = lit ''interface: utun7''"
  let ?t = "a @ 10 # b @ [10]"
  have m: "m_route_get (toy_machine (lit ''utun7'')) = Some \<lparr>co_success = True, co_stdout = utf8 ?t, co_stderr = []\<rparr>"
    by (simp add: toy_machine_def a_def b_def lit_def)
  have "\<forall>c\<in>set ?t. rchar c"
    by (simp add: a_def b_def lit_def rchar_def)
  then have u: "from_utf8_lossy (utf8 ?t) = ?t" by (rule from_utf8_lossy_utf8)
  have l: "str_lines ?t = [a, b]"
    by (simp add: str_lines_def a_def b_def lit_def strip_eol_def Let_def)
  have t: "trim a = a" "trim b = b" "trim (lit ''10.0.0.1'') = lit ''10.0.0.1''" "trim (lit ''utun7'') = lit ''utun7''"
    by (rule trim_id, simp add: a_def b_def lit_def is_whitespace_def)+
  have p: "strip_prefix (lit ''gateway: '') a = Some (lit ''10.0.0.1'')"
    "strip_prefix (lit ''interface: '') a = None" "strip_prefix (lit ''interface: '') b = Some (lit ''utun7'')"
    by (simp_all add: a_def b_def lit_def strip_prefix_def starts_with_def)
  show ?thesis
    unfolding current_default_route_def m Option.bind.simps command_output.simps u l
    by (simp add: Let_def l t p)
qed

lemma toy_machine_simps: "m_kill (toy_machine i) = (\<lambda>pid. (- 1, 3))"
  by (simp add: toy_machine_def)

theorem lost_tunnel_is_noticed_and_healed_witness:
  "g_heals (poll (toy_machine (lit ''utun7'')) 5000 (ready\<lparr>g_status := VpnConnected, g_heals := [], g_healing := False, g_files := tunnel_files\<rparr>)) =
     [True]"
proof -
  let ?w = "\<lparr>w_handle = True, w_route_protected = False, w_disconnect_sent = False\<rparr>"
  let ?nc = "ipcp_negotiated ipcp_new"
  obtain acts x where s: "worker_step [49] None 42 ?w (WorkerEvent (ConnectedEv (lit ''utun7'') ?nc)) = (acts, x)"
    "Status (connected_status 42 (lit ''utun7'') ?nc) \<in> set acts"
    by (simp add: worker_defs)
  let ?g = "ready\<lparr>g_status := VpnConnected, g_heals := [], g_healing := False, g_files := tunnel_files\<rparr>"
  have "is_utun (lit ''utun7'')" by (simp add: is_utun_def starts_with_def lit_def)
  moreover have "read_status (g_files ?g) = Some (connected_status 42 (lit ''utun7'') ?nc)"
    by (simp add: tunnel_files_def ipc_defs)
  moreover have "\<not> pid_alive (m_kill (toy_machine (lit ''utun7''))) 42"
    by (simp add: toy_machine_simps pid_alive_def EPERM_def)
  ultimately show ?thesis
    using lost_tunnel_is_noticed_and_healed [OF s _ toy_route _ _ _ refl, of ?g 5000] by simp
qed

text \<open>
  C35. A connection attempt is forgotten while the administrator's password is being asked for: the
  connect thread has removed the status file and is no longer busy, the worker has not been started
  yet, and the next due poll takes the missing file for a worker that has given up. The state goes
  back to disconnected although the elevated command is on its way, and the power button starts
  another session instead of cancelling this one.
\<close>

theorem connecting_is_forgotten_before_the_worker_starts:
  assumes "p_server p \<noteq> []" "p_username p \<noteq> []" "password \<noteq> []" "g_status g = VpnConnecting"
    "g' = connect_thread t (Some exe) Staged m p password g" "now - g_last_poll g > 3000"
    "selected_profile (g_config g) = Some p" "g_jobs g = []"
  shows "g_status g' = VpnConnecting \<and> g_elevated g' = g_elevated g @ [connect_command exe (p_server p) (p_username p)] \<and>
    g_status (poll m' now g') = VpnDisconnected \<and>
    (\<exists>pw. g_jobs (connect_screen security PowerClick (poll m' now g')) = [ConnectJob p pw])"
proof -
  note l = connect_thread_launch [OF assms(1-3,5)]
  have "read_status (g_files g') = None" using l by (simp add: ipc_defs)
  then have d: "g_status (poll m' now g') = VpnDisconnected"
    using poll_effect(1) [of now g' m'] l assms(4,6) by (simp add: worker_up_def worker_gave_up_def)
  have "g_config g' = g_config g" "g_jobs g' = g_jobs g"
    using assms(1-3,5) by (simp_all add: connect_thread_def staged_password Let_def)
  with d l assms(4,7,8) show ?thesis
    by (simp add: connect_screen_def spawn_connect_def poll_fields Let_def)
qed

theorem connecting_is_forgotten_before_the_worker_starts_witness:
  "g_status (poll idle_machine 5000 (connect_thread EN (Some [97]) Staged idle_machine
      \<lparr>p_id = [55], p_name = [], p_server = [115], p_username = [117]\<rparr> [112] (ready\<lparr>g_status := VpnConnecting\<rparr>))) = VpnDisconnected"
  using connecting_is_forgotten_before_the_worker_starts [where g = "ready\<lparr>g_status := VpnConnecting\<rparr>" and now = 5000 and
      p = "\<lparr>p_id = [55], p_name = [], p_server = [115], p_username = [117]\<rparr>" and password = "[112]" and t = EN and
      exe = "[97]" and m = idle_machine and m' = idle_machine, OF _ _ _ _ refl]
  by (simp add: selected_profile_def)

text \<open>
  C34. Cancelling in that time has no effect: the disconnect thread takes the missing status file
  for a confirmation in its first round, removes its own request and reports disconnected, while
  the handed-over password stays where it is. The worker, started when the administrator's
  password is finally given, does exactly what it would have done without the cancellation.
\<close>

theorem cancel_before_worker_start_is_lost:
  assumes "read_status (g_files g) = None" "elapsed < 10000"
    "h = disconnect_finish fr fs m True (disconnect_begin g)"
  shows "confirm_loop ((elapsed, g_files (disconnect_begin g)) # rounds) = Some True \<and>
    g_status h = VpnDisconnected \<and> \<not> g_busy h \<and> \<not> disconnect_requested (g_files h) \<and> g_elevated h = g_elevated g \<and>
    f_password (g_files h) = f_password (g_files g) \<and>
    (case worker_run_inner wm resolved runtime pid server (g_files h) inputs of (acts, result, _) \<Rightarrow> (acts, result)) =
    (case worker_run_inner wm resolved runtime pid server (g_files g) inputs of (acts, result, _) \<Rightarrow> (acts, result))"
proof -
  have b: "g_files (disconnect_begin g) =
      (g_files g)\<lparr>f_log := f_log (g_files g) @ lit ''disconnecting...'' @ [10], f_disconnect := True\<rparr>"
    by (simp add: disconnect_begin_def log_line_def Let_def ipc_defs)
  then have "settled (read_status (g_files (disconnect_begin g)))"
    using assms(1) by (simp add: settled_def ipc_defs)
  then have c: "confirm_loop ((elapsed, g_files (disconnect_begin g)) # rounds) = Some True"
    using assms(2) by simp
  have f: "f_password (g_files h) = f_password (g_files g)" "\<not> f_disconnect (g_files h)" "g_status h = VpnDisconnected"
    "\<not> g_busy h" "g_elevated h = g_elevated g"
    unfolding assms(3) disconnect_finish_def disconnect_report_def Let_def using b
    by (simp_all add: heal_route_def heal_route_if_broken_def log_line_def clear_route_snapshot_def ipc_defs
        disconnect_begin_def Let_def)
  have w: "(case worker_run_inner wm resolved runtime pid server x inputs of (acts, result, _) \<Rightarrow> (acts, result)) =
      (case worker_run_inner wm resolved runtime pid server y inputs of (acts, result, _) \<Rightarrow> (acts, result))"
    if "f_password x = f_password y" for x y
    using that by (auto simp: worker_run_inner_def take_pending_password_def Let_def
        split: option.splits if_splits prod.splits)
  show ?thesis
    unfolding disconnect_requested_def using c f w [OF f(1)] by blast
qed

theorem cancel_before_worker_start_is_lost_witness:
  "\<not> disconnect_requested (g_files (disconnect_finish (\<lambda>r. []) (\<lambda>s. []) idle_machine True
       (disconnect_begin (ready\<lparr>g_files := no_files\<lparr>f_password := Some [112]\<rparr>\<rparr>)))) \<and>
   f_password (g_files (disconnect_finish (\<lambda>r. []) (\<lambda>s. []) idle_machine True
       (disconnect_begin (ready\<lparr>g_files := no_files\<lparr>f_password := Some [112]\<rparr>\<rparr>)))) = Some [112]"
  using cancel_before_worker_start_is_lost [where g = "ready\<lparr>g_files := no_files\<lparr>f_password := Some [112]\<rparr>\<rparr>" and
      elapsed = 0 and fr = "\<lambda>r. []" and fs = "\<lambda>s. []" and m = idle_machine, OF _ _ refl] by (simp add: ipc_defs no_files_def)

text \<open>
  C36. The guard that keeps the saved gateway from being overwritten by the gateway of the
  program's own tunnel does nothing on the one path where it is used: it needs the status file to
  know the tunnel, and the connect thread removes that file right before. Connecting while a
  worker still holds the default route replaces the way back by the tunnel's own gateway.
\<close>

theorem reconnecting_overwrites_the_saved_gateway:
  assumes "p_server p \<noteq> []" "p_username p \<noteq> []" "password \<noteq> []"
    "current_default_route (m_route_get m) = Some (gateway, iface)" "is_utun iface"
    "owned_by_live_worker (m_kill m) (g_files g) iface"
  shows "save_route_snapshot m (g_files g) = g_files g \<and>
    f_snapshot (g_files (connect_thread t (Some exe) Staged m p password g)) = Some gateway"
  using connect_thread_launch(8) [OF assms(1-3) refl, of t exe m g] assms(4-6)
  by (simp add: save_route_snapshot_def)

theorem reconnecting_overwrites_the_saved_gateway_witness:
  "f_snapshot (g_files (connect_thread EN (Some [97]) Staged ((toy_machine (lit ''utun7''))\<lparr>m_kill := \<lambda>pid. (0, 0)\<rparr>)
      \<lparr>p_id = [55], p_name = [], p_server = [115], p_username = [117]\<rparr> [112]
      (ready\<lparr>g_files := tunnel_files\<lparr>f_snapshot := Some (lit ''192.168.1.1'')\<rparr>\<rparr>))) = Some (lit ''10.0.0.1'')"
proof -
  let ?m = "(toy_machine (lit ''utun7''))\<lparr>m_kill := \<lambda>pid. (0, 0)\<rparr>"
  let ?g = "ready\<lparr>g_files := tunnel_files\<lparr>f_snapshot := Some (lit ''192.168.1.1'')\<rparr>\<rparr>"
  have "current_default_route (m_route_get ?m) = Some (lit ''10.0.0.1'', lit ''utun7'')"
    using toy_route by simp
  moreover have "is_utun (lit ''utun7'')" by (simp add: is_utun_def starts_with_def lit_def)
  moreover have "owned_by_live_worker (m_kill ?m) (g_files ?g) (lit ''utun7'')"
    by (simp add: owned_by_live_worker_def tunnel_files_def connected_status_def ipc_defs pid_alive_def)
  ultimately show ?thesis
    using reconnecting_overwrites_the_saved_gateway [where m = ?m and g = ?g and t = EN and exe = "[97]" and
        p = "\<lparr>p_id = [55], p_name = [], p_server = [115], p_username = [117]\<rparr>" and password = "[112]"] by simp
qed

end
