(* ===== verification/Tests_Codec.thy ===== *)
theory Tests_Codec
  imports Ppp Cp
begin

text \<open>
  The unit tests that the repository keeps beside \<open>packet.rs\<close>, \<open>ppp.rs\<close> and \<open>cp.rs\<close>, run on the
  model. A test is a proposition: its assertions, over the values its statements compute, where
  an \<open>unwrap\<close> that fails, a panic of the code under test and an unexpected variant make it false.
  That each of them holds is checked by evaluation; what the assertions say of the code in general is
  proved beside the definitions.
\<close>

section \<open>What tests use\<close>

definition byte_lit :: "string \<Rightarrow> bytes" where
  \<comment> \<open>a byte string literal\<close>
  "byte_lit s = map (of_nat \<circ> of_char) s"

definition contains :: "rstr \<Rightarrow> rstr \<Rightarrow> bool" where
  \<comment> \<open>\<open>text.contains(part)\<close>\<close>
  "contains text part = sublist part text"

definition ctrl_of :: "bytes \<Rightarrow> (msg_type \<times> attr list) option" where
  \<comment> \<open>the control packet the bytes decode to, or the test fails\<close>
  "ctrl_of wire = (case packet_decode wire of Some (Inr (Ctrl m attrs)) \<Rightarrow> Some (m, attrs) | _ \<Rightarrow> None)"

definition passes :: "bool option \<Rightarrow> bool" where
  \<comment> \<open>a test as a block of statements ends normally, with its assertions true\<close>
  "passes t \<longleftrightarrow> t = Some True"

section \<open>Packets\<close>

definition describe_status_decodes_reference_status_codes :: bool where
  "describe_status_decodes_reference_status_codes \<longleftrightarrow>
     (case describe_status [\<lparr>attr_type = StatusInfo, attr_data = [0, 0, 0, 4] @ u32_to_be 0x0a\<rparr>] of
        Some (Some described) \<Rightarrow>
          contains described (lit ''Attribute is missing'') \<and> contains described (lit ''code 10'') \<and>
          contains described (lit ''attribute 4'')
      | _ \<Rightarrow> False)"

definition describe_status_is_none_without_a_status_info_attribute :: bool where
  "describe_status_is_none_without_a_status_info_attribute \<longleftrightarrow>
     describe_status [\<lparr>attr_type = EncapProtocol, attr_data = [0, 1]\<rparr>] = Some None"

definition describe_status_handles_truncated_attribute_without_panicking :: bool where
  "describe_status_handles_truncated_attribute_without_panicking \<longleftrightarrow>
     (case describe_status [\<lparr>attr_type = StatusInfo, attr_data = [0, 0, 0]\<rparr>] of
        Some (Some described) \<Rightarrow> contains described (lit ''malformed'')
      | _ \<Rightarrow> False)"

definition unknown_status_code_has_a_fallback_message :: bool where
  "unknown_status_code_has_a_fallback_message \<longleftrightarrow> status_reason 0xFF = lit ''Unknown Status Attribute''"

definition data_packet_round_trips :: bool where
  "data_packet_round_trips \<longleftrightarrow>
     (let ppp_frame = [0xff, 0x03, 0xc0, 0x21] @ byte_lit ''hello-ppp-frame''; wire = encode_data ppp_frame
      in idx wire 0 = Some PROTO_VERSION \<and> idx wire 1 = Some 0 \<and>
         packet_decode wire = Some (Inr (Data ppp_frame)))"

definition connect_request_matches_reference_shape :: bool where
  "connect_request_matches_reference_shape \<longleftrightarrow>
     (let proto_ppp = u16_to_be 1; wire = encode_ctrl ConnectRequest [(EncapProtocol, proto_ppp)]
      in length wire = 14 \<and> (case idx wire 1 of Some flags \<Rightarrow> flags AND FLAG_CTRL = FLAG_CTRL | None \<Rightarrow> False) \<and>
         ctrl_of wire = Some (ConnectRequest, [\<lparr>attr_type = EncapProtocol, attr_data = proto_ppp\<rparr>]))"

definition connect_ack_crypto_bind_req_decodes_hash_protocol_and_nonce :: bool where
  "connect_ack_crypto_bind_req_decodes_hash_protocol_and_nonce \<longleftrightarrow>
     (let nonce = map of_nat [0..<32]
      in case copy_into ((replicate 36 0)[3 := 0x02]) 4 36 nonce of
           None \<Rightarrow> False
         | Some payload \<Rightarrow>
             (case ctrl_of (encode_ctrl ConnectAck [(CryptoBindRequest, payload)]) of
                Some (m, a # _) \<Rightarrow>
                  m = ConnectAck \<and> attr_type a = CryptoBindRequest \<and> length (attr_data a) = 36 \<and>
                  idx (attr_data a) 3 = Some 0x02 \<and> subslice (attr_data a) 4 36 = Some nonce
              | _ \<Rightarrow> False))"

definition multiple_attributes_round_trip_in_order :: bool where
  "multiple_attributes_round_trip_in_order \<longleftrightarrow>
     (let a = [0xAA, 0xBB]; b = [0x01, 0x02, 0x03]
      in case ctrl_of (encode_ctrl Connected [(CryptoBind, a), (StatusInfo, b)]) of
           Some (_, attrs) \<Rightarrow> map attr_data attrs = [a, b]
         | None \<Rightarrow> False)"

definition rejects_wrong_version :: bool where
  "rejects_wrong_version \<longleftrightarrow>
     packet_decode ((encode_data (byte_lit ''x''))[0 := 0x20]) = Some (Inl (BadVersion 0x20))"

definition empty_and_truncated_buffers_are_incomplete_not_a_hard_error :: bool where
  "empty_and_truncated_buffers_are_incomplete_not_a_hard_error \<longleftrightarrow>
     packet_decode [] = Some (Inl Incomplete) \<and>
     (let wire = encode_ctrl msg_type.EchoRequest []
      in list_all (\<lambda>cut. packet_decode (take cut wire) = Some (Inl Incomplete)) [0..<length wire])"

definition attribute_length_overrunning_packet_is_malformed_not_a_panic :: bool where
  "attribute_length_overrunning_packet_is_malformed_not_a_panic \<longleftrightarrow>
     (let wire = encode_ctrl ConnectAck [(StatusInfo, [1, 2, 3, 4])];
          attr_len_pos = PKT_HEADER_LEN + CTRL_HEADER_LEN + 2
      in case copy_into wire attr_len_pos (attr_len_pos + 2) (u16_to_be 0xFFFF) of
           None \<Rightarrow> False
         | Some wire1 \<Rightarrow> (case packet_decode wire1 of Some (Inl (Malformed _)) \<Rightarrow> True | _ \<Rightarrow> False))"

definition packet_reader_reassembles_fragmented_stream :: bool where
  "packet_reader_reassembles_fragmented_stream \<longleftrightarrow>
     (let all = encode_data (byte_lit ''first-frame'') @ encode_ctrl msg_type.EchoRequest [];
          reader = foldl (\<lambda>r byte. reader_push [byte] r) reader_new all
      in case next_packet reader of
           Some (Inr (Some first), r1) \<Rightarrow>
             first = Data (byte_lit ''first-frame'') \<and>
             (case next_packet r1 of
                Some (Inr (Some (Ctrl m _)), r2) \<Rightarrow>
                  m = msg_type.EchoRequest \<and> map_option fst (next_packet r2) = Some (Inr None)
              | _ \<Rightarrow> False)
         | _ \<Rightarrow> False)"

definition packet_reader_handles_two_packets_delivered_in_one_chunk :: bool where
  "packet_reader_handles_two_packets_delivered_in_one_chunk \<longleftrightarrow>
     (let all = encode_data (byte_lit ''a'') @ encode_data (byte_lit ''bb'')
      in case next_packet (reader_push all reader_new) of
           Some (first, r1) \<Rightarrow>
             first = Inr (Some (Data (byte_lit ''a''))) \<and>
             (case next_packet r1 of
                Some (second, r2) \<Rightarrow>
                  second = Inr (Some (Data (byte_lit ''bb''))) \<and> map_option fst (next_packet r2) = Some (Inr None)
              | None \<Rightarrow> False)
         | None \<Rightarrow> False)"

section \<open>PPP frames\<close>

definition round_trips_known_protocol :: bool where
  "round_trips_known_protocol \<longleftrightarrow>
     (let wire = ppp_encode ProtoLcp [1, 2, 3]
      in wire = [0xFF, 0x03, 0xC0, 0x21, 1, 2, 3] \<and> ppp_decode wire = Some (Some (ProtoLcp, [1, 2, 3])))"

definition decode_tolerates_a_missing_address_control_prefix :: bool where
  "decode_tolerates_a_missing_address_control_prefix \<longleftrightarrow>
     ppp_decode [0xC0, 0x21, 1, 2, 3] = Some (Some (ProtoLcp, [1, 2, 3]))"

definition unknown_protocol_preserved_numerically :: bool where
  "unknown_protocol_preserved_numerically \<longleftrightarrow>
     (case ppp_decode (ppp_encode (UnknownProto 0x8281) []) of
        Some (Some (proto, _)) \<Rightarrow> proto = UnknownProto 0x8281
      | _ \<Rightarrow> False)"

definition short_frame_is_none_not_a_panic :: bool where
  "short_frame_is_none_not_a_panic \<longleftrightarrow> ppp_decode [] = Some None \<and> ppp_decode [0x00] = Some None"

section \<open>Configuration-protocol frames and options\<close>

definition frame_round_trips :: bool where
  "frame_round_trips \<longleftrightarrow>
     cp_decode (cp_encode ConfigureRequest 7 [0xAA, 0xBB]) =
       Some (Some \<lparr>f_code = ConfigureRequest, f_id = 7, f_data = [0xAA, 0xBB]\<rparr>)"

definition options_round_trip :: bool where
  "options_round_trip \<longleftrightarrow>
     (let opts = [Opt 5 [0x01, 0x02, 0x03, 0x04], Opt 7 []] in decode_options (encode_options opts) = Some opts)"

definition decode_stops_cleanly_on_truncated_option :: bool where
  "decode_stops_cleanly_on_truncated_option \<longleftrightarrow>
     decode_options (encode_options [Opt 1 [0xAA, 0xBB]] @ [0x99]) = Some [Opt 1 [0xAA, 0xBB]]"

definition decode_frame_rejects_length_past_buffer :: bool where
  "decode_frame_rejects_length_past_buffer \<longleftrightarrow>
     (case copy_into (cp_encode ConfigureAck 1 [1, 2, 3]) 2 4 (u16_to_be 0xFFFF) of
        None \<Rightarrow> False
      | Some wire \<Rightarrow> cp_decode wire = Some None)"

definition decodes_captured_real_world_lcp_confreq :: bool where
  "decodes_captured_real_world_lcp_confreq \<longleftrightarrow>
     (let opts = [Opt 5 (u32_to_be 0x6770957f), Opt 7 [], Opt 8 []]
      in case cp_decode (cp_encode ConfigureRequest 1 (encode_options opts)) of
           Some (Some frame) \<Rightarrow> decode_options (f_data frame) = Some opts
         | _ \<Rightarrow> False)"

section \<open>The tests pass\<close>

text \<open>Lengths of 65535 are compared as numbers, not counted up to.\<close>

lemma attribute_length_test_passes: "attribute_length_overrunning_packet_is_malformed_not_a_panic"
proof -
  have "copy_into (encode_ctrl ConnectAck [(StatusInfo, [1, 2, 3, 4])]) (PKT_HEADER_LEN + CTRL_HEADER_LEN + 2)
      (PKT_HEADER_LEN + CTRL_HEADER_LEN + 2 + 2) (u16_to_be 0xFFFF) =
      Some [16, 1, 0, 16, 0, 2, 0, 1, 0, 2, 255, 255, 1, 2, 3, 4]"
    by code_simp
  moreover have "packet_decode [16, 1, 0, 16, 0, 2, 0, 1, 0, 2, 255, 255, 1, 2, 3, 4] =
      Some (Inl (Malformed ''attribute length invalid or runs past packet end''))"
    by (simp add: packet_decode_def PROTO_VERSION_def FLAG_CTRL_def header_lens u16_from_be_def Let_def)
  ultimately show ?thesis
    by (simp add: attribute_length_overrunning_packet_is_malformed_not_a_panic_def Let_def)
qed

lemma frame_length_test_passes: "decode_frame_rejects_length_past_buffer"
proof -
  have "copy_into (cp_encode ConfigureAck 1 [1, 2, 3]) 2 4 (u16_to_be 0xFFFF) = Some [2, 1, 255, 255, 1, 2, 3]"
    by code_simp
  moreover have "cp_decode [2, 1, 255, 255, 1, 2, 3] = Some None"
    by (simp add: cp_decode_def u16_from_be_def Let_def)
  ultimately show ?thesis
    by (simp add: decode_frame_rejects_length_past_buffer_def)
qed

lemma packet_tests_pass:
  "describe_status_decodes_reference_status_codes"
  "describe_status_is_none_without_a_status_info_attribute"
  "describe_status_handles_truncated_attribute_without_panicking"
  "unknown_status_code_has_a_fallback_message"
  "data_packet_round_trips"
  "connect_request_matches_reference_shape"
  "connect_ack_crypto_bind_req_decodes_hash_protocol_and_nonce"
  "multiple_attributes_round_trip_in_order"
  "rejects_wrong_version"
  "empty_and_truncated_buffers_are_incomplete_not_a_hard_error"
  "packet_reader_reassembles_fragmented_stream"
  "packet_reader_handles_two_packets_delivered_in_one_chunk"
  by code_simp+

lemma ppp_tests_pass:
  "round_trips_known_protocol"
  "decode_tolerates_a_missing_address_control_prefix"
  "unknown_protocol_preserved_numerically"
  "short_frame_is_none_not_a_panic"
  by code_simp+

lemma cp_tests_pass:
  "frame_round_trips"
  "options_round_trip"
  "decode_stops_cleanly_on_truncated_option"
  "decodes_captured_real_world_lcp_confreq"
  by code_simp+

end
