(* ===== verification/Tests_Negotiation.thy ===== *)
theory Tests_Negotiation
  imports Tests_Codec Lcp Ipcp
begin

text \<open>
  The unit tests of \<open>lcp.rs\<close> and \<open>ipcp.rs\<close>, run on the model. What the code draws at random, its magic
  number and the one it suggests in a Configure-Nak, is an argument of a test; the tests are
  evaluated at the magic number of the captured exchange.
\<close>

definition unwrap_frame :: "bytes \<Rightarrow> cp_frame option" where
  \<comment> \<open>\<open>cp::decode(..).unwrap()\<close>\<close>
  "unwrap_frame wire = Option.bind (cp_decode wire) id"

definition CAPTURED_MAGIC :: u32 where "CAPTURED_MAGIC = 0x6770957f"

definition suggestion :: "nat \<Rightarrow> u32" where "suggestion n = 0x0BADCAFE"

section \<open>LCP\<close>

definition start_sends_a_configure_request_with_magic_pfc_acfc :: "u32 \<Rightarrow> bool" where
  "start_sends_a_configure_request_with_magic_pfc_acfc magic = passes (do {
     let (_, wire) = lcp_start (lcp_new magic);
     frame \<leftarrow> unwrap_frame wire;
     opts \<leftarrow> decode_options (f_data frame);
     let kinds = map o_kind opts;
     Some (f_code frame = ConfigureRequest \<and> OPT_MAGIC_NUMBER \<in> set kinds \<and> OPT_PFC \<in> set kinds \<and>
       OPT_ACFC \<in> set kinds)
   })"

definition peer_confreq_with_supported_options_gets_acked_and_opens_remote :: "u32 \<Rightarrow> (nat \<Rightarrow> u32) \<Rightarrow> bool" where
  "peer_confreq_with_supported_options_gets_acked_and_opens_remote magic rnd = passes (do {
     let (lcp, _) = lcp_start (lcp_new magic);
     let peer_req = cp_encode ConfigureRequest 1 (encode_options
       [Opt OPT_AUTH_PROTOCOL [0xC2, 0x23, CHAP_ALGORITHM_MSCHAPV2],
        Opt OPT_MAGIC_NUMBER (u32_to_be 0xCCDA096C)]);
     (lcp, result) \<leftarrow> lcp_receive rnd lcp peer_req;
     first \<leftarrow> idx (lr_to_send result) 0;
     reply \<leftarrow> unwrap_frame first;
     auth \<leftarrow> lcp_peer_auth lcp;
     Some (length (lr_to_send result) = 1 \<and> f_code reply = ConfigureAck \<and> f_id reply = 1 \<and>
       is_mschapv2 auth \<and> \<not> lr_up result)
   })"

definition both_directions_acking_brings_lcp_up :: "u32 \<Rightarrow> (nat \<Rightarrow> u32) \<Rightarrow> bool" where
  "both_directions_acking_brings_lcp_up magic rnd = passes (do {
     let (lcp, our_req) = lcp_start (lcp_new magic);
     ours \<leftarrow> unwrap_frame our_req;
     let peer_ack = cp_encode ConfigureAck (f_id ours) (f_data ours);
     (lcp, r1) \<leftarrow> lcp_receive rnd lcp peer_ack;
     let peer_req = cp_encode ConfigureRequest 5 [];
     (lcp, r2) \<leftarrow> lcp_receive rnd lcp peer_req;
     Some (\<not> lr_up r1 \<and> lr_up r2)
   })"

definition reproduces_captured_pfc_acfc_rejection_then_success :: "u32 \<Rightarrow> (nat \<Rightarrow> u32) \<Rightarrow> bool" where
  "reproduces_captured_pfc_acfc_rejection_then_success magic rnd = passes (do {
     let (lcp, first_req) = lcp_start (lcp_new magic);
     first \<leftarrow> unwrap_frame first_req;
     let rejected = cp_encode ConfigureReject (f_id first) (encode_options [Opt OPT_PFC [], Opt OPT_ACFC []]);
     (lcp, result) \<leftarrow> lcp_receive rnd lcp rejected;
     sent \<leftarrow> idx (lr_to_send result) 0;
     second_req \<leftarrow> unwrap_frame sent;
     remaining \<leftarrow> decode_options (f_data second_req);
     let ack = cp_encode ConfigureAck (f_id second_req) (f_data second_req);
     (lcp, final_result) \<leftarrow> lcp_receive rnd lcp ack;
     Some (length (lr_to_send result) = 1 \<and> f_code second_req = ConfigureRequest \<and>
       map o_kind remaining = [OPT_MAGIC_NUMBER] \<and> \<not> lr_up final_result)
   })"

definition magic_number_nak_adopts_suggested_value_and_resends :: "u32 \<Rightarrow> (nat \<Rightarrow> u32) \<Rightarrow> bool" where
  "magic_number_nak_adopts_suggested_value_and_resends magic rnd = passes (do {
     let (lcp, first_req) = lcp_start (lcp_new magic);
     first \<leftarrow> unwrap_frame first_req;
     let suggested = 0x12345678;
     let nak = cp_encode ConfigureNak (f_id first) (encode_options [Opt OPT_MAGIC_NUMBER (u32_to_be suggested)]);
     (lcp, result) \<leftarrow> lcp_receive rnd lcp nak;
     sent \<leftarrow> idx (lr_to_send result) 0;
     resend \<leftarrow> unwrap_frame sent;
     opts \<leftarrow> decode_options (f_data resend);
     magic_opt \<leftarrow> List.find (\<lambda>p. o_kind p = OPT_MAGIC_NUMBER) opts;
     Some (o_data magic_opt = u32_to_be suggested)
   })"

definition unsupported_auth_protocol_is_naked_toward_mschapv2 :: "u32 \<Rightarrow> (nat \<Rightarrow> u32) \<Rightarrow> bool" where
  "unsupported_auth_protocol_is_naked_toward_mschapv2 magic rnd = passes (do {
     let (lcp, _) = lcp_start (lcp_new magic);
     let peer_req = cp_encode ConfigureRequest 1 (encode_options [Opt OPT_AUTH_PROTOCOL [0xC2, 0x23, 0x05]]);
     (lcp, result) \<leftarrow> lcp_receive rnd lcp peer_req;
     sent \<leftarrow> idx (lr_to_send result) 0;
     reply \<leftarrow> unwrap_frame sent;
     opts \<leftarrow> decode_options (f_data reply);
     first \<leftarrow> idx opts 0;
     Some (f_code reply = ConfigureNak \<and> o_data first = [0xC2, 0x23, CHAP_ALGORITHM_MSCHAPV2] \<and>
       lcp_peer_auth lcp = None)
   })"

definition unknown_option_is_rejected :: "u32 \<Rightarrow> (nat \<Rightarrow> u32) \<Rightarrow> bool" where
  "unknown_option_is_rejected magic rnd = passes (do {
     let (lcp, _) = lcp_start (lcp_new magic);
     let peer_req = cp_encode ConfigureRequest 1 (encode_options [Opt 200 [0x01]]);
     (lcp, result) \<leftarrow> lcp_receive rnd lcp peer_req;
     sent \<leftarrow> idx (lr_to_send result) 0;
     reply \<leftarrow> unwrap_frame sent;
     Some (f_code reply = ConfigureReject)
   })"

definition echo_request_gets_a_reply_with_our_magic :: "u32 \<Rightarrow> (nat \<Rightarrow> u32) \<Rightarrow> bool" where
  "echo_request_gets_a_reply_with_our_magic magic rnd = passes (do {
     let (lcp, _) = lcp_start (lcp_new magic);
     let echo_req = cp_encode code.EchoRequest 9 (u32_to_be 0xDEADBEEF);
     (lcp, result) \<leftarrow> lcp_receive rnd lcp echo_req;
     sent \<leftarrow> idx (lr_to_send result) 0;
     reply \<leftarrow> unwrap_frame sent;
     Some (f_code reply = code.EchoReply \<and> f_id reply = 9 \<and> length (f_data reply) = 4)
   })"

definition terminate_request_is_acked_and_closes_the_link :: "u32 \<Rightarrow> (nat \<Rightarrow> u32) \<Rightarrow> bool" where
  "terminate_request_is_acked_and_closes_the_link magic rnd = passes (do {
     let (lcp, _) = lcp_start (lcp_new magic);
     (lcp, _) \<leftarrow> lcp_receive rnd lcp (cp_encode ConfigureRequest 1 []);
     (lcp, result) \<leftarrow> lcp_receive rnd lcp (cp_encode TerminateRequest 2 []);
     sent \<leftarrow> idx (lr_to_send result) 0;
     reply \<leftarrow> unwrap_frame sent;
     Some (f_code reply = TerminateAck \<and> \<not> lr_up result \<and> \<not> lcp_is_up lcp)
   })"

definition protocol_reject_matches_captured_shape :: "u32 \<Rightarrow> bool" where
  "protocol_reject_matches_captured_shape magic = passes (do {
     let rejected_payload = [0x82, 0x81, 0x01, 0x01, 0x00, 0x04];
     let (_, wire) = lcp_build_protocol_reject (lcp_new magic) rejected_payload;
     frame \<leftarrow> unwrap_frame wire;
     Some (f_code frame = ProtocolReject \<and> f_data frame = rejected_payload)
   })"

section \<open>IPCP\<close>

definition start_requests_unspecified_address_and_dns :: bool where
  "start_requests_unspecified_address_and_dns = passes (do {
     let (_, wire) = ipcp_start ipcp_new;
     frame \<leftarrow> unwrap_frame wire;
     opts \<leftarrow> decode_options (f_data frame);
     Some (length opts = 3 \<and> list_all (\<lambda>p. o_data p = [0, 0, 0, 0]) opts)
   })"

definition reproduces_captured_address_and_dns_nak_then_ack_flow :: bool where
  "reproduces_captured_address_and_dns_nak_then_ack_flow = passes (do {
     let (ipcp, first_req) = ipcp_start ipcp_new;
     first \<leftarrow> unwrap_frame first_req;
     let assigned_ip = (10, 100, 1, 21);
     let dns1 = (172, 19, 50, 203);
     let dns2 = (172, 19, 50, 204);
     let nak = cp_encode ConfigureNak (f_id first) (encode_options
       [ip_opt OPT_IP_ADDRESS assigned_ip, ip_opt OPT_PRIMARY_DNS dns1, ip_opt OPT_SECONDARY_DNS dns2]);
     (ipcp, result) \<leftarrow> ipcp_receive ipcp nak;
     sent \<leftarrow> idx (ir_to_send result) 0;
     second_req \<leftarrow> unwrap_frame sent;
     let ack = cp_encode ConfigureAck (f_id second_req) (f_data second_req);
     (ipcp, ack_result) \<leftarrow> ipcp_receive ipcp ack;
     let negotiated = ipcp_negotiated ipcp;
     Some (length (ir_to_send result) = 1 \<and> \<not> ir_up ack_result \<and> nc_local_ip negotiated = Some assigned_ip \<and>
       nc_dns1 negotiated = Some dns1 \<and> nc_dns2 negotiated = Some dns2)
   })"

definition peer_confreq_with_its_address_is_acked_and_captured :: bool where
  "peer_confreq_with_its_address_is_acked_and_captured = passes (do {
     let (ipcp, _) = ipcp_start ipcp_new;
     let peer_ip = (10, 100, 1, 250);
     let peer_req = cp_encode ConfigureRequest 1 (encode_options [ip_opt OPT_IP_ADDRESS peer_ip]);
     (ipcp, result) \<leftarrow> ipcp_receive ipcp peer_req;
     sent \<leftarrow> idx (ir_to_send result) 0;
     reply \<leftarrow> unwrap_frame sent;
     Some (f_code reply = ConfigureAck \<and> nc_peer_ip (ipcp_negotiated ipcp) = Some peer_ip)
   })"

definition ipcp_up_only_once_both_directions_configured :: bool where
  "ipcp_up_only_once_both_directions_configured = passes (do {
     let (ipcp, first_req) = ipcp_start ipcp_new;
     first \<leftarrow> unwrap_frame first_req;
     let ack = cp_encode ConfigureAck (f_id first) (f_data first);
     (ipcp, r1) \<leftarrow> ipcp_receive ipcp ack;
     let peer_req = cp_encode ConfigureRequest 1 (encode_options [ip_opt OPT_IP_ADDRESS (10, 0, 0, 1)]);
     (ipcp, r2) \<leftarrow> ipcp_receive ipcp peer_req;
     Some (\<not> ir_up r1 \<and> ir_up r2 \<and> ipcp_is_up ipcp)
   })"

definition unknown_option_in_peer_request_is_rejected :: bool where
  "unknown_option_in_peer_request_is_rejected = passes (do {
     let (ipcp, _) = ipcp_start ipcp_new;
     let peer_req = cp_encode ConfigureRequest 1 (encode_options [Opt 2 [0x0f, 0x01]]);
     (ipcp, result) \<leftarrow> ipcp_receive ipcp peer_req;
     sent \<leftarrow> idx (ir_to_send result) 0;
     reply \<leftarrow> unwrap_frame sent;
     Some (f_code reply = ConfigureReject)
   })"

section \<open>The tests pass\<close>

lemma lcp_tests_pass:
  "start_sends_a_configure_request_with_magic_pfc_acfc CAPTURED_MAGIC"
  "peer_confreq_with_supported_options_gets_acked_and_opens_remote CAPTURED_MAGIC suggestion"
  "both_directions_acking_brings_lcp_up CAPTURED_MAGIC suggestion"
  "reproduces_captured_pfc_acfc_rejection_then_success CAPTURED_MAGIC suggestion"
  "magic_number_nak_adopts_suggested_value_and_resends CAPTURED_MAGIC suggestion"
  "unsupported_auth_protocol_is_naked_toward_mschapv2 CAPTURED_MAGIC suggestion"
  "unknown_option_is_rejected CAPTURED_MAGIC suggestion"
  "echo_request_gets_a_reply_with_our_magic CAPTURED_MAGIC suggestion"
  "terminate_request_is_acked_and_closes_the_link CAPTURED_MAGIC suggestion"
  "protocol_reject_matches_captured_shape CAPTURED_MAGIC"
  by code_simp+

lemma ipcp_tests_pass:
  "start_requests_unspecified_address_and_dns"
  "reproduces_captured_address_and_dns_nak_then_ack_flow"
  "peer_confreq_with_its_address_is_acked_and_captured"
  "ipcp_up_only_once_both_directions_configured"
  "unknown_option_in_peer_request_is_rejected"
  by code_simp+

end
