(* ===== verification/Standards.thy ===== *)
theory Standards
  imports Chap
begin

text \<open>
  The published standards behind the cryptographic crates: MD4, SHA-1, SHA-256, HMAC and DES, in a
  form the simplifier evaluates fast. They are not models of those crates, which stay the parameter
  \<open>crypto\<close> of the program's definitions: they are one instance of it, \<open>std_crypto\<close>, at which the test
  vectors of the repository can be computed. Each is checked against the test vectors of its own
  standard.
\<close>

type_synonym bits = "bool list"

section \<open>Words as lists of bits, the least significant first\<close>

fun xor_bit :: "bool \<Rightarrow> bool \<Rightarrow> bool" where
  "xor_bit True True = False"
| "xor_bit True False = True"
| "xor_bit False True = True"
| "xor_bit False False = False"

fun ch_bit :: "bool \<Rightarrow> bool \<Rightarrow> bool \<Rightarrow> bool" where
  "ch_bit True y z = y"
| "ch_bit False y z = z"

fun maj_bit :: "bool \<Rightarrow> bool \<Rightarrow> bool \<Rightarrow> bool" where
  "maj_bit True True z = True"
| "maj_bit True False z = z"
| "maj_bit False True z = z"
| "maj_bit False False z = False"

definition par_bit :: "bool \<Rightarrow> bool \<Rightarrow> bool \<Rightarrow> bool" where
  "par_bit x y z = xor_bit x (xor_bit y z)"

fun wmap :: "(bool \<Rightarrow> bool \<Rightarrow> bool \<Rightarrow> bool) \<Rightarrow> bits \<Rightarrow> bits \<Rightarrow> bits \<Rightarrow> bits" where
  "wmap f (x # xs) (y # ys) (z # zs) = f x y z # wmap f xs ys zs"
| "wmap f xs ys zs = []"

fun wxor :: "bits \<Rightarrow> bits \<Rightarrow> bits" where
  "wxor (x # xs) (y # ys) = xor_bit x y # wxor xs ys"
| "wxor xs ys = []"

fun wadd_carry :: "bool \<Rightarrow> bits \<Rightarrow> bits \<Rightarrow> bits" where
  "wadd_carry c (x # xs) (y # ys) = par_bit c x y # wadd_carry (maj_bit x y c) xs ys"
| "wadd_carry c xs ys = []"

definition wadd :: "bits \<Rightarrow> bits \<Rightarrow> bits" where
  "wadd xs ys = wadd_carry False xs ys"

definition rotr :: "nat \<Rightarrow> bits \<Rightarrow> bits" where
  "rotr n xs = drop n xs @ take n xs"

definition rotl :: "nat \<Rightarrow> bits \<Rightarrow> bits" where
  "rotl n xs = drop (32 - n) xs @ take (32 - n) xs"

definition shr :: "nat \<Rightarrow> bits \<Rightarrow> bits" where
  "shr n xs = drop n xs @ replicate n False"

primrec int_bits :: "nat \<Rightarrow> int \<Rightarrow> bits" where
  "int_bits 0 x = []"
| "int_bits (Suc n) x = (x mod 2 = 1) # int_bits n (x div 2)"

primrec bits_int :: "bits \<Rightarrow> int" where
  "bits_int [] = 0"
| "bits_int (b # bs) = (if b then 1 + 2 * bits_int bs else 2 * bits_int bs)"

definition w32 :: "int \<Rightarrow> bits" where "w32 x = int_bits 32 x"

definition byte_bits :: "u8 \<Rightarrow> bits" where "byte_bits b = int_bits 8 (uint b)"
definition bits_byte :: "bits \<Rightarrow> u8" where "bits_byte bs = word_of_int (bits_int bs)"

definition word_le :: "bits \<Rightarrow> u8 list" where
  "word_le w = [bits_byte (take 8 w), bits_byte (take 8 (drop 8 w)), bits_byte (take 8 (drop 16 w)), bits_byte (drop 24 w)]"

fun words_le :: "u8 list \<Rightarrow> bits list" where
  "words_le (a # b # c # d # bs) = (byte_bits a @ byte_bits b @ byte_bits c @ byte_bits d) # words_le bs"
| "words_le bs = []"

fun words_be :: "u8 list \<Rightarrow> bits list" where
  "words_be (a # b # c # d # bs) = (byte_bits d @ byte_bits c @ byte_bits b @ byte_bits a) # words_be bs"
| "words_be bs = []"

section \<open>Padding\<close>

definition len_le :: "nat \<Rightarrow> u8 list" where
  "len_le n = map (\<lambda>i. word_of_int (int (8 * n) div 2 ^ (8 * i))) [0..<8]"

definition padded :: "(nat \<Rightarrow> u8 list) \<Rightarrow> u8 list \<Rightarrow> u8 list" where
  "padded len m = m @ [0x80] @ replicate ((119 - length m mod 64) mod 64) 0 @ len (length m)"

fun blocks :: "nat \<Rightarrow> 'a list \<Rightarrow> 'a list list" where
  "blocks 0 xs = []"
| "blocks (Suc n) xs = take 64 xs # blocks n (drop 64 xs)"

section \<open>SHA-1 (FIPS 180-4)\<close>

datatype st5 = St5 bits bits bits bits bits

fun sha1_round :: "(bool \<Rightarrow> bool \<Rightarrow> bool \<Rightarrow> bool) \<Rightarrow> bits \<Rightarrow> bits \<Rightarrow> st5 \<Rightarrow> st5" where
  "sha1_round f k w (St5 a b c d e) =
     St5 (wadd (rotl 5 a) (wadd (wmap f b c d) (wadd e (wadd k w)))) a (rotl 30 b) c d"

definition sha1_next :: "bits list \<Rightarrow> bits" where
  "sha1_next ws = rotl 1 (wxor (wxor (ws ! 13) (ws ! 8)) (wxor (ws ! 2) (ws ! 0)))"

fun sha1_rounds :: "((bool \<Rightarrow> bool \<Rightarrow> bool \<Rightarrow> bool) \<times> int) list \<Rightarrow> bits list \<Rightarrow> st5 \<Rightarrow> st5" where
  "sha1_rounds [] ws s = s"
| "sha1_rounds ((f, k) # fs) ws s = sha1_rounds fs (tl ws @ [sha1_next ws]) (sha1_round f (w32 k) (hd ws) s)"

definition SHA1_ROUNDS :: "((bool \<Rightarrow> bool \<Rightarrow> bool \<Rightarrow> bool) \<times> int) list" where
  "SHA1_ROUNDS = replicate 20 (ch_bit, 0x5A827999) @ replicate 20 (par_bit, 0x6ED9EBA1) @
     replicate 20 (maj_bit, 0x8F1BBCDC) @ replicate 20 (par_bit, 0xCA62C1D6)"

fun add5 :: "st5 \<Rightarrow> st5 \<Rightarrow> st5" where
  "add5 (St5 a b c d e) (St5 a' b' c' d' e') = St5 (wadd a a') (wadd b b') (wadd c c') (wadd d d') (wadd e e')"

definition sha1_block :: "st5 \<Rightarrow> u8 list \<Rightarrow> st5" where
  "sha1_block s blk = add5 s (sha1_rounds SHA1_ROUNDS (words_be blk) s)"

definition SHA1_INIT :: st5 where
  "SHA1_INIT = St5 (w32 0x67452301) (w32 0xEFCDAB89) (w32 0x98BADCFE) (w32 0x10325476) (w32 0xC3D2E1F0)"

fun digest5 :: "st5 \<Rightarrow> u8 list" where
  "digest5 (St5 a b c d e) = rev (word_le a) @ rev (word_le b) @ rev (word_le c) @ rev (word_le d) @ rev (word_le e)"

definition sha1 :: "u8 list \<Rightarrow> u8 list" where
  "sha1 m = (let p = padded (rev \<circ> len_le) m in digest5 (foldl sha1_block SHA1_INIT (blocks (length p div 64) p)))"


section \<open>SHA-256 (FIPS 180-4)\<close>

datatype st8 = St8 bits bits bits bits bits bits bits bits

definition SHA256_K :: "int list" where
  "SHA256_K =
    [0x428A2F98, 0x71374491, 0xB5C0FBCF, 0xE9B5DBA5, 0x3956C25B, 0x59F111F1, 0x923F82A4, 0xAB1C5ED5,
     0xD807AA98, 0x12835B01, 0x243185BE, 0x550C7DC3, 0x72BE5D74, 0x80DEB1FE, 0x9BDC06A7, 0xC19BF174,
     0xE49B69C1, 0xEFBE4786, 0x0FC19DC6, 0x240CA1CC, 0x2DE92C6F, 0x4A7484AA, 0x5CB0A9DC, 0x76F988DA,
     0x983E5152, 0xA831C66D, 0xB00327C8, 0xBF597FC7, 0xC6E00BF3, 0xD5A79147, 0x06CA6351, 0x14292967,
     0x27B70A85, 0x2E1B2138, 0x4D2C6DFC, 0x53380D13, 0x650A7354, 0x766A0ABB, 0x81C2C92E, 0x92722C85,
     0xA2BFE8A1, 0xA81A664B, 0xC24B8B70, 0xC76C51A3, 0xD192E819, 0xD6990624, 0xF40E3585, 0x106AA070,
     0x19A4C116, 0x1E376C08, 0x2748774C, 0x34B0BCB5, 0x391C0CB3, 0x4ED8AA4A, 0x5B9CCA4F, 0x682E6FF3,
     0x748F82EE, 0x78A5636F, 0x84C87814, 0x8CC70208, 0x90BEFFFA, 0xA4506CEB, 0xBEF9A3F7, 0xC67178F2]"

definition big_sigma :: "nat \<Rightarrow> nat \<Rightarrow> nat \<Rightarrow> bits \<Rightarrow> bits" where
  "big_sigma i j k x = wxor (rotr i x) (wxor (rotr j x) (rotr k x))"

definition small_sigma :: "nat \<Rightarrow> nat \<Rightarrow> nat \<Rightarrow> bits \<Rightarrow> bits" where
  "small_sigma i j k x = wxor (rotr i x) (wxor (rotr j x) (shr k x))"

fun sha256_shift :: "bits \<Rightarrow> bits \<Rightarrow> st8 \<Rightarrow> st8" where
  "sha256_shift t1 t2 (St8 a b c d e f g h) = St8 (wadd t1 t2) a b c (wadd d t1) e f g"

fun sha256_round :: "bits \<Rightarrow> bits \<Rightarrow> st8 \<Rightarrow> st8" where
  "sha256_round k w (St8 a b c d e f g h) = sha256_shift
     (wadd h (wadd (big_sigma 6 11 25 e) (wadd (wmap ch_bit e f g) (wadd k w))))
     (wadd (big_sigma 2 13 22 a) (wmap maj_bit a b c)) (St8 a b c d e f g h)"

definition sha256_next :: "bits list \<Rightarrow> bits" where
  "sha256_next ws = wadd (wadd (small_sigma 17 19 10 (ws ! 14)) (ws ! 9)) (wadd (small_sigma 7 18 3 (ws ! 1)) (ws ! 0))"

fun sha256_rounds :: "int list \<Rightarrow> bits list \<Rightarrow> st8 \<Rightarrow> st8" where
  "sha256_rounds [] ws s = s"
| "sha256_rounds (k # ks) ws s = sha256_rounds ks (tl ws @ [sha256_next ws]) (sha256_round (w32 k) (hd ws) s)"

fun add8 :: "st8 \<Rightarrow> st8 \<Rightarrow> st8" where
  "add8 (St8 a b c d e f g h) (St8 a' b' c' d' e' f' g' h') =
     St8 (wadd a a') (wadd b b') (wadd c c') (wadd d d') (wadd e e') (wadd f f') (wadd g g') (wadd h h')"

definition sha256_block :: "st8 \<Rightarrow> u8 list \<Rightarrow> st8" where
  "sha256_block s blk = add8 s (sha256_rounds SHA256_K (words_be blk) s)"

definition SHA256_INIT :: st8 where
  "SHA256_INIT = St8 (w32 0x6A09E667) (w32 0xBB67AE85) (w32 0x3C6EF372) (w32 0xA54FF53A)
     (w32 0x510E527F) (w32 0x9B05688C) (w32 0x1F83D9AB) (w32 0x5BE0CD19)"

fun digest8 :: "st8 \<Rightarrow> u8 list" where
  "digest8 (St8 a b c d e f g h) = concat (map (rev \<circ> word_le) [a, b, c, d, e, f, g, h])"

definition sha256 :: "u8 list \<Rightarrow> u8 list" where
  "sha256 m = (let p = padded (rev \<circ> len_le) m in digest8 (foldl sha256_block SHA256_INIT (blocks (length p div 64) p)))"

section \<open>MD4 (RFC 1320)\<close>

datatype st4 = St4 bits bits bits bits

fun md4_step :: "(bool \<Rightarrow> bool \<Rightarrow> bool \<Rightarrow> bool) \<Rightarrow> bits \<Rightarrow> nat \<Rightarrow> bits \<Rightarrow> st4 \<Rightarrow> st4" where
  "md4_step f k r w (St4 a b c d) = St4 d (rotl r (wadd (wadd a (wmap f b c d)) (wadd w k))) b c"

fun md4_steps :: "(bool \<Rightarrow> bool \<Rightarrow> bool \<Rightarrow> bool) \<Rightarrow> bits \<Rightarrow> (nat \<times> nat) list \<Rightarrow> bits list \<Rightarrow> st4 \<Rightarrow> st4" where
  "md4_steps f k [] ws s = s"
| "md4_steps f k ((i, r) # is) ws s = md4_steps f k is ws (md4_step f k r (ws ! i) s)"

fun add4 :: "st4 \<Rightarrow> st4 \<Rightarrow> st4" where
  "add4 (St4 a b c d) (St4 a' b' c' d') = St4 (wadd a a') (wadd b b') (wadd c c') (wadd d d')"

definition md4_rounds :: "bits list \<Rightarrow> st4 \<Rightarrow> st4" where
  "md4_rounds ws s =
     md4_steps par_bit (w32 0x6ED9EBA1)
       (zip [0, 8, 4, 12, 2, 10, 6, 14, 1, 9, 5, 13, 3, 11, 7, 15] (concat (replicate 4 [3, 9, 11, 15]))) ws
    (md4_steps maj_bit (w32 0x5A827999)
       (zip [0, 4, 8, 12, 1, 5, 9, 13, 2, 6, 10, 14, 3, 7, 11, 15] (concat (replicate 4 [3, 5, 9, 13]))) ws
    (md4_steps ch_bit (w32 0) (zip [0..<16] (concat (replicate 4 [3, 7, 11, 19]))) ws s))"

definition md4_block :: "st4 \<Rightarrow> u8 list \<Rightarrow> st4" where
  "md4_block s blk = add4 s (md4_rounds (words_le blk) s)"

definition MD4_INIT :: st4 where
  "MD4_INIT = St4 (w32 0x67452301) (w32 0xEFCDAB89) (w32 0x98BADCFE) (w32 0x10325476)"

fun digest4 :: "st4 \<Rightarrow> u8 list" where
  "digest4 (St4 a b c d) = word_le a @ word_le b @ word_le c @ word_le d"

definition md4 :: "u8 list \<Rightarrow> u8 list" where
  "md4 m = (let p = padded len_le m in digest4 (foldl md4_block MD4_INIT (blocks (length p div 64) p)))"

section \<open>HMAC (RFC 2104)\<close>

definition hmac :: "(u8 list \<Rightarrow> u8 list) \<Rightarrow> u8 list \<Rightarrow> u8 list \<Rightarrow> u8 list" where
  "hmac h key m =
     (let k = (if length key > 64 then h key else key);
          pad = (\<lambda>x. map (\<lambda>b. bits_byte (wxor (byte_bits b) (int_bits 8 x))) (k @ replicate (64 - length k) 0))
      in h (pad 0x5C @ h (pad 0x36 @ m)))"

section \<open>DES (FIPS 46-3)\<close>

definition DES_IP :: "nat list" where
  "DES_IP =
    [58, 50, 42, 34, 26, 18, 10, 2, 60, 52, 44, 36, 28, 20, 12, 4,
     62, 54, 46, 38, 30, 22, 14, 6, 64, 56, 48, 40, 32, 24, 16, 8,
     57, 49, 41, 33, 25, 17, 9, 1, 59, 51, 43, 35, 27, 19, 11, 3,
     61, 53, 45, 37, 29, 21, 13, 5, 63, 55, 47, 39, 31, 23, 15, 7]"

definition DES_FP :: "nat list" where
  "DES_FP =
    [40, 8, 48, 16, 56, 24, 64, 32, 39, 7, 47, 15, 55, 23, 63, 31,
     38, 6, 46, 14, 54, 22, 62, 30, 37, 5, 45, 13, 53, 21, 61, 29,
     36, 4, 44, 12, 52, 20, 60, 28, 35, 3, 43, 11, 51, 19, 59, 27,
     34, 2, 42, 10, 50, 18, 58, 26, 33, 1, 41, 9, 49, 17, 57, 25]"

definition DES_E :: "nat list" where
  "DES_E =
    [32, 1, 2, 3, 4, 5, 4, 5, 6, 7, 8, 9, 8, 9, 10, 11,
     12, 13, 12, 13, 14, 15, 16, 17, 16, 17, 18, 19, 20, 21, 20, 21,
     22, 23, 24, 25, 24, 25, 26, 27, 28, 29, 28, 29, 30, 31, 32, 1]"

definition DES_P :: "nat list" where
  "DES_P =
    [16, 7, 20, 21, 29, 12, 28, 17, 1, 15, 23, 26, 5, 18, 31, 10,
     2, 8, 24, 14, 32, 27, 3, 9, 19, 13, 30, 6, 22, 11, 4, 25]"

definition DES_PC1 :: "nat list" where
  "DES_PC1 =
    [57, 49, 41, 33, 25, 17, 9, 1, 58, 50, 42, 34, 26, 18, 10, 2,
     59, 51, 43, 35, 27, 19, 11, 3, 60, 52, 44, 36, 63, 55, 47, 39,
     31, 23, 15, 7, 62, 54, 46, 38, 30, 22, 14, 6, 61, 53, 45, 37,
     29, 21, 13, 5, 28, 20, 12, 4]"

definition DES_PC2 :: "nat list" where
  "DES_PC2 =
    [14, 17, 11, 24, 1, 5, 3, 28, 15, 6, 21, 10, 23, 19, 12, 4,
     26, 8, 16, 7, 27, 20, 13, 2, 41, 52, 31, 37, 47, 55, 30, 40,
     51, 45, 33, 48, 44, 49, 39, 56, 34, 53, 46, 42, 50, 36, 29, 32]"

definition DES_S :: "int list list" where
  "DES_S =
    [[14, 4, 13, 1, 2, 15, 11, 8, 3, 10, 6, 12, 5, 9, 0, 7,
      0, 15, 7, 4, 14, 2, 13, 1, 10, 6, 12, 11, 9, 5, 3, 8,
      4, 1, 14, 8, 13, 6, 2, 11, 15, 12, 9, 7, 3, 10, 5, 0,
      15, 12, 8, 2, 4, 9, 1, 7, 5, 11, 3, 14, 10, 0, 6, 13],
     [15, 1, 8, 14, 6, 11, 3, 4, 9, 7, 2, 13, 12, 0, 5, 10,
      3, 13, 4, 7, 15, 2, 8, 14, 12, 0, 1, 10, 6, 9, 11, 5,
      0, 14, 7, 11, 10, 4, 13, 1, 5, 8, 12, 6, 9, 3, 2, 15,
      13, 8, 10, 1, 3, 15, 4, 2, 11, 6, 7, 12, 0, 5, 14, 9],
     [10, 0, 9, 14, 6, 3, 15, 5, 1, 13, 12, 7, 11, 4, 2, 8,
      13, 7, 0, 9, 3, 4, 6, 10, 2, 8, 5, 14, 12, 11, 15, 1,
      13, 6, 4, 9, 8, 15, 3, 0, 11, 1, 2, 12, 5, 10, 14, 7,
      1, 10, 13, 0, 6, 9, 8, 7, 4, 15, 14, 3, 11, 5, 2, 12],
     [7, 13, 14, 3, 0, 6, 9, 10, 1, 2, 8, 5, 11, 12, 4, 15,
      13, 8, 11, 5, 6, 15, 0, 3, 4, 7, 2, 12, 1, 10, 14, 9,
      10, 6, 9, 0, 12, 11, 7, 13, 15, 1, 3, 14, 5, 2, 8, 4,
      3, 15, 0, 6, 10, 1, 13, 8, 9, 4, 5, 11, 12, 7, 2, 14],
     [2, 12, 4, 1, 7, 10, 11, 6, 8, 5, 3, 15, 13, 0, 14, 9,
      14, 11, 2, 12, 4, 7, 13, 1, 5, 0, 15, 10, 3, 9, 8, 6,
      4, 2, 1, 11, 10, 13, 7, 8, 15, 9, 12, 5, 6, 3, 0, 14,
      11, 8, 12, 7, 1, 14, 2, 13, 6, 15, 0, 9, 10, 4, 5, 3],
     [12, 1, 10, 15, 9, 2, 6, 8, 0, 13, 3, 4, 14, 7, 5, 11,
      10, 15, 4, 2, 7, 12, 9, 5, 6, 1, 13, 14, 0, 11, 3, 8,
      9, 14, 15, 5, 2, 8, 12, 3, 7, 0, 4, 10, 1, 13, 11, 6,
      4, 3, 2, 12, 9, 5, 15, 10, 11, 14, 1, 7, 6, 0, 8, 13],
     [4, 11, 2, 14, 15, 0, 8, 13, 3, 12, 9, 7, 5, 10, 6, 1,
      13, 0, 11, 7, 4, 9, 1, 10, 14, 3, 5, 12, 2, 15, 8, 6,
      1, 4, 11, 13, 12, 3, 7, 14, 10, 15, 6, 8, 0, 5, 9, 2,
      6, 11, 13, 8, 1, 4, 10, 7, 9, 5, 0, 15, 14, 2, 3, 12],
     [13, 2, 8, 4, 6, 15, 11, 1, 10, 9, 3, 14, 5, 0, 12, 7,
      1, 15, 13, 8, 10, 3, 7, 4, 12, 5, 6, 11, 0, 14, 9, 2,
      7, 11, 4, 1, 9, 12, 14, 2, 0, 6, 10, 13, 15, 3, 5, 8,
      2, 1, 14, 7, 4, 10, 8, 13, 15, 12, 9, 0, 3, 5, 6, 11]]"

definition permute :: "nat list \<Rightarrow> bits \<Rightarrow> bits" where
  "permute t xs = map (\<lambda>i. xs ! (i - 1)) t"

definition byte_msb :: "u8 \<Rightarrow> bits" where "byte_msb b = rev (byte_bits b)"

fun bits_nat :: "bits \<Rightarrow> nat \<Rightarrow> nat" where
  "bits_nat [] n = n"
| "bits_nat (b # bs) n = bits_nat bs (if b then 2 * n + 1 else 2 * n)"

fun des_boxes :: "int list list \<Rightarrow> bits \<Rightarrow> bits" where
  "des_boxes (s # ss) (a # b # c # d # e # f # bs) =
     rev (int_bits 4 (s ! bits_nat [a, f, b, c, d, e] 0)) @ des_boxes ss bs"
| "des_boxes ss bs = []"

definition des_f :: "bits \<Rightarrow> bits \<Rightarrow> bits" where
  "des_f k r = permute DES_P (des_boxes DES_S (wxor (permute DES_E r) k))"

definition rot :: "nat \<Rightarrow> bits \<Rightarrow> bits" where "rot n xs = drop n xs @ take n xs"

fun des_rounds :: "nat list \<Rightarrow> bits \<Rightarrow> bits \<Rightarrow> bits \<Rightarrow> bits \<Rightarrow> bits" where
  "des_rounds [] c d l r = r @ l"
| "des_rounds (n # ns) c d l r =
     des_rounds ns (rot n c) (rot n d) r (wxor l (des_f (permute DES_PC2 (rot n c @ rot n d)) r))"

definition DES_SHIFTS :: "nat list" where "DES_SHIFTS = [1, 1, 2, 2, 2, 2, 2, 2, 1, 2, 2, 2, 2, 2, 2, 1]"

definition des_halves :: "bits \<Rightarrow> bits \<Rightarrow> bits" where
  "des_halves cd lr = des_rounds DES_SHIFTS (take 28 cd) (drop 28 cd) (take 32 lr) (drop 32 lr)"

definition bytes_of :: "bits \<Rightarrow> u8 list" where
  "bytes_of bs = map (\<lambda>i. bits_byte (rev (take 8 (drop (8 * i) bs)))) [0..<8]"

definition des :: "u8 list \<Rightarrow> u8 list \<Rightarrow> u8 list" where
  "des key block = bytes_of (permute DES_FP (des_halves (permute DES_PC1 (concat (map byte_msb key)))
     (permute DES_IP (concat (map byte_msb block)))))"

section \<open>The instance\<close>

definition std_crypto :: crypto where
  "std_crypto = \<lparr>c_md4 = md4, c_sha1 = sha1, c_sha256 = sha256, c_hmac_sha1 = hmac sha1,
     c_hmac_sha256 = hmac sha256, c_des = des\<rparr>"

lemma length_word_le [simp]: "length (word_le w) = 4"
  by (simp add: word_le_def)

lemma length_digests [simp]:
  "length (digest4 s4) = 16" "length (digest5 s5) = 20" "length (digest8 s8) = 32"
proof -
  show "length (digest4 s4) = 16" by (cases s4) simp
  show "length (digest5 s5) = 20" by (cases s5) simp
  show "length (digest8 s8) = 32" by (cases s8) simp
qed

lemma length_standards:
  "length (md4 m) = 16" "length (sha1 m) = 20" "length (sha256 m) = 32" "length (des k m) = 8"
  by (simp_all add: md4_def sha1_def sha256_def des_def bytes_of_def Let_def)

lemma std_crypto_ok: "crypto_ok std_crypto"
  by (simp add: crypto_ok_def std_crypto_def length_standards hmac_def Let_def)

section \<open>The vectors of the standards\<close>

lemma md4_abc: "md4 [0x61, 0x62, 0x63] =
    [0xA4, 0x48, 0x01, 0x7A, 0xAF, 0x21, 0xD8, 0x52, 0x5F, 0xC1, 0x0A, 0xE8, 0x7A, 0xA6, 0x72, 0x9D]"
  by code_simp

lemma sha1_abc: "sha1 [0x61, 0x62, 0x63] =
    [0xA9, 0x99, 0x3E, 0x36, 0x47, 0x06, 0x81, 0x6A, 0xBA, 0x3E, 0x25, 0x71, 0x78, 0x50, 0xC2, 0x6C, 0x9C, 0xD0, 0xD8, 0x9D]"
  by code_simp

lemma sha256_abc: "sha256 [0x61, 0x62, 0x63] =
    [0xBA, 0x78, 0x16, 0xBF, 0x8F, 0x01, 0xCF, 0xEA, 0x41, 0x41, 0x40, 0xDE, 0x5D, 0xAE, 0x22, 0x23,
     0xB0, 0x03, 0x61, 0xA3, 0x96, 0x17, 0x7A, 0x9C, 0xB4, 0x10, 0xFF, 0x61, 0xF2, 0x00, 0x15, 0xAD]"
  by code_simp

lemma hmac_sha1_jefe: "hmac sha1 [0x4A, 0x65, 0x66, 0x65]
    [0x77, 0x68, 0x61, 0x74, 0x20, 0x64, 0x6F, 0x20, 0x79, 0x61, 0x20, 0x77, 0x61, 0x6E, 0x74, 0x20, 0x66, 0x6F, 0x72, 0x20, 0x6E, 0x6F, 0x74, 0x68, 0x69, 0x6E, 0x67, 0x3F] =
    [0xEF, 0xFC, 0xDF, 0x6A, 0xE5, 0xEB, 0x2F, 0xA2, 0xD2, 0x74, 0x16, 0xD5, 0xF1, 0x84, 0xDF, 0x9C, 0x25, 0x9A, 0x7C, 0x79]"
  by code_simp

lemma des_vector: "des [0x13, 0x34, 0x57, 0x79, 0x9B, 0xBC, 0xDF, 0xF1] [0x01, 0x23, 0x45, 0x67, 0x89, 0xAB, 0xCD, 0xEF] =
    [0x85, 0xE8, 0x13, 0x54, 0x0F, 0x0A, 0xB4, 0x05]"
  by code_simp

end
