(* ===== verification/Messages.thy ===== *)
theory Messages
  imports Engine
begin

text \<open>
  The texts the protocol crate shows: the format strings behind the constructors of \<open>fatal_msg\<close> and
  \<open>trace_msg\<close> (\<open>engine.rs\<close>), \<open>Display\<close> of a decoding error (\<open>packet.rs\<close>), and the \<open>Debug\<close>
  implementations that keep secrets out of a log (\<open>mppe.rs\<close>, \<open>engine.rs\<close>). Which characters Rust
  prints as they are in \<open>{:?}\<close> of a string is a table of Unicode: \<open>printable\<close>, an argument.
\<close>

section \<open>Debug formats of the standard library\<close>

fun show_hex :: "nat \<Rightarrow> rstr" where
  \<comment> \<open>\<open>{:x}\<close>\<close>
  "show_hex n = (if n < 16 then [hex_digit 97 n] else show_hex (n div 16) @ [hex_digit 97 (n mod 16)])"

declare show_hex.simps [simp del]

definition debug_char :: "(nat \<Rightarrow> bool) \<Rightarrow> nat \<Rightarrow> rstr" where
  "debug_char printable c =
     (if c = 0 then 92 # lit ''0'' else if c = 9 then 92 # lit ''t''
      else if c = 13 then 92 # lit ''r'' else if c = 10 then 92 # lit ''n''
      else if c = 34 \<or> c = 92 then [92, c]
      else if printable c then [c]
      else [92] @ lit ''u{'' @ show_hex c @ lit ''}'')"

definition debug_str :: "(nat \<Rightarrow> bool) \<Rightarrow> rstr \<Rightarrow> rstr" where
  \<comment> \<open>\<open>{:?}\<close> of a string\<close>
  "debug_str printable s = [34] @ concat (map (debug_char printable) s) @ [34]"

definition ascii_printable :: "nat \<Rightarrow> bool" where
  "ascii_printable c \<longleftrightarrow> 32 \<le> c \<and> c < 127"

section \<open>Derived formats\<close>

fun debug_code :: "code \<Rightarrow> rstr" where
  "debug_code ConfigureRequest = lit ''ConfigureRequest''"
| "debug_code ConfigureAck = lit ''ConfigureAck''"
| "debug_code ConfigureNak = lit ''ConfigureNak''"
| "debug_code ConfigureReject = lit ''ConfigureReject''"
| "debug_code TerminateRequest = lit ''TerminateRequest''"
| "debug_code TerminateAck = lit ''TerminateAck''"
| "debug_code CodeReject = lit ''CodeReject''"
| "debug_code ProtocolReject = lit ''ProtocolReject''"
| "debug_code code.EchoRequest = lit ''EchoRequest''"
| "debug_code code.EchoReply = lit ''EchoReply''"
| "debug_code DiscardRequest = lit ''DiscardRequest''"
| "debug_code (UnknownCode v) = lit ''Unknown('' @ show_dec (unat v) @ lit '')''"

fun debug_chap_code :: "chap_code \<Rightarrow> rstr" where
  "debug_chap_code Challenge = lit ''Challenge''"
| "debug_chap_code Response = lit ''Response''"
| "debug_chap_code Success = lit ''Success''"
| "debug_chap_code Failure = lit ''Failure''"
| "debug_chap_code (UnknownChap v) = lit ''Unknown('' @ show_dec (unat v) @ lit '')''"

fun debug_hash_algo :: "hash_algo \<Rightarrow> rstr" where
  "debug_hash_algo AlgoSha1 = lit ''Sha1''"
| "debug_hash_algo AlgoSha256 = lit ''Sha256''"

fun debug_phase :: "phase \<Rightarrow> rstr" where
  "debug_phase WaitConnectAck = lit ''WaitConnectAck''"
| "debug_phase PhaseLcp = lit ''Lcp''"
| "debug_phase PhaseChap = lit ''Chap''"
| "debug_phase PhaseIpcp = lit ''Ipcp''"
| "debug_phase PhaseEstablished = lit ''Established''"

fun debug_response_error :: "response_error \<Rightarrow> rstr" where
  "debug_response_error (BadChallengeLength n) = lit ''BadChallengeLength('' @ show_dec n @ lit '')''"

section \<open>The messages of the engine\<close>

fun trace_text :: "(nat \<Rightarrow> bool) \<Rightarrow> trace_msg \<Rightarrow> rstr" where
  "trace_text p (ConnectAckOk algo) =
     lit ''CONNECT_ACK ok (hash='' @ debug_hash_algo algo @ lit ''), starting LCP''"
| "trace_text p (LcpRecv c i n) =
     lit ''LCP recv '' @ debug_code c @ lit '' id='' @ show_dec (unat i) @ lit '' ('' @ show_dec n @ lit '' option bytes)''"
| "trace_text p (LcpRecvMalformed n) = lit ''LCP recv malformed frame ('' @ show_dec n @ lit '' bytes)''"
| "trace_text p (LcpSend c i) = lit ''LCP send '' @ debug_code c @ lit '' id='' @ show_dec (unat i)"
| "trace_text p (ChapRecv c i n) =
     lit ''CHAP recv '' @ debug_chap_code c @ lit '' id='' @ show_dec (unat i) @ lit '' ('' @ show_dec n @ lit '' data bytes)''"
| "trace_text p (ChapSendResponse i user) =
     lit ''CHAP send Response id='' @ show_dec (unat i) @ lit '' for user='' @ debug_str p user"
| "trace_text p ChapSuccessVerified = lit ''CHAP success verified, starting IPCP''"
| "trace_text p (IpcpRecv c i n) =
     lit ''IPCP recv '' @ debug_code c @ lit '' id='' @ show_dec (unat i) @ lit '' ('' @ show_dec n @ lit '' option bytes)''"
| "trace_text p (IpcpSend c i) = lit ''IPCP send '' @ debug_code c @ lit '' id='' @ show_dec (unat i)"

fun fatal_text :: "(nat \<Rightarrow> bool) \<Rightarrow> fatal_msg \<Rightarrow> rstr" where
  "fatal_text p (ServerSentConnectNak reason) = lit ''server sent CONNECT_NAK: '' @ reason"
| "fatal_text p (ServerAborted reason) = lit ''server aborted the connection: '' @ reason"
| "fatal_text p MissingCryptoBindRequest = lit ''CONNECT_ACK is missing its crypto-bind-request attribute''"
| "fatal_text p (BadCryptoBindRequestLength n) =
     lit ''crypto-bind-request attribute has the wrong length: '' @ show_dec n"
| "fatal_text p OtherAuthMethodRequired =
     lit ''server requires an authentication method other than MS-CHAPv2, which is all we implement''"
| "fatal_text p NoAuthRequested =
     lit ''server did not request PPP authentication; refusing to continue without it''"
| "fatal_text p MalformedChap = lit ''malformed CHAP frame''"
| "fatal_text p MalformedChallenge = lit ''malformed CHAP challenge''"
| "fatal_text p (ChallengeNot16Bytes n) = lit ''CHAP challenge value must be 16 bytes, got '' @ show_dec n"
| "fatal_text p (CouldNotBuildResponse e) = lit ''could not build CHAP response: '' @ debug_response_error e"
| "fatal_text p SuccessWithoutPending =
     lit ''received CHAP success with no pending response to verify it against''"
| "fatal_text p (AuthenticatorMismatch said) =
     lit ''server's CHAP authenticator response did not verify -- it may not actually know our password (possible MITM); server said: '' @
     debug_str p said @ lit ''; aborting''"
| "fatal_text p (ChapAuthFailed said) = lit ''CHAP authentication failed: '' @ said"
| "fatal_text p (UnexpectedChapCode c) = lit ''unexpected CHAP code from server: '' @ debug_chap_code c"

section \<open>Display and Debug implementations\<close>

fun show_decode_error :: "decode_error \<Rightarrow> rstr" where
  "show_decode_error Incomplete = lit ''incomplete packet''"
| "show_decode_error (BadVersion v) = lit ''unsupported SSTP version 0x'' @ hex_lower v"
| "show_decode_error (Malformed why) = lit ''malformed SSTP packet: '' @ lit why"

definition debug_mppe_keys :: "(nat \<Rightarrow> bool) \<Rightarrow> mppe_keys \<Rightarrow> rstr" where
  "debug_mppe_keys p keys =
     lit ''MppeKeys { send_key: '' @ debug_str p (lit ''<redacted>'') @ lit '', recv_key: '' @
     debug_str p (lit ''<redacted>'') @ lit '' }''"

definition debug_engine :: "(nat \<Rightarrow> bool) \<Rightarrow> engine \<Rightarrow> rstr" where
  "debug_engine p e =
     lit ''Engine { username: '' @ debug_str p (e_username e) @ lit '', phase: '' @ debug_phase (e_phase e) @ lit '', .. }''"

section \<open>Facts\<close>

lemma debug_mppe_keys_hides_keys: "debug_mppe_keys p keys = debug_mppe_keys p keys'"
  by (simp add: debug_mppe_keys_def)

lemma debug_engine_hides_secrets:
  "debug_engine p e = debug_engine p (e\<lparr>e_password := pw, e_pending_chap := pend, e_auth_challenge := ch,
     e_mppe_keys := keys\<rparr>)"
  by (simp add: debug_engine_def)

end
