(* ===== verification/Tests_Auth.thy ===== *)
theory Tests_Auth
  imports Tests_Codec Standards Messages
begin

text \<open>
  The unit tests of \<open>chap.rs\<close>, \<open>chap_fsm.rs\<close>, \<open>mppe.rs\<close> and \<open>cmac.rs\<close>, run on the model. The
  cryptographic crates are an argument of a test. The tests that compare with published values are
  evaluated at the published standards (\<open>std_crypto\<close>), the others, which hold of any functions with
  the right output lengths, at \<open>toy_crypto\<close>. The peer challenge \<open>build_response\<close> draws is an argument too.
\<close>

lemma utf16_char_code [code]:
  "utf16_char c =
     (if c < 0x80 then [of_nat c]
      else if c < 0x10000 then [of_nat c]
      else [of_nat (0xD800 + (c - 0x10000) div 1024), of_nat (0xDC00 + (c - 0x10000) mod 1024)])"
  by (simp add: utf16_char_def)

lemma is_whitespace_code [code]:
  "is_whitespace c \<longleftrightarrow>
     (if c < 0x80 then (9 \<le> c \<and> c \<le> 13) \<or> c = 32
      else c = 0x85 \<or> c = 0xA0 \<or> c = 0x1680 \<or> (0x2000 \<le> c \<and> c \<le> 0x200A) \<or>
        c = 0x2028 \<or> c = 0x2029 \<or> c = 0x202F \<or> c = 0x205F \<or> c = 0x3000)"
  by (auto simp: is_whitespace_def)

section \<open>MS-CHAPv2\<close>

definition USERNAME :: rstr where "USERNAME = lit ''User''"
definition PASSWORD :: rstr where "PASSWORD = lit ''clientPass''"

definition AUTH_CHALLENGE :: bytes where
  "AUTH_CHALLENGE =
    [0x5B, 0x5D, 0x7C, 0x7D, 0x7B, 0x3F, 0x2F, 0x3E, 0x3C, 0x2C, 0x60, 0x21, 0x32, 0x26, 0x26, 0x28]"

definition PEER_CHALLENGE :: bytes where
  "PEER_CHALLENGE =
    [0x21, 0x40, 0x23, 0x24, 0x25, 0x5E, 0x26, 0x2A, 0x28, 0x29, 0x5F, 0x2B, 0x3A, 0x33, 0x7C, 0x7E]"

definition EXPECTED_NT_RESPONSE :: bytes where
  "EXPECTED_NT_RESPONSE =
    [0x82, 0x30, 0x9E, 0xCD, 0x8D, 0x70, 0x8B, 0x5E, 0xA0, 0x8F, 0xAA, 0x39, 0x81, 0xCD, 0x83, 0x54, 0x42, 0x33,
     0x11, 0x4A, 0x3D, 0x85, 0xD6, 0xDF]"

definition EXPECTED_AUTH_RESPONSE :: rstr where
  "EXPECTED_AUTH_RESPONSE = lit ''S=407A5589115FD0D6209F510FE9C04566932CDA56''"

definition nt_response_matches_rfc2759_test_vector :: "crypto \<Rightarrow> bool" where
  "nt_response_matches_rfc2759_test_vector cr = passes (do {
     response \<leftarrow> generate_nt_response cr AUTH_CHALLENGE PEER_CHALLENGE USERNAME PASSWORD;
     Some (response = EXPECTED_NT_RESPONSE)
   })"

definition authenticator_response_matches_rfc2759_test_vector :: "crypto \<Rightarrow> bool" where
  "authenticator_response_matches_rfc2759_test_vector cr = passes (do {
     response \<leftarrow> generate_authenticator_response cr PASSWORD EXPECTED_NT_RESPONSE PEER_CHALLENGE AUTH_CHALLENGE USERNAME;
     Some (response = EXPECTED_AUTH_RESPONSE)
   })"

definition domain_prefixed_username_only_hashes_the_user_part :: "crypto \<Rightarrow> bool" where
  "domain_prefixed_username_only_hashes_the_user_part cr = passes (do {
     plain \<leftarrow> generate_nt_response cr AUTH_CHALLENGE PEER_CHALLENGE USERNAME PASSWORD;
     domain_prefixed \<leftarrow> generate_nt_response cr AUTH_CHALLENGE PEER_CHALLENGE (lit ''CORP'' @ BACKSLASH # lit ''User'') PASSWORD;
     Some (plain = domain_prefixed)
   })"

definition different_password_produces_different_response :: "crypto \<Rightarrow> bool" where
  "different_password_produces_different_response cr = passes (do {
     a \<leftarrow> generate_nt_response cr AUTH_CHALLENGE PEER_CHALLENGE USERNAME (lit ''clientPass'');
     b \<leftarrow> generate_nt_response cr AUTH_CHALLENGE PEER_CHALLENGE USERNAME (lit ''wrongPass'');
     Some (a \<noteq> b)
   })"

definition make_key_produces_odd_parity_bytes :: bool where
  "make_key_produces_odd_parity_bytes \<longleftrightarrow> passes (do {
     let lookahead = replicate 8 0xFF;
     key \<leftarrow> make_key lookahead;
     Some (\<forall>byte \<in> set key. count_ones byte mod 2 = 1)
   })"

subsection \<open>The values of RFC 2759, step by step\<close>

lemma utf16le_passwords:
  "nt_hash_input PASSWORD = [0x63, 0x00, 0x6C, 0x00, 0x69, 0x00, 0x65, 0x00, 0x6E, 0x00, 0x74, 0x00, 0x50, 0x00, 0x61, 0x00, 0x73, 0x00, 0x73, 0x00]"
  "nt_hash_input (lit ''wrongPass'') = [0x77, 0x00, 0x72, 0x00, 0x6F, 0x00, 0x6E, 0x00, 0x67, 0x00, 0x50, 0x00, 0x61, 0x00, 0x73, 0x00, 0x73, 0x00]"
  by (simp_all add: nt_hash_input_def PASSWORD_def lit_def utf16_def utf16_char_def u16_to_le_def)

lemma rfc_challenge_hash:
  "challenge_hash std_crypto PEER_CHALLENGE AUTH_CHALLENGE USERNAME = Some [0xD0, 0x2E, 0x43, 0x86, 0xBC, 0xE9, 0x12, 0x26]"
  by code_simp

lemma rfc_password_hash:
  "nt_password_hash std_crypto PASSWORD = [0x44, 0xEB, 0xBA, 0x8D, 0x53, 0x12, 0xB8, 0xD6, 0x11, 0x47, 0x44, 0x11, 0xF5, 0x69, 0x89, 0xAE]"
  unfolding nt_password_hash_def utf16le_passwords by code_simp

lemma wrong_password_hash:
  "nt_password_hash std_crypto (lit ''wrongPass'') = [0x4C, 0xA7, 0x91, 0xC4, 0x43, 0xAC, 0xF2, 0x25, 0x69, 0x85, 0x67, 0xE0, 0x6E, 0x1E, 0x39, 0x78]"
  unfolding nt_password_hash_def utf16le_passwords by code_simp

lemma rfc_challenge_response:
  "challenge_response std_crypto [0xD0, 0x2E, 0x43, 0x86, 0xBC, 0xE9, 0x12, 0x26]
     [0x44, 0xEB, 0xBA, 0x8D, 0x53, 0x12, 0xB8, 0xD6, 0x11, 0x47, 0x44, 0x11, 0xF5, 0x69, 0x89, 0xAE] = Some EXPECTED_NT_RESPONSE"
  by code_simp

lemma wrong_challenge_response:
  "challenge_response std_crypto [0xD0, 0x2E, 0x43, 0x86, 0xBC, 0xE9, 0x12, 0x26]
     [0x4C, 0xA7, 0x91, 0xC4, 0x43, 0xAC, 0xF2, 0x25, 0x69, 0x85, 0x67, 0xE0, 0x6E, 0x1E, 0x39, 0x78] = Some [0x95, 0x3D, 0x95, 0x35, 0x9C, 0x3C, 0x37, 0x33, 0x90, 0x36, 0xBC, 0x36, 0xFF, 0xF1, 0x6E, 0x9E, 0xA6, 0xCC, 0x87, 0x71, 0x08, 0x51, 0xF1, 0xBE]"
  by code_simp

lemma rfc_password_hash_hash:
  "c_md4 std_crypto [0x44, 0xEB, 0xBA, 0x8D, 0x53, 0x12, 0xB8, 0xD6, 0x11, 0x47, 0x44, 0x11, 0xF5, 0x69, 0x89, 0xAE] = [0x41, 0xC0, 0x0C, 0x58, 0x4B, 0xD2, 0xD9, 0x1C, 0x40, 0x17, 0xA2, 0xA1, 0x2F, 0xA5, 0x9F, 0x3F]"
  by code_simp

lemma rfc_digest1:
  "c_sha1 std_crypto ([0x41, 0xC0, 0x0C, 0x58, 0x4B, 0xD2, 0xD9, 0x1C, 0x40, 0x17, 0xA2, 0xA1, 0x2F, 0xA5, 0x9F, 0x3F] @ EXPECTED_NT_RESPONSE @ AUTH_RESPONSE_MAGIC1) =
     [0x28, 0x89, 0x7F, 0x97, 0xBD, 0xDB, 0x1F, 0x96, 0xC9, 0x81, 0xCD, 0x1C, 0xB2, 0x82, 0x6F, 0x12, 0xB9, 0xFC, 0x00, 0xB8]"
  by code_simp

lemma rfc_digest2:
  "c_sha1 std_crypto ([0x28, 0x89, 0x7F, 0x97, 0xBD, 0xDB, 0x1F, 0x96, 0xC9, 0x81, 0xCD, 0x1C, 0xB2, 0x82, 0x6F, 0x12, 0xB9, 0xFC, 0x00, 0xB8] @
     [0xD0, 0x2E, 0x43, 0x86, 0xBC, 0xE9, 0x12, 0x26] @ AUTH_RESPONSE_MAGIC2) =
     [0x40, 0x7A, 0x55, 0x89, 0x11, 0x5F, 0xD0, 0xD6, 0x20, 0x9F, 0x51, 0x0F, 0xE9, 0xC0, 0x45, 0x66, 0x93, 0x2C, 0xDA, 0x56]"
  by code_simp

lemma nt_response_vector:
  "generate_nt_response std_crypto AUTH_CHALLENGE PEER_CHALLENGE USERNAME PASSWORD = Some EXPECTED_NT_RESPONSE"
  by (simp add: generate_nt_response_def rfc_challenge_hash rfc_password_hash rfc_challenge_response Let_def)

lemma nt_response_of_wrong_password:
  "generate_nt_response std_crypto AUTH_CHALLENGE PEER_CHALLENGE USERNAME (lit ''wrongPass'') = Some [0x95, 0x3D, 0x95, 0x35, 0x9C, 0x3C, 0x37, 0x33, 0x90, 0x36, 0xBC, 0x36, 0xFF, 0xF1, 0x6E, 0x9E, 0xA6, 0xCC, 0x87, 0x71, 0x08, 0x51, 0xF1, 0xBE]"
  by (simp add: generate_nt_response_def rfc_challenge_hash wrong_password_hash wrong_challenge_response Let_def)

lemma auth_response_text:
  "lit ''S='' @ concat (map hex_upper [0x40, 0x7A, 0x55, 0x89, 0x11, 0x5F, 0xD0, 0xD6, 0x20, 0x9F, 0x51, 0x0F, 0xE9, 0xC0, 0x45, 0x66, 0x93, 0x2C, 0xDA, 0x56]) = EXPECTED_AUTH_RESPONSE"
  by code_simp

lemma authenticator_vector:
  "generate_authenticator_response std_crypto PASSWORD EXPECTED_NT_RESPONSE PEER_CHALLENGE AUTH_CHALLENGE USERNAME =
     Some EXPECTED_AUTH_RESPONSE"
  by (simp add: generate_authenticator_response_def rfc_challenge_hash rfc_password_hash rfc_password_hash_hash
      rfc_digest1 [simplified] rfc_digest2 [simplified] Let_def flip: auth_response_text)

lemma chap_tests_pass:
  "nt_response_matches_rfc2759_test_vector std_crypto"
  "authenticator_response_matches_rfc2759_test_vector std_crypto"
  "domain_prefixed_username_only_hashes_the_user_part std_crypto"
  "different_password_produces_different_response std_crypto"
  "make_key_produces_odd_parity_bytes"
proof -
  show "nt_response_matches_rfc2759_test_vector std_crypto"
    by (simp add: nt_response_matches_rfc2759_test_vector_def nt_response_vector passes_def)
  show "authenticator_response_matches_rfc2759_test_vector std_crypto"
    by (simp add: authenticator_response_matches_rfc2759_test_vector_def authenticator_vector passes_def)
  have "challenge_hash std_crypto PEER_CHALLENGE AUTH_CHALLENGE (lit ''CORP'' @ BACKSLASH # lit ''User'') =
      challenge_hash std_crypto PEER_CHALLENGE AUTH_CHALLENGE USERNAME"
    by (simp add: challenge_hash_def after_last_def lit_def BACKSLASH_def USERNAME_def)
  then have "generate_nt_response std_crypto AUTH_CHALLENGE PEER_CHALLENGE (lit ''CORP'' @ BACKSLASH # lit ''User'') PASSWORD =
      Some EXPECTED_NT_RESPONSE"
    using nt_response_vector by (simp add: generate_nt_response_def)
  then show "domain_prefixed_username_only_hashes_the_user_part std_crypto"
    by (simp add: domain_prefixed_username_only_hashes_the_user_part_def nt_response_vector passes_def)
  show "different_password_produces_different_response std_crypto"
    using nt_response_vector
    by (simp add: different_password_produces_different_response_def nt_response_of_wrong_password passes_def
        PASSWORD_def EXPECTED_NT_RESPONSE_def)
  show "make_key_produces_odd_parity_bytes" by code_simp
qed

section \<open>CHAP frames\<close>

definition sample_challenge :: challenge_info where
  "sample_challenge = \<lparr>ci_id = 1, ci_value = replicate 16 0xAA, ci_name = lit ''VPN-SERVER''\<rparr>"

definition challenge_frame_round_trips :: bool where
  "challenge_frame_round_trips \<longleftrightarrow> passes (do {
     let wire = chap_encode Challenge 1 ([16] @ replicate 16 0xAA @ byte_lit ''VPN-SERVER'');
     decoded \<leftarrow> chap_decode wire;
     frame \<leftarrow> decoded;
     parsed \<leftarrow> parse_challenge frame;
     info \<leftarrow> parsed;
     Some (cf_code frame = Challenge \<and> ci_value info = replicate 16 0xAA \<and> ci_name info = lit ''VPN-SERVER'')
   })"

definition unwrap_response ::
  "(response_error + bytes \<times> pending_response) option \<Rightarrow> (bytes \<times> pending_response) option" where
  \<comment> \<open>\<open>build_response(..).unwrap()\<close>\<close>
  "unwrap_response r = Option.bind r (\<lambda>x. case x of Inr v \<Rightarrow> Some v | Inl _ \<Rightarrow> None)"

definition build_response_has_rfc2759_shape_and_matching_id :: "crypto \<Rightarrow> bytes \<Rightarrow> bool" where
  "build_response_has_rfc2759_shape_and_matching_id cr rnd = passes (do {
     let challenge = sample_challenge;
     (wire, pending) \<leftarrow> unwrap_response (build_response cr rnd challenge (lit ''testuser'') (lit ''hunter2''));
     decoded \<leftarrow> chap_decode wire;
     frame \<leftarrow> decoded;
     first \<leftarrow> idx (cf_data frame) 0;
     value \<leftarrow> subslice (cf_data frame) 1 50;
     peer \<leftarrow> subslice value 0 16;
     reserved \<leftarrow> subslice value 16 24;
     nt \<leftarrow> subslice value 24 48;
     flags \<leftarrow> idx value 48;
     name \<leftarrow> subslice (cf_data frame) 50 (length (cf_data frame));
     Some (cf_code frame = Response \<and> cf_id frame = ci_id challenge \<and> first = 49 \<and>
       peer = pr_peer_challenge pending \<and> reserved = replicate 8 0 \<and> nt = pr_nt_response pending \<and>
       flags = 0 \<and> name = byte_lit ''testuser'')
   })"

definition rejects_challenge_with_wrong_value_length :: "crypto \<Rightarrow> bytes \<Rightarrow> bool" where
  "rejects_challenge_with_wrong_value_length cr rnd \<longleftrightarrow>
     (let bad = \<lparr>ci_id = 1, ci_value = replicate 8 0, ci_name = lit ''x''\<rparr>
      in build_response cr rnd bad (lit ''u'') (lit ''p'') = Some (Inl (BadChallengeLength 8)))"

definition verify_success_accepts_correctly_derived_authenticator_response :: "crypto \<Rightarrow> bytes \<Rightarrow> bool" where
  "verify_success_accepts_correctly_derived_authenticator_response cr rnd = passes (do {
     let auth_challenge = replicate 16 0x11;
     let challenge = \<lparr>ci_id = 1, ci_value = auth_challenge, ci_name = lit ''srv''\<rparr>;
     (_, pending) \<leftarrow> unwrap_response (build_response cr rnd challenge (lit ''user'') (lit ''pw''));
     expected \<leftarrow> generate_authenticator_response cr (lit ''pw'') (pr_nt_response pending)
       (pr_peer_challenge pending) auth_challenge (lit ''user'');
     v1 \<leftarrow> verify_success cr (utf8 expected) (lit ''pw'') pending auth_challenge (lit ''user'');
     let with_suffix = expected @ lit '' M=Login OK'';
     v2 \<leftarrow> verify_success cr (utf8 with_suffix) (lit ''pw'') pending auth_challenge (lit ''user'');
     Some (v1 \<and> v2)
   })"

definition verify_success_rejects_wrong_or_forged_response :: "crypto \<Rightarrow> bytes \<Rightarrow> bool" where
  "verify_success_rejects_wrong_or_forged_response cr rnd = passes (do {
     let auth_challenge = replicate 16 0x22;
     let challenge = \<lparr>ci_id = 1, ci_value = auth_challenge, ci_name = lit ''srv''\<rparr>;
     (_, pending) \<leftarrow> unwrap_response (build_response cr rnd challenge (lit ''user'') (lit ''correct-password''));
     let forged = lit ''S=0000000000000000000000000000000000000000'';
     verified \<leftarrow> verify_success cr (utf8 forged) (lit ''correct-password'') pending auth_challenge (lit ''user'');
     Some (\<not> verified)
   })"

definition drawn_challenge :: bytes where
  "drawn_challenge = map of_nat [1..<17]"

lemma chap_fsm_tests_pass:
  "challenge_frame_round_trips"
  "build_response_has_rfc2759_shape_and_matching_id toy_crypto drawn_challenge"
  "rejects_challenge_with_wrong_value_length toy_crypto drawn_challenge"
  "verify_success_accepts_correctly_derived_authenticator_response toy_crypto drawn_challenge"
  "verify_success_rejects_wrong_or_forged_response toy_crypto drawn_challenge"
  by code_simp+

section \<open>MPPE keys\<close>

definition magic_strings_match_reference_byte_arrays :: bool where
  "magic_strings_match_reference_byte_arrays \<longleftrightarrow>
     length MASTER_KEY_MAGIC = 27 \<and>
     MASTER_KEY_MAGIC =
       [0x54, 0x68, 0x69, 0x73, 0x20, 0x69, 0x73, 0x20, 0x74, 0x68, 0x65, 0x20, 0x4D, 0x50, 0x50, 0x45,
        0x20, 0x4D, 0x61, 0x73, 0x74, 0x65, 0x72, 0x20, 0x4B, 0x65, 0x79] \<and>
     length SESSION_KEY_MAGIC_CLIENT_SEND = 84 \<and> length SESSION_KEY_MAGIC_CLIENT_RECV = 84"

definition REFERENCE_NT_RESPONSE :: bytes where
  \<comment> \<open>\<open>nt_response\<close> of the test below\<close>
  "REFERENCE_NT_RESPONSE =
    [0x85, 0x9A, 0x0C, 0x0E, 0xCE, 0x47, 0x4D, 0xF2, 0x0D, 0x0A, 0xE8, 0x31, 0xAC, 0x3A, 0xE3, 0xD2,
     0x4F, 0x82, 0x6E, 0x93, 0x67, 0x9E, 0x36, 0xBC]"

definition matches_reference_implementation_test_vector :: "crypto \<Rightarrow> bool" where
  "matches_reference_implementation_test_vector cr = passes (do {
     let expected_send_key = [0x00, 0x0B, 0xC1, 0xDE, 0xA2, 0xCB, 0x85, 0x16, 0xBC, 0x77, 0xF5, 0x52, 0xB9, 0xEC, 0x5A, 0x03];
     let expected_recv_key = [0x93, 0xD9, 0x27, 0x06, 0xF5, 0x13, 0xA2, 0xEA, 0x50, 0xF8, 0xCD, 0x94, 0x69, 0x57, 0x3C, 0xDB];
     keys \<leftarrow> mppe_get_keys cr (lit ''DukeNuke3D'') REFERENCE_NT_RESPONSE False;
     Some (send_key keys = expected_send_key \<and> recv_key keys = expected_recv_key)
   })"

definition debug_bytes :: "bytes \<Rightarrow> rstr" where
  \<comment> \<open>\<open>{:?}\<close> of a byte array\<close>
  "debug_bytes bs = lit ''['' @ join (lit '', '') (map (show_dec \<circ> unat) bs) @ lit '']''"

definition debug_impl_never_prints_key_material :: "(nat \<Rightarrow> bool) \<Rightarrow> crypto \<Rightarrow> bool" where
  "debug_impl_never_prints_key_material printable cr = passes (do {
     keys \<leftarrow> mppe_get_keys cr (lit ''hunter2'') (replicate 24 0) False;
     let dbg = debug_mppe_keys printable keys;
     Some (\<not> contains dbg (debug_bytes (send_key keys)) \<and> contains dbg (lit ''redacted''))
   })"

section \<open>The compound MAC\<close>

definition SHA1_MSG :: bytes where
  \<comment> \<open>\<open>sstp_msg\<close>, \<open>send_key\<close>, \<open>recv_key\<close> and \<open>expected\<close> of the SHA-1 tests, then of the SHA-256 test\<close>
  "SHA1_MSG =
    [0x10, 0x01, 0x00, 0x70, 0x00, 0x04, 0x00, 0x01, 0x00, 0x03, 0x00, 0x68, 0x00, 0x00, 0x00, 0x01,
     0x0F, 0x1A, 0x2D, 0x58, 0xD4, 0xA3, 0xE3, 0x00, 0x0F, 0xAD, 0x3C, 0xE4, 0x90, 0x6E, 0x07, 0xB7,
     0x07, 0xAA, 0x9E, 0x44, 0x1C, 0xCE, 0xAC, 0x5C, 0xBD, 0x7B, 0x2C, 0xC1, 0xC9, 0xD8, 0x6C, 0xDF,
     0x58, 0x26, 0xB6, 0x29, 0xBD, 0xA5, 0x9B, 0x8E, 0x6F, 0xD8, 0xDC, 0xD2, 0x62, 0x2F, 0xD3, 0x4C,
     0x53, 0x48, 0x05, 0xA5, 0x00, 0x00, 0x00, 0x00, 0x00, 0x00, 0x00, 0x00, 0x00, 0x00, 0x00, 0x00,
     0x00, 0x00, 0x00, 0x00, 0x00, 0x00, 0x00, 0x00, 0x00, 0x00, 0x00, 0x00, 0x00, 0x00, 0x00, 0x00,
     0x00, 0x00, 0x00, 0x00, 0x00, 0x00, 0x00, 0x00, 0x00, 0x00, 0x00, 0x00, 0x00, 0x00, 0x00, 0x00]"

definition SHA1_SEND_KEY :: bytes where
  "SHA1_SEND_KEY = [0x4B, 0x31, 0x28, 0xF4, 0x39, 0x25, 0xD9, 0x00, 0x6E, 0xEF, 0xB1, 0xC4, 0xE8, 0x65, 0x15, 0xA1]"

definition SHA1_RECV_KEY :: bytes where
  "SHA1_RECV_KEY = [0xD8, 0x8E, 0x56, 0xBA, 0xB3, 0xCA, 0x2B, 0xDF, 0x03, 0x73, 0xB7, 0xF5, 0xA8, 0xA1, 0x3B, 0x19]"

definition SHA1_MAC :: bytes where
  "SHA1_MAC =
    [0x69, 0x91, 0x5D, 0xD5, 0x83, 0xD8, 0x06, 0x2F, 0xEF, 0x16, 0xF6, 0x1D, 0xB2, 0xF0, 0x32, 0x90,
     0xEC, 0x27, 0xCB, 0x6C]"

definition SHA256_MSG :: bytes where
  "SHA256_MSG =
    [0x10, 0x01, 0x00, 0x70, 0x00, 0x04, 0x00, 0x01, 0x00, 0x03, 0x00, 0x68, 0x00, 0x00, 0x00, 0x02,
     0x41, 0x2B, 0x48, 0x9A, 0xEB, 0xD7, 0xEC, 0xC7, 0xD0, 0x89, 0x66, 0xF2, 0x6B, 0xE7, 0xCD, 0x72,
     0xB2, 0x31, 0xA0, 0xE9, 0x21, 0x0D, 0x7C, 0x91, 0xB3, 0x08, 0x86, 0x2B, 0x03, 0x44, 0xC4, 0x35,
     0x79, 0x93, 0xEF, 0x31, 0x4C, 0x49, 0x3D, 0xAC, 0xE9, 0xF0, 0x2D, 0x60, 0xE7, 0xE6, 0x1C, 0x84,
     0xB6, 0x69, 0x0A, 0xAF, 0xE9, 0xD7, 0xAE, 0xEA, 0x92, 0xCB, 0xBE, 0x8A, 0xD5, 0x99, 0x42, 0x2D,
     0x00, 0x00, 0x00, 0x00, 0x00, 0x00, 0x00, 0x00, 0x00, 0x00, 0x00, 0x00, 0x00, 0x00, 0x00, 0x00,
     0x00, 0x00, 0x00, 0x00, 0x00, 0x00, 0x00, 0x00, 0x00, 0x00, 0x00, 0x00, 0x00, 0x00, 0x00, 0x00]"

definition SHA256_SEND_KEY :: bytes where
  "SHA256_SEND_KEY = [0x2A, 0x1B, 0xB4, 0x0D, 0x55, 0xAB, 0x0F, 0x5E, 0xF3, 0x2F, 0x06, 0xF2, 0xB3, 0xCC, 0x73, 0xC4]"

definition SHA256_RECV_KEY :: bytes where
  "SHA256_RECV_KEY = [0x8F, 0xD3, 0xFA, 0xC4, 0x1D, 0x7A, 0x13, 0x15, 0xA1, 0x92, 0x28, 0xD9, 0x02, 0x4C, 0xA1, 0x64]"

definition SHA256_MAC :: bytes where
  "SHA256_MAC =
    [0x52, 0xA6, 0x8E, 0xFD, 0x8C, 0xFF, 0xBF, 0x52, 0x77, 0x0B, 0x8F, 0x0F, 0xE8, 0xEC, 0x73, 0x71,
     0x65, 0x83, 0xAF, 0x6D, 0x61, 0x1E, 0xB6, 0xD1, 0x79, 0xB3, 0xB2, 0x08, 0x40, 0x98, 0x54, 0x49]"

definition sha1_matches_reference_test_vector :: "crypto \<Rightarrow> bool" where
  "sha1_matches_reference_test_vector cr \<longleftrightarrow>
     compound_mac cr AlgoSha1 SHA1_SEND_KEY SHA1_RECV_KEY SHA1_MSG = Some SHA1_MAC"

definition build_connected_message_matches_reference_sha1_vector :: "crypto \<Rightarrow> bool" where
  "build_connected_message_matches_reference_sha1_vector cr = passes (do {
     nonce \<leftarrow> subslice SHA1_MSG 16 48;
     cert_hash \<leftarrow> subslice SHA1_MSG 48 80;
     built \<leftarrow> build_connected_message cr AlgoSha1 nonce cert_hash SHA1_SEND_KEY SHA1_RECV_KEY;
     expected_packet \<leftarrow> copy_into SHA1_MSG 80 100 SHA1_MAC;
     Some (built = expected_packet)
   })"

definition sha256_matches_reference_test_vector :: "crypto \<Rightarrow> bool" where
  "sha256_matches_reference_test_vector cr \<longleftrightarrow>
     compound_mac cr AlgoSha256 SHA256_SEND_KEY SHA256_RECV_KEY SHA256_MSG = Some SHA256_MAC"

definition seed_matches_reference_byte_array :: bool where
  "seed_matches_reference_byte_array \<longleftrightarrow>
     length SEED = 29 \<and>
     SEED =
       [0x53, 0x53, 0x54, 0x50, 0x20, 0x69, 0x6E, 0x6E, 0x65, 0x72, 0x20, 0x6D, 0x65, 0x74, 0x68, 0x6F,
        0x64, 0x20, 0x64, 0x65, 0x72, 0x69, 0x76, 0x65, 0x64, 0x20, 0x43, 0x4D, 0x4B]"

subsection \<open>The reference values, step by step\<close>

lemma reference_password_hash_hash:
  "password_hash_hash std_crypto (lit ''DukeNuke3D'') =
    [0x27, 0xA5, 0x3B, 0xE7, 0x57, 0xF6, 0x2D, 0xAF, 0xFE, 0x20, 0x78, 0x6D, 0x1F, 0xEA, 0xDD, 0xDF]"
  by code_simp

lemma reference_master_key:
  "master_key std_crypto
    [0x27, 0xA5, 0x3B, 0xE7, 0x57, 0xF6, 0x2D, 0xAF, 0xFE, 0x20, 0x78, 0x6D, 0x1F, 0xEA, 0xDD, 0xDF] REFERENCE_NT_RESPONSE =
    Some [0xA8, 0x4F, 0x9B, 0xCB, 0x2A, 0xE3, 0x7B, 0x88, 0x06, 0x0D, 0x1F, 0x36, 0x45, 0x3D, 0xD0, 0xED]"
  by code_simp

lemma reference_recv_key:
  "session_key std_crypto
    [0xA8, 0x4F, 0x9B, 0xCB, 0x2A, 0xE3, 0x7B, 0x88, 0x06, 0x0D, 0x1F, 0x36, 0x45, 0x3D, 0xD0, 0xED] False False =
    Some [0x93, 0xD9, 0x27, 0x06, 0xF5, 0x13, 0xA2, 0xEA, 0x50, 0xF8, 0xCD, 0x94, 0x69, 0x57, 0x3C, 0xDB]"
  by code_simp

lemma reference_send_key:
  "session_key std_crypto
    [0xA8, 0x4F, 0x9B, 0xCB, 0x2A, 0xE3, 0x7B, 0x88, 0x06, 0x0D, 0x1F, 0x36, 0x45, 0x3D, 0xD0, 0xED] True False =
    Some [0x00, 0x0B, 0xC1, 0xDE, 0xA2, 0xCB, 0x85, 0x16, 0xBC, 0x77, 0xF5, 0x52, 0xB9, 0xEC, 0x5A, 0x03]"
  by code_simp

lemma mppe_vector:
  "mppe_get_keys std_crypto (lit ''DukeNuke3D'') REFERENCE_NT_RESPONSE False =
    Some \<lparr>send_key =
      [0x00, 0x0B, 0xC1, 0xDE, 0xA2, 0xCB, 0x85, 0x16, 0xBC, 0x77, 0xF5, 0x52, 0xB9, 0xEC, 0x5A, 0x03],
      recv_key =
      [0x93, 0xD9, 0x27, 0x06, 0xF5, 0x13, 0xA2, 0xEA, 0x50, 0xF8, 0xCD, 0x94, 0x69, 0x57, 0x3C, 0xDB]\<rparr>"
  by (simp add: mppe_get_keys_def reference_password_hash_hash reference_master_key reference_recv_key
      reference_send_key Let_def)

lemma reference_sha1_key:
  "hmac_sha1 std_crypto (SHA1_SEND_KEY @ SHA1_RECV_KEY) [SEED, [20, 0, 1]] =
    [0xA9, 0x8B, 0x86, 0x2A, 0x38, 0xCC, 0x7E, 0x22, 0x4B, 0x42, 0xCD, 0x12, 0x85, 0x86, 0xAC, 0xB2,
     0x2F, 0x0B, 0xD1, 0xE9]"
  by code_simp

lemma reference_sha256_key:
  "hmac_sha256 std_crypto (SHA256_SEND_KEY @ SHA256_RECV_KEY) [SEED, [32, 0, 1]] =
    [0xEC, 0xF5, 0x9A, 0xC9, 0xFE, 0x15, 0x5C, 0xF0, 0xA9, 0xE7, 0xD6, 0x6A, 0xDC, 0x1B, 0x36, 0x3C,
     0x1A, 0xD7, 0xBA, 0x91, 0xA9, 0x21, 0x7F, 0x0C, 0xEC, 0x2A, 0x53, 0x42, 0x98, 0x82, 0x8D, 0xF6]"
  by code_simp

lemma reference_sha1_mac:
  "hmac_sha1 std_crypto
    [0xA9, 0x8B, 0x86, 0x2A, 0x38, 0xCC, 0x7E, 0x22, 0x4B, 0x42, 0xCD, 0x12, 0x85, 0x86, 0xAC, 0xB2,
     0x2F, 0x0B, 0xD1, 0xE9] [SHA1_MSG] = SHA1_MAC"
  by code_simp

lemma reference_sha256_mac:
  "hmac_sha256 std_crypto
    [0xEC, 0xF5, 0x9A, 0xC9, 0xFE, 0x15, 0x5C, 0xF0, 0xA9, 0xE7, 0xD6, 0x6A, 0xDC, 0x1B, 0x36, 0x3C,
     0x1A, 0xD7, 0xBA, 0x91, 0xA9, 0x21, 0x7F, 0x0C, 0xEC, 0x2A, 0x53, 0x42, 0x98, 0x82, 0x8D, 0xF6] [SHA256_MSG] = SHA256_MAC"
  by code_simp

lemma reference_hlaks:
  "make_hlak SHA1_SEND_KEY SHA1_RECV_KEY = Some (SHA1_SEND_KEY @ SHA1_RECV_KEY)"
  "make_hlak SHA256_SEND_KEY SHA256_RECV_KEY = Some (SHA256_SEND_KEY @ SHA256_RECV_KEY)"
  by code_simp+

lemma sha1_mac_vector:
  "compound_mac std_crypto AlgoSha1 SHA1_SEND_KEY SHA1_RECV_KEY SHA1_MSG = Some SHA1_MAC"
  by (simp add: compound_mac_def reference_hlaks reference_sha1_key reference_sha1_mac Let_def)

lemma sha256_mac_vector:
  "compound_mac std_crypto AlgoSha256 SHA256_SEND_KEY SHA256_RECV_KEY SHA256_MSG = Some SHA256_MAC"
  by (simp add: compound_mac_def reference_hlaks reference_sha256_key reference_sha256_mac Let_def)

definition SHA1_NONCE :: bytes where "SHA1_NONCE = take 32 (drop 16 SHA1_MSG)"
definition SHA1_CERT_HASH :: bytes where "SHA1_CERT_HASH = take 32 (drop 48 SHA1_MSG)"

lemma sha1_msg_parts:
  "connected_header AlgoSha1 @ SHA1_NONCE @ SHA1_CERT_HASH @ replicate 32 0 = SHA1_MSG"
  by code_simp

lemma connected_message_vector:
  "build_connected_message std_crypto AlgoSha1 SHA1_NONCE SHA1_CERT_HASH SHA1_SEND_KEY SHA1_RECV_KEY =
     Some (take 80 SHA1_MSG @ SHA1_MAC @ replicate 12 0)"
proof -
  have l: "length SHA1_NONCE = 32" "length SHA1_CERT_HASH = 32" "length SHA1_MAC = mac_len AlgoSha1"
    by (simp_all add: SHA1_NONCE_def SHA1_CERT_HASH_def SHA1_MSG_def SHA1_MAC_def)
  have "take 80 SHA1_MSG = connected_header AlgoSha1 @ SHA1_NONCE @ SHA1_CERT_HASH"
    unfolding sha1_msg_parts [symmetric] by (simp add: l connected_header_def)
  then show ?thesis
    using build_connected_message_eq [OF l(1,2) _ l(3), of std_crypto SHA1_SEND_KEY SHA1_RECV_KEY]
    by (simp add: sha1_msg_parts sha1_mac_vector)
qed

lemma mppe_tests_pass:
  "magic_strings_match_reference_byte_arrays"
  "matches_reference_implementation_test_vector std_crypto"
  "debug_impl_never_prints_key_material ascii_printable toy_crypto"
proof -
  show "magic_strings_match_reference_byte_arrays" by code_simp
  show "matches_reference_implementation_test_vector std_crypto"
    by (simp add: matches_reference_implementation_test_vector_def mppe_vector passes_def Let_def)
  show "debug_impl_never_prints_key_material ascii_printable toy_crypto" by code_simp
qed

lemma cmac_tests_pass:
  "sha1_matches_reference_test_vector std_crypto"
  "build_connected_message_matches_reference_sha1_vector std_crypto"
  "sha256_matches_reference_test_vector std_crypto"
  "seed_matches_reference_byte_array"
proof -
  show "sha1_matches_reference_test_vector std_crypto" "sha256_matches_reference_test_vector std_crypto"
    by (simp_all add: sha1_matches_reference_test_vector_def sha256_matches_reference_test_vector_def
        sha1_mac_vector sha256_mac_vector)
  have s: "subslice SHA1_MSG 16 48 = Some SHA1_NONCE" "subslice SHA1_MSG 48 80 = Some SHA1_CERT_HASH"
    "copy_into SHA1_MSG 80 100 SHA1_MAC = Some (take 80 SHA1_MSG @ SHA1_MAC @ replicate 12 0)"
    by code_simp+
  show "build_connected_message_matches_reference_sha1_vector std_crypto"
    by (simp add: build_connected_message_matches_reference_sha1_vector_def s connected_message_vector passes_def)
  show "seed_matches_reference_byte_array" by code_simp
qed

section \<open>Passwords that are not ASCII\<close>

lemma e_acute_encodings:
  "doubled (utf8 [0xE9]) = [0xC3, 0, 0xA9, 0]" "nt_hash_input [0xE9] = [0xE9, 0]"
  by (simp_all add: utf8_Cons utf8_char_def nt_hash_input_def utf16_def utf16_char_def u16_to_le_def)

lemma e_acute_hashes:
  "c_md4 std_crypto (c_md4 std_crypto [0xC3, 0, 0xA9, 0]) \<noteq> c_md4 std_crypto (c_md4 std_crypto [0xE9, 0])"
  by code_simp

lemma mppe_hash_differs_for_e_acute:
  \<comment> \<open>with the published MD4, the hash the MPPE keys start from is not that of the NT hash\<close>
  "password_hash_hash std_crypto [0xE9] \<noteq> c_md4 std_crypto (nt_password_hash std_crypto [0xE9])"
  using e_acute_hashes
  by (simp only: password_hash_hash_def nt_password_hash_def e_acute_encodings Let_def not_False_eq_True)

end
