(* ===== verification/Tests_Engine.thy ===== *)
theory Tests_Engine
  imports Tests_Auth Tests_Negotiation
begin

text \<open>
  The unit tests of \<open>engine.rs\<close>, run on the model: the whole handshake against a server that the test
  plays, and the ways it ends early. The cryptographic crates and what the code draws at random (the
  magic numbers, the peer challenge) are arguments of a test. The tests compare the engine with
  values the model itself computes, so they are evaluated at \<open>toy_crypto\<close>.
\<close>

section \<open>What the tests use\<close>

definition ENGINE_USERNAME :: rstr where "ENGINE_USERNAME = lit ''test.user''"
definition ENGINE_PASSWORD :: rstr where "ENGINE_PASSWORD = lit ''test-password-not-real''"
definition FAKE_CERT_DER :: bytes where
  "FAKE_CERT_DER = byte_lit ''totally-not-a-real-certificate-just-test-bytes''"

primrec extract_send :: "event list \<Rightarrow> bytes list" where
  "extract_send [] = []"
| "extract_send (e # es) = (case e of Send b \<Rightarrow> b # extract_send es | _ \<Rightarrow> extract_send es)"

definition unwrap_packet :: "bytes \<Rightarrow> packet option" where
  \<comment> \<open>\<open>packet::decode(..).unwrap()\<close>\<close>
  "unwrap_packet wire = Option.bind (packet_decode wire) (\<lambda>r. case r of Inr p \<Rightarrow> Some p | Inl _ \<Rightarrow> None)"

definition unwrap_ppp :: "bytes \<Rightarrow> (protocol \<times> bytes) option" where
  "unwrap_ppp sstp_data_pkt = do {
     pkt \<leftarrow> unwrap_packet sstp_data_pkt;
     ppp_frame \<leftarrow> (case pkt of Data f \<Rightarrow> Some f | _ \<Rightarrow> None);
     decoded \<leftarrow> ppp_decode ppp_frame;
     decoded
   }"

definition received :: "crypto \<Rightarrow> draws \<Rightarrow> engine \<Rightarrow> bytes \<Rightarrow> (engine \<times> event list) option" where
  \<comment> \<open>\<open>engine.on_packet(packet::decode(..).unwrap())\<close>\<close>
  "received cr rnd e wire = Option.bind (unwrap_packet wire) (on_packet cr rnd e)"

definition received_ppp :: "crypto \<Rightarrow> draws \<Rightarrow> engine \<Rightarrow> protocol \<Rightarrow> bytes \<Rightarrow> (engine \<times> event list) option" where
  \<comment> \<open>\<open>engine.on_packet(packet::decode(&wrap_data(..)).unwrap())\<close>\<close>
  "received_ppp cr rnd e proto payload = received cr rnd e (wrap_data proto payload)"

definition chap_challenge_data :: "bytes \<Rightarrow> string \<Rightarrow> bytes" where
  \<comment> \<open>\<open>challenge_data\<close> of the tests\<close>
  "chap_challenge_data auth_challenge name = [16] @ auth_challenge @ byte_lit name"

primrec find_established :: "event list \<Rightarrow> (negotiated_config \<times> mppe_keys) option" where
  \<comment> \<open>the \<open>find_map\<close> of the handshake test\<close>
  "find_established [] = None"
| "find_established (e # es) = (case e of Established n k \<Rightarrow> Some (n, k) | _ \<Rightarrow> find_established es)"

section \<open>The handshake\<close>

definition full_handshake_reaches_established_with_correct_crypto_bind :: "crypto \<Rightarrow> u32 \<Rightarrow> draws \<Rightarrow> bool" where
  "full_handshake_reaches_established_with_correct_crypto_bind cr magic rnd = passes (do {
     engine \<leftarrow> engine_new cr magic ENGINE_USERNAME ENGINE_PASSWORD FAKE_CERT_DER;
     let connect_req = engine_start engine;
     (m0, _) \<leftarrow> ctrl_of connect_req;
     let server_nonce = replicate 32 0x7A;
     let crypto_bind_req_data = [0, 0, 0, 0x02] @ server_nonce;
     let connect_ack = encode_ctrl ConnectAck [(CryptoBindRequest, crypto_bind_req_data)];
     (engine, events) \<leftarrow> received cr rnd engine connect_ack;

     let sends1 = extract_send events;
     first1 \<leftarrow> idx sends1 0;
     (proto1, lcp_payload) \<leftarrow> unwrap_ppp first1;
     our_lcp_req \<leftarrow> unwrap_frame lcp_payload;

     our_opts \<leftarrow> decode_options (f_data our_lcp_req);
     rest_opts \<leftarrow> subslice our_opts 1 (length our_opts);
     let reject = cp_encode ConfigureReject (f_id our_lcp_req) (encode_options rest_opts);
     (engine, events) \<leftarrow> received_ppp cr rnd engine ProtoLcp reject;
     let sends2 = extract_send events;
     first2 \<leftarrow> idx sends2 0;
     (_, second_req_payload) \<leftarrow> unwrap_ppp first2;
     second_req \<leftarrow> unwrap_frame second_req_payload;

     let ack = cp_encode ConfigureAck (f_id second_req) (f_data second_req);
     (engine, _) \<leftarrow> received_ppp cr rnd engine ProtoLcp ack;

     let server_lcp_req = cp_encode ConfigureRequest 1 (encode_options
       [Opt 3 [0xC2, 0x23, CHAP_ALGORITHM_MSCHAPV2], Opt 5 (u32_to_be 0xAABBCCDD)]);
     (engine, events) \<leftarrow> received_ppp cr rnd engine ProtoLcp server_lcp_req;
     let sends4 = extract_send events;
     first4 \<leftarrow> idx sends4 0;
     (_, our_ack_payload) \<leftarrow> unwrap_ppp first4;
     our_ack \<leftarrow> unwrap_frame our_ack_payload;

     let auth_challenge = replicate 16 0x11;
     let challenge = chap_encode Challenge 1 (chap_challenge_data auth_challenge ''VPN-NEW'');
     (engine, events) \<leftarrow> received_ppp cr rnd engine ProtoChap challenge;
     let sends5 = extract_send events;
     first5 \<leftarrow> idx sends5 0;
     (proto5, response_payload) \<leftarrow> unwrap_ppp first5;
     decoded \<leftarrow> chap_decode response_payload;
     response_frame \<leftarrow> decoded;
     peer_challenge \<leftarrow> subslice (cf_data response_frame) 1 17;
     nt_response \<leftarrow> generate_nt_response cr auth_challenge peer_challenge ENGINE_USERNAME ENGINE_PASSWORD;
     genuine \<leftarrow> generate_authenticator_response cr ENGINE_PASSWORD nt_response peer_challenge auth_challenge ENGINE_USERNAME;

     let success = chap_encode Success (cf_id response_frame) (utf8 genuine);
     (engine, events) \<leftarrow> received_ppp cr rnd engine ProtoChap success;
     let sends6 = extract_send events;
     first6 \<leftarrow> idx sends6 0;
     (proto6, ipcp_req_payload) \<leftarrow> unwrap_ppp first6;
     our_ipcp_req \<leftarrow> unwrap_frame ipcp_req_payload;

     let assigned_ip = (10, 100, 1, 21);
     let dns1 = (172, 19, 50, 203);
     let dns2 = (172, 19, 50, 204);
     let nak = cp_encode ConfigureNak (f_id our_ipcp_req) (encode_options
       [Opt 3 (octets assigned_ip), Opt 129 (octets dns1), Opt 131 (octets dns2)]);
     (engine, events) \<leftarrow> received_ppp cr rnd engine ProtoIpcp nak;
     first7 \<leftarrow> idx (extract_send events) 0;
     (_, second_ipcp_payload) \<leftarrow> unwrap_ppp first7;
     second_ipcp_req \<leftarrow> unwrap_frame second_ipcp_payload;

     let ack = cp_encode ConfigureAck (f_id second_ipcp_req) (f_data second_ipcp_req);
     (engine, events8) \<leftarrow> received_ppp cr rnd engine ProtoIpcp ack;

     let peer_ip = (10, 100, 1, 250);
     let server_ipcp_req = cp_encode ConfigureRequest 1 (encode_options [Opt 3 (octets peer_ip)]);
     (engine, events) \<leftarrow> received_ppp cr rnd engine ProtoIpcp server_ipcp_req;
     let sends9 = extract_send events;
     first9 \<leftarrow> idx sends9 0;
     (_, ipcp_ack_payload) \<leftarrow> unwrap_ppp first9;
     ipcp_ack \<leftarrow> unwrap_frame ipcp_ack_payload;

     connected_pkt \<leftarrow> idx sends9 1;
     (m9, attrs) \<leftarrow> ctrl_of connected_pkt;
     crypto_bind_attr \<leftarrow> List.find (\<lambda>a. attr_type a = CryptoBind) attrs;
     let crypto_bind = attr_data crypto_bind_attr;
     algo_byte \<leftarrow> idx crypto_bind 3;
     nonce \<leftarrow> subslice crypto_bind 4 36;
     (negotiated, keys) \<leftarrow> find_established events;

     let expected_cert_hash = c_sha256 cr FAKE_CERT_DER;
     zeroed \<leftarrow> copy_into crypto_bind 68 100 (replicate 32 0);
     full \<leftarrow> copy_into (encode_ctrl Connected [(CryptoBind, zeroed)]) 80 112 (replicate 32 0);
     expected_mac \<leftarrow> compound_mac cr AlgoSha256 (send_key keys) (recv_key keys) full;
     cert_hash \<leftarrow> subslice crypto_bind 36 68;
     mac \<leftarrow> subslice crypto_bind 68 100;
     Some (m0 = ConnectRequest \<and> length sends1 = 1 \<and> proto1 = ProtoLcp \<and> f_code our_lcp_req = ConfigureRequest \<and>
       length sends2 = 1 \<and> length sends4 = 1 \<and> f_code our_ack = ConfigureAck \<and>
       length sends5 = 1 \<and> proto5 = ProtoChap \<and> cf_code response_frame = Response \<and>
       length sends6 = 1 \<and> proto6 = ProtoIpcp \<and> extract_send events8 = [] \<and>
       length sends9 = 2 \<and> f_code ipcp_ack = ConfigureAck \<and> m9 = Connected \<and> algo_byte = 0x02 \<and>
       nonce = server_nonce \<and> nc_local_ip negotiated = Some assigned_ip \<and> nc_peer_ip negotiated = Some peer_ip \<and>
       nc_dns1 negotiated = Some dns1 \<and> nc_dns2 negotiated = Some dns2 \<and>
       cert_hash = expected_cert_hash \<and> mac = expected_mac)
   })"

section \<open>Endings and single messages\<close>

definition fatal_with :: "rstr \<Rightarrow> event \<Rightarrow> bool" where
  \<comment> \<open>\<open>Fatal(msg) if msg.contains(part)\<close>\<close>
  "fatal_with part e = (case e of Fatal msg \<Rightarrow> contains (fatal_text ascii_printable msg) part | _ \<Rightarrow> False)"

definition connect_nak_is_fatal_with_reason :: "crypto \<Rightarrow> u32 \<Rightarrow> draws \<Rightarrow> bool" where
  "connect_nak_is_fatal_with_reason cr magic rnd = passes (do {
     engine \<leftarrow> engine_new cr magic ENGINE_USERNAME ENGINE_PASSWORD FAKE_CERT_DER;
     let connect_req = engine_start engine;
     let status_data = [0, 0, 0, 0, 0, 0, 0, 9];
     let nak = encode_ctrl ConnectNak [(StatusInfo, status_data)];
     (engine, events) \<leftarrow> received cr rnd engine nak;
     Some (case events of [Fatal _] \<Rightarrow> True | _ \<Rightarrow> False)
   })"

definition wrong_chap_success_message_is_rejected_as_possible_mitm :: "crypto \<Rightarrow> u32 \<Rightarrow> draws \<Rightarrow> bool" where
  "wrong_chap_success_message_is_rejected_as_possible_mitm cr magic rnd = passes (do {
     engine \<leftarrow> engine_new cr magic ENGINE_USERNAME ENGINE_PASSWORD FAKE_CERT_DER;
     let connect_req = engine_start engine;
     let connect_ack = encode_ctrl ConnectAck [(CryptoBindRequest, [0, 0, 0, 1] @ replicate 32 0)];
     (engine, _) \<leftarrow> received cr rnd engine connect_ack;
     let server_lcp_req = cp_encode ConfigureRequest 1 (encode_options [Opt 3 [0xC2, 0x23, CHAP_ALGORITHM_MSCHAPV2]]);
     (engine, _) \<leftarrow> received_ppp cr rnd engine ProtoLcp server_lcp_req;
     let auth_challenge = replicate 16 0x33;
     let challenge = chap_encode Challenge 1 (chap_challenge_data auth_challenge ''srv'');
     (engine, _) \<leftarrow> received_ppp cr rnd engine ProtoChap challenge;
     let bogus_success = chap_encode Success 1 (byte_lit ''S=0000000000000000000000000000000000000000'');
     (engine, events) \<leftarrow> received_ppp cr rnd engine ProtoChap bogus_success;
     Some (case events of [e] \<Rightarrow> fatal_with (lit ''MITM'') e | _ \<Rightarrow> False)
   })"

definition chap_failure_is_reported_fatal :: "crypto \<Rightarrow> u32 \<Rightarrow> draws \<Rightarrow> bool" where
  "chap_failure_is_reported_fatal cr magic rnd = passes (do {
     engine \<leftarrow> engine_new cr magic ENGINE_USERNAME ENGINE_PASSWORD FAKE_CERT_DER;
     let connect_req = engine_start engine;
     let connect_ack = encode_ctrl ConnectAck [(CryptoBindRequest, [0, 0, 0, 1] @ replicate 32 0)];
     (engine, _) \<leftarrow> received cr rnd engine connect_ack;
     let server_lcp_req = cp_encode ConfigureRequest 1 (encode_options [Opt 3 [0xC2, 0x23, CHAP_ALGORITHM_MSCHAPV2]]);
     (engine, _) \<leftarrow> received_ppp cr rnd engine ProtoLcp server_lcp_req;
     let challenge = chap_encode Challenge 1 (chap_challenge_data (replicate 16 0) ''srv'');
     (engine, _) \<leftarrow> received_ppp cr rnd engine ProtoChap challenge;
     let failure = chap_encode Failure 1 (byte_lit ''E=691 R=0'');
     (engine, events) \<leftarrow> received_ppp cr rnd engine ProtoChap failure;
     Some (list_ex (fatal_with (lit ''691'')) events)
   })"

definition ip_data_frame_is_delivered_as_is :: "crypto \<Rightarrow> u32 \<Rightarrow> draws \<Rightarrow> bool" where
  "ip_data_frame_is_delivered_as_is cr magic rnd = passes (do {
     engine \<leftarrow> engine_new cr magic ENGINE_USERNAME ENGINE_PASSWORD FAKE_CERT_DER;
     let ip_packet = [0x45, 0x00, 0x00, 0x14, 0xAA, 0xBB];
     (_, events) \<leftarrow> received_ppp cr rnd engine ProtoIp ip_packet;
     Some (events = [DeliverIpPacket ip_packet])
   })"

definition unknown_protocol_triggers_lcp_protocol_reject :: "crypto \<Rightarrow> u32 \<Rightarrow> draws \<Rightarrow> bool" where
  "unknown_protocol_triggers_lcp_protocol_reject cr magic rnd = passes (do {
     engine \<leftarrow> engine_new cr magic ENGINE_USERNAME ENGINE_PASSWORD FAKE_CERT_DER;
     let frame = ppp_encode (UnknownProto 0x8281) [0x01, 0x01, 0x00, 0x04];
     (_, events) \<leftarrow> received cr rnd engine (encode_data frame);
     let sends = extract_send events;
     first \<leftarrow> idx sends 0;
     (proto, payload) \<leftarrow> unwrap_ppp first;
     rej \<leftarrow> unwrap_frame payload;
     Some (length sends = 1 \<and> proto = ProtoLcp \<and> f_code rej = ProtocolReject \<and>
       f_data rej = strip_address_control frame)
   })"

definition server_initiated_disconnect_is_acked_and_reported :: "crypto \<Rightarrow> u32 \<Rightarrow> draws \<Rightarrow> bool" where
  "server_initiated_disconnect_is_acked_and_reported cr magic rnd = passes (do {
     engine \<leftarrow> engine_new cr magic ENGINE_USERNAME ENGINE_PASSWORD FAKE_CERT_DER;
     (_, events) \<leftarrow> received cr rnd engine (encode_ctrl Disconnect []);
     let sends = extract_send events;
     first \<leftarrow> idx sends 0;
     (m, _) \<leftarrow> ctrl_of first;
     Some (length sends = 1 \<and> m = DisconnectAck \<and> Disconnected \<in> set events)
   })"

definition echo_request_gets_a_reply :: "crypto \<Rightarrow> u32 \<Rightarrow> draws \<Rightarrow> bool" where
  "echo_request_gets_a_reply cr magic rnd = passes (do {
     engine \<leftarrow> engine_new cr magic ENGINE_USERNAME ENGINE_PASSWORD FAKE_CERT_DER;
     (_, events) \<leftarrow> received cr rnd engine (encode_ctrl msg_type.EchoRequest []);
     let sends = extract_send events;
     first \<leftarrow> idx sends 0;
     (m, _) \<leftarrow> ctrl_of first;
     Some (length sends = 1 \<and> m = msg_type.EchoReply)
   })"

definition debug_impl_never_prints_password :: "crypto \<Rightarrow> u32 \<Rightarrow> bool" where
  "debug_impl_never_prints_password cr magic = passes (do {
     engine \<leftarrow> engine_new cr magic ENGINE_USERNAME (lit ''super-secret-password'') FAKE_CERT_DER;
     Some (\<not> contains (debug_engine ascii_printable engine) (lit ''super-secret-password''))
   })"

section \<open>Evaluation\<close>

definition fixed_draws :: draws where
  "fixed_draws = \<lparr>rnd_u32 = suggestion, rnd_16 = drawn_challenge\<rparr>"

lemma full_handshake_test_passes:
  "full_handshake_reaches_established_with_correct_crypto_bind toy_crypto CAPTURED_MAGIC fixed_draws"
  by code_simp

lemma engine_ending_tests_pass:
  "connect_nak_is_fatal_with_reason toy_crypto CAPTURED_MAGIC fixed_draws"
  "wrong_chap_success_message_is_rejected_as_possible_mitm toy_crypto CAPTURED_MAGIC fixed_draws"
  "chap_failure_is_reported_fatal toy_crypto CAPTURED_MAGIC fixed_draws"
  by code_simp+

lemma engine_message_tests_pass:
  "ip_data_frame_is_delivered_as_is toy_crypto CAPTURED_MAGIC fixed_draws"
  "unknown_protocol_triggers_lcp_protocol_reject toy_crypto CAPTURED_MAGIC fixed_draws"
  "server_initiated_disconnect_is_acked_and_reported toy_crypto CAPTURED_MAGIC fixed_draws"
  "echo_request_gets_a_reply toy_crypto CAPTURED_MAGIC fixed_draws"
  "debug_impl_never_prints_password toy_crypto CAPTURED_MAGIC"
  by code_simp+

end
