(* ===== verification/Tests_App.thy ===== *)
theory Tests_App
  imports Tests_Codec Http Utun I18n Ipc
begin

text \<open>
  The unit tests of \<open>http.rs\<close>, \<open>utun.rs\<close>, \<open>elevate.rs\<close>, \<open>i18n.rs\<close> and \<open>ipc.rs\<close>, run on the
  model. What a test asks the system is an argument of it (\<open>kill\<close>, the process id, the locale); the
  shell and the AppleScript interpreter of the quoting tests are the readers of \<open>Elevate\<close>. The tests
  of a JSON round trip are not here: they test \<open>serde\<close>.
\<close>

section \<open>The HTTP handshake\<close>

definition from_utf8 :: "bytes \<Rightarrow> rstr option" where
  \<comment> \<open>the strict decoder: only an ill-formed text is changed by a lossy round trip\<close>
  "from_utf8 bs = (let s = from_utf8_lossy bs in if utf8 s = bs then Some s else None)"

definition CR_LF :: bytes where "CR_LF = [13, 10]"

definition request_matches_reference_shape :: bool where
  "request_matches_reference_shape \<longleftrightarrow> passes (do {
     let req = build_request (lit ''vpn.example.com:8443'') (lit ''11111111-2222-3333-4444-555555555555'');
     text \<leftarrow> from_utf8 req;
     Some (starts_with (lit ''SSTP_DUPLEX_POST /sra_{BA195980-CD49-458b-9E23-C84EE0ADCD75}/ HTTP/1.1'' @ CRLF) text \<and>
       contains text (lit ''Host: vpn.example.com:8443'' @ CRLF) \<and>
       contains text (lit ''Content-Length: 18446744073709551615'' @ CRLF) \<and>
       contains text (lit ''SSTPCORRELATIONID: {11111111-2222-3333-4444-555555555555}'' @ CRLF) \<and>
       suffix (CRLF @ CRLF) text)
   })"

definition unwrap_response_head :: "bytes \<Rightarrow> (u16 \<times> nat) option" where
  \<comment> \<open>\<open>parse_response(..).unwrap()\<close>\<close>
  "unwrap_response_head bs = Option.bind (parse_response bs) (\<lambda>r. case r of Inr v \<Rightarrow> Some v | Inl _ \<Rightarrow> None)"

definition parses_successful_response_and_finds_body_offset :: bool where
  "parses_successful_response_and_finds_body_offset \<longleftrightarrow> passes (do {
     let response = byte_lit ''HTTP/1.1 200 OK'' @ CR_LF @ byte_lit ''Server: Microsoft-HTTPAPI/2.0'' @ CR_LF @
       byte_lit ''Date: Sat, 19 Feb 2011 02:13:44 GMT'' @ CR_LF @ CR_LF @ byte_lit ''BINARY-SSTP-BYTES'';
     (code, offset) \<leftarrow> unwrap_response_head response;
     rest \<leftarrow> subslice response offset (length response);
     Some (code = 200 \<and> rest = byte_lit ''BINARY-SSTP-BYTES'')
   })"

definition status_line_without_reason_phrase_still_parses :: bool where
  "status_line_without_reason_phrase_still_parses \<longleftrightarrow> passes (do {
     (code, _) \<leftarrow> unwrap_response_head (byte_lit ''HTTP/1.1 200'' @ CR_LF @ CR_LF);
     Some (code = 200)
   })"

definition incomplete_headers_ask_for_more_bytes :: bool where
  "incomplete_headers_ask_for_more_bytes \<longleftrightarrow>
     parse_response (byte_lit ''HTTP/1.1 200 OK'' @ CR_LF @ byte_lit ''Server: x'') = Some (Inl HeadersIncomplete) \<and>
     parse_response [] = Some (Inl HeadersIncomplete)"

definition non_200_status_is_a_distinct_error :: bool where
  "non_200_status_is_a_distinct_error \<longleftrightarrow>
     parse_response (byte_lit ''HTTP/1.1 401 Unauthorized'' @ CR_LF @ CR_LF) = Some (Inl (NonSuccessStatus 401))"

definition garbage_status_line_is_a_distinct_error :: bool where
  "garbage_status_line_is_a_distinct_error \<longleftrightarrow>
     (case parse_response (byte_lit ''NOT-HTTP AT ALL'' @ CR_LF @ CR_LF) of
        Some (Inl (BadStatusLine _)) \<Rightarrow> True | _ \<Rightarrow> False)"

section \<open>The utun interface\<close>

definition ctliocginfo_matches_known_macos_constant :: bool where
  "ctliocginfo_matches_known_macos_constant \<longleftrightarrow> ctliocginfo = 0xc0644e03"

definition ctl_info_and_sockaddr_ctl_have_expected_sizes :: bool where
  "ctl_info_and_sockaddr_ctl_have_expected_sizes \<longleftrightarrow> size_ctl_info = 100 \<and> size_sockaddr_ctl = 32"

definition ipv4_family_header_is_network_byte_order_af_inet :: bool where
  "ipv4_family_header_is_network_byte_order_af_inet \<longleftrightarrow> IPV4_FAMILY_HEADER = [0, 0, 0, as_u8 AF_INET]"

section \<open>Quoting\<close>

definition shell_roundtrip :: "rstr \<Rightarrow> rstr option" where
  \<comment> \<open>what \<open>/bin/sh -c\<close> prints for \<open>printf '%s'\<close> and the quoted text: its one argument after the format\<close>
  "shell_roundtrip s =
     (let quoted = shell_quote s
      in case shell_words (lit ''printf '' @ shell_quote (lit ''%s'') @ [32] @ quoted) of
           Some [command, format, argument] \<Rightarrow>
             if command = lit ''printf'' \<and> format = lit ''%s'' then Some argument else None
         | _ \<Rightarrow> None)"

definition shell_quote_roundtrips_plain_and_hostile_input :: bool where
  "shell_quote_roundtrips_plain_and_hostile_input \<longleftrightarrow>
     (\<forall>s \<in> set [[], lit ''plain'', lit ''with space'', lit ''it'' @ [39] @ lit ''s a trap'',
         [39, 39] @ lit ''; rm -rf / #'', lit ''$(rm -rf /)'', [96] @ lit ''rm -rf /'' @ [96],
         lit ''back'' @ [92] @ lit ''slash'', lit ''new'' @ [10] @ lit ''line'',
         lit ''quote'' @ [34] @ lit ''double'',
         [1084, 1091, 1083, 1100, 1090, 1080, 1073, 1072, 1081, 1090, 32, 1087, 1072, 1088, 1086, 1083, 1100]].
        shell_roundtrip s = Some s)"

definition trim_end_newlines :: "rstr \<Rightarrow> rstr" where
  "trim_end_newlines s = rev (dropWhile (\<lambda>c. c = 10) (rev s))"

definition applescript_roundtrip :: "rstr \<Rightarrow> rstr option" where
  \<comment> \<open>\<open>osascript\<close> prints the value the script returns, a literal, and a line break\<close>
  "applescript_roundtrip s =
     (let quoted = applescript_quote s;
          script = lit ''return '' @ [34] @ quoted @ [34]
      in do {
        literal \<leftarrow> strip_prefix (lit ''return '' @ [34]) script;
        (returned, rest) \<leftarrow> as_literal literal;
        if rest = [] then Some (trim_end_newlines (returned @ [10])) else None
      })"

definition applescript_quote_roundtrips_plain_and_hostile_input :: bool where
  "applescript_quote_roundtrips_plain_and_hostile_input \<longleftrightarrow>
     (\<forall>s \<in> set [[], lit ''plain'', lit ''with space'', lit ''back'' @ [92] @ lit ''slash'',
         lit ''quote'' @ [34] @ lit ''double'', lit ''both'' @ [92] @ lit '' and '' @ [34] @ lit '' together'',
         [1084, 1091, 1083, 1100, 1090, 1080, 1073, 1072, 1081, 1090, 32, 1087, 1072, 1088, 1086, 1083, 1100]].
        applescript_roundtrip s = Some s)"

section \<open>Translations and process liveness\<close>

definition as_list :: "strings \<Rightarrow> rstr list" where
  "as_list s =
     [s_connect s, s_cancel s, s_disconnect s, s_not_connected s, s_connecting s, s_connected s, s_settings s,
      s_settings_hover s, s_back s, s_servers s, s_add_server s, s_remove_server_hover s, s_profile_name_label s,
      s_server_label s, s_username_label s, s_password_label s, s_save_password_in_keychain s, s_save_settings s,
      s_connection_log s, s_fill_server_username_password s, s_default_server_name_prefix s,
      s_tray_status_disconnected s, s_tray_status_connecting s, s_tray_status_connected s, s_tray_connect s,
      s_tray_disconnect s, s_tray_show_window s, s_tray_quit s, s_notif_app_name s,
      s_notif_restored_after_failure s, s_notif_restore_failed s]"

definition no_string_is_accidentally_empty :: bool where
  "no_string_is_accidentally_empty \<longleftrightarrow> (\<forall>s \<in> set (as_list RU @ as_list EN). s \<noteq> [])"

definition ru_and_en_are_not_the_same_table :: bool where
  "ru_and_en_are_not_the_same_table \<longleftrightarrow>
     length (filter (\<lambda>(ru, en). ru = en) (zip (as_list RU) (as_list EN))) < length (as_list RU)"

definition t_self_initializes_and_is_internally_consistent :: "command_output option \<Rightarrow> lang option \<Rightarrow> bool" where
  "t_self_initializes_and_is_internally_consistent detected current \<longleftrightarrow>
     (let (strings, _) = current_strings detected current in strings = RU \<or> strings = EN)"

definition current_process_pid_is_alive_and_pid_one_style_bogus_check ::
  "(u32 \<Rightarrow> int \<times> int) \<Rightarrow> u32 \<Rightarrow> bool" where
  "current_process_pid_is_alive_and_pid_one_style_bogus_check kill my_pid \<longleftrightarrow>
     pid_alive kill my_pid \<and> \<not> pid_alive kill 999999"

definition pid_alive_treats_a_root_owned_process_as_alive :: "(u32 \<Rightarrow> int \<times> int) \<Rightarrow> bool" where
  "pid_alive_treats_a_root_owned_process_as_alive kill \<longleftrightarrow> pid_alive kill 1"

section \<open>Evaluation\<close>

lemma request_matches_reference_shape_passes: request_matches_reference_shape
proof -
  have n: "show_dec INFINITE_CONTENT_LENGTH = lit ''18446744073709551615''"
    by (simp add: INFINITE_CONTENT_LENGTH_def lit_def show_dec.simps)
  show ?thesis
    unfolding request_matches_reference_shape_def build_request_def n by code_simp
qed

fun small_digits :: "nat \<Rightarrow> rstr \<Rightarrow> nat option" where
  \<comment> \<open>\<open>digits_value\<close> without its bound, which four digits cannot exceed\<close>
  "small_digits acc [] = Some acc"
| "small_digits acc (c # s) = (if 48 \<le> c \<and> c \<le> 57 then small_digits (acc * 10 + (c - 48)) s else None)"

lemma digits_value_small: "acc < 10 ^ k \<Longrightarrow> length s + k \<le> 4 \<Longrightarrow> digits_value 65535 acc s = small_digits acc s"
proof (induction s arbitrary: acc k)
  case (Cons c s)
  have n: "acc * 10 + (c - 48) < 10 ^ Suc k" if "c \<le> 57"
    using Cons.prems(1) that by simp
  moreover have "(10::nat) ^ Suc k \<le> 10 ^ 4"
    by (rule power_increasing) (use Cons.prems(2) in simp_all)
  ultimately have "acc * 10 + (c - 48) \<le> 65535" if "c \<le> 57"
    using that by fastforce
  then show ?case
    using Cons.IH [of "acc * 10 + (c - 48)" "Suc k"] n Cons.prems(2) by auto
qed simp

lemma parse_u16_code [code]:
  "parse_u16 s =
     (let digits = (case s of [] \<Rightarrow> [] | c # r \<Rightarrow> if c = 43 then r else s)
      in if digits = [] then None
         else if length digits \<le> 4 then map_option of_nat (small_digits 0 digits)
         else map_option of_nat (digits_value 65535 0 digits))"
  by (auto simp: parse_u16_def Let_def digits_value_small [where k = 0])

lemma http_tests_pass:
  parses_successful_response_and_finds_body_offset
  status_line_without_reason_phrase_still_parses
  incomplete_headers_ask_for_more_bytes
  non_200_status_is_a_distinct_error
  garbage_status_line_is_a_distinct_error
  by code_simp+

lemma utun_tests_pass:
  ctliocginfo_matches_known_macos_constant
  ctl_info_and_sockaddr_ctl_have_expected_sizes
  ipv4_family_header_is_network_byte_order_af_inet
  by code_simp+

lemma shell_roundtrip: "shell_roundtrip s = Some s"
proof -
  have "shell_words (shell_quote s) = Some [s]"
    using shell_words_quote [of "[]" s] by simp
  moreover have "list_all plain_char (lit ''printf'')" "lit ''printf'' \<noteq> []" "lit ''printf '' = lit ''printf'' @ [32]"
    by (simp_all add: lit_def plain_char_def)
  ultimately show ?thesis
    by (simp add: shell_roundtrip_def Let_def shell_words_plain shell_words_quote)
qed

lemma applescript_roundtrip: "10 \<notin> set s \<Longrightarrow> applescript_roundtrip s = Some s"
  using as_literal_quote [of s "[]"]
  by (cases s rule: rev_cases)
    (auto simp: applescript_roundtrip_def trim_end_newlines_def strip_prefix_def starts_with_def Let_def)

lemma quoting_tests_pass:
  shell_quote_roundtrips_plain_and_hostile_input
  applescript_quote_roundtrips_plain_and_hostile_input
  by (simp_all add: shell_quote_roundtrips_plain_and_hostile_input_def shell_roundtrip
      applescript_quote_roundtrips_plain_and_hostile_input_def applescript_roundtrip lit_def)

lemma i18n_tests_pass:
  no_string_is_accidentally_empty
  ru_and_en_are_not_the_same_table
  "t_self_initializes_and_is_internally_consistent detected current"
proof -
  show no_string_is_accidentally_empty ru_and_en_are_not_the_same_table
    by (simp_all add: no_string_is_accidentally_empty_def ru_and_en_are_not_the_same_table_def as_list_def
        RU_def EN_def lit_def)
  have "lang_strings l = RU \<or> lang_strings l = EN" for l by (cases l) simp_all
  then show "t_self_initializes_and_is_internally_consistent detected current"
    by (simp add: t_self_initializes_and_is_internally_consistent_def current_strings_def Let_def)
qed

definition test_kill :: "u32 \<Rightarrow> int \<times> int" where
  \<comment> \<open>the system of the tests: the process itself, a process of root, no other\<close>
  "test_kill pid = (if pid = 4242 then (0, 0) else if pid = 1 then (-1, EPERM) else (-1, 3))"

lemma ipc_tests_pass:
  "current_process_pid_is_alive_and_pid_one_style_bogus_check test_kill 4242"
  "pid_alive_treats_a_root_owned_process_as_alive test_kill"
  by (simp_all add: current_process_pid_is_alive_and_pid_one_style_bogus_check_def pid_alive_def test_kill_def
      EPERM_def pid_alive_treats_a_root_owned_process_as_alive_def)

end
