(* ===== verification/Spec2Isabelle.thy ===== *)
theory Spec2Isabelle
  imports Handshake Connection Utun Worker Route Elevate Keychain I18n Gui_Run System
    Tests_Codec Tests_Negotiation Tests_Auth Tests_Engine Tests_App
begin

text \<open>
  A model of an SSTP VPN client for macOS, written in Rust: the protocol library under
  \<open>src/sstp-proto/src\<close> and the application under \<open>src/src\<close>, with the theorems that make it correct.

  The program. The application (\<open>main.rs\<close>) keeps profiles and runs without privileges. To
  connect it hands the password over in a file (\<open>ipc.rs\<close>), saves the default route (\<open>route.rs\<close>) and
  starts itself as root with \<open>--vpn-worker\<close> through AppleScript (\<open>elevate.rs\<close>). The worker
  (\<open>worker.rs\<close>) runs the connection task (\<open>connection.rs\<close>): TCP, TLS, an HTTP handshake
  (\<open>http.rs\<close>), then SSTP packets (\<open>packet.rs\<close>) whose data packets carry PPP frames (\<open>ppp.rs\<close>) and are
  fed to the protocol engine (\<open>engine.rs\<close>). The engine negotiates LCP and IPCP (\<open>cp.rs\<close>,
  \<open>lcp.rs\<close>, \<open>ipcp.rs\<close>), logs in with MS-CHAPv2 (\<open>chap.rs\<close>, \<open>chap_fsm.rs\<close>), derives the MPPE keys
  (\<open>mppe.rs\<close>) and binds the tunnel to the TLS certificate with a MAC (\<open>cmac.rs\<close>); then the task
  makes a utun interface (\<open>utun.rs\<close>) and moves IP packets. The worker sets the routes and writes
  a status file; the application polls that file, shows the state, and repairs the default route
  when the tunnel is gone.

  The theories.
  \<^item> \<open>Sstp_Prelude\<close>: machine integers, checked access to slices, the collections of simplification
    rules, the locales of enumerated wire codes and frame codecs. \<open>Rust_Str\<close> and \<open>Rust_Text\<close>:
    Rust's strings and the methods the program uses of them.
  \<^item> \<open>Packet\<close> (\<open>packet.rs\<close>), \<open>Ppp\<close> (\<open>ppp.rs\<close>), \<open>Cp\<close> (\<open>cp.rs\<close>): codecs and the stream reader. They
    never panic, round-trip, and do not depend on how the stream is cut.
  \<^item> \<open>Negotiation\<close>: the abstract Configure exchange of RFC 1661 and the locale of receivers that
    refine it; \<open>Lcp\<close> and \<open>Ipcp\<close> (\<open>lcp.rs\<close>, \<open>ipcp.rs\<close>) interpret it, with the exact answers to requests
    and what is learnt from acknowledgements.
  \<^item> \<open>Chap\<close>, \<open>Chap_Fsm\<close>, \<open>Mppe\<close>, \<open>Cmac\<close>: the login and its keys over abstract hash functions and DES.
  \<^item> \<open>Engine\<close> (\<open>engine.rs\<close>): the state machine, one definition for each handler. \<open>Session\<close>: runs over
    packets, the step relation of the phases. \<open>Handshake\<close>: whole exchanges, what must have happened
    before a tunnel, and the exchanges that go wrong.
  \<^item> \<open>Http\<close>, \<open>Connection\<close>, \<open>Utun\<close>: the connection task as a function of the reads, ticks and requests
    its select loop gets, with what it writes, configures and reports.
  \<^item> \<open>Ipc\<close> (\<open>ipc.rs\<close>, \<open>log.rs\<close>), \<open>Elevate\<close>, \<open>Route\<close>, \<open>Worker\<close>, \<open>Keychain\<close>, \<open>I18n\<close>: the parts around it,
    as operations on a record of files and on what commands print.
  \<^item> \<open>Gui\<close> (\<open>main.rs\<close>): the state of the application, its threads, the frame logic and the effects of
    the screens. \<open>Gui_Run\<close>: the steps of the application and its invariant. \<open>System\<close>: the
    connection task, the worker it reports to and the application over the files they share, from
    the reads of the server's messages, each sent after the one before was answered and cut in any
    way, to the state that is shown.

  \<^item> \<open>Messages\<close>: the texts of the engine's events and the formats that hide the password and the
    keys. \<open>Standards\<close>: MD4, SHA-1, SHA-256, HMAC and DES as published, checked against the vectors of
    their standards: not models of the crates, but an instance of the argument that stands for them.
  \<^item> \<open>Tests_Codec\<close>, \<open>Tests_Negotiation\<close>, \<open>Tests_Auth\<close>, \<open>Tests_Engine\<close>, \<open>Tests_App\<close>: the unit tests of
    the repository as propositions over the model, each evaluated to true. They tie the definitions
    to the values the authors expect of the code, among them the published vectors of the login, the
    session keys and the crypto-bind message, which the model computes at the standards.

  Conventions. An operation of the code that can panic is a function into an option type, \<open>None\<close>
  being the panic. A \<open>Result\<close> is a sum. A message text is a constructor with the values it shows
  (its words are in \<open>Messages\<close>).
  Random numbers, the clock, system calls, the output of commands, MD4, SHA, DES and HMAC are
  arguments; what is asked of the latter is \<open>crypto_ok\<close>, the lengths of their outputs. The command
  \<open>security\<close> is an argument; the hypothesis on it, \<open>security_documented\<close>, says what its calls have
  done when they report success, and how a password of printable ASCII is printed.
  The machine and the status file may change between the attempts of a healing thread; a write of
  the password file may fail before, within or after the text, or its mode may not be set. The end of
  a worker waits for the reader thread of its interface: whether that thread returns is an argument
  (\<open>reader_ends\<close>), and a worker that waits for ever has no exit code.

  Bounds. Every loop of the code is a recursion that ends: the decoders and the reader shrink their
  input, the select loops recurse over the finite list of what they are given, the wait for the
  worker over its rounds, of which thirty-five are enough for ten seconds, and healing over its four
  attempts. No definition takes fuel.

  Not modelled. \<open>tls.rs\<close> sets options of a library object. \<open>bin/gen_icon.rs\<close> draws the
  icon of the program at build time. Of \<open>main.rs\<close>, layout and colours of the widgets, the form of the
  configuration file (JSON by serde; a record here) and the Touch Bar workaround are left out. The
  three seconds in which a disconnecting task waits for an answer have no effect. In the
  application one click is handled per frame, and a background thread does not change the state in
  the middle of a frame; a thread's file operations are not interleaved with those of the worker
  except between its steps. Of the unit tests, those of a JSON round trip (\<open>ipc.rs\<close>, \<open>main.rs\<close>), of
  the TLS connector and of \<open>Lang::detect\<close> not panicking test library code and are left out.
\<close>

end
